(* ===== verification/Prelude.thy ===== *)
theory Prelude
  imports Main "HOL-Library.Char_ord" "HOL-Library.List_Lexorder"
begin

text \<open>
  What every component shares: the fragment of Go's strings package the program uses
  (a Go string is a sequence of bytes, here a \<^typ>\<open>string\<close>), 64-bit wrap-around, the
  shape of Go's early returns (an error result is an option whose \<^const>\<open>None\<close> is
  \<open>nil\<close>), and the lemma collections the component proofs use.

  \<^item> \<open>gostr\<close> collects the rewrite rules of the string functions;
  \<^item> \<open>noerr\<close> collects the rules that turn ``this check returned nil'' into the condition
    checked, so that a whole validator unfolds by \<open>simp add: noerr\<close>.
\<close>

named_theorems gostr
named_theorems noerr

section \<open>Early returns\<close>

text \<open>
  \<open>andthen\<close> is \<open>if err := a; err != nil { return err }; b\<close>; \<open>each\<close> is the same inside a
  \<open>for range\<close> loop, \<open>each_i\<close> with the loop index and \<open>each_st\<close> with a state the loop
  body updates.
\<close>

fun andthen :: "'e option \<Rightarrow> 'e option \<Rightarrow> 'e option" where
  "andthen (Some e) b = Some e"
| "andthen None b = b"

definition check :: "bool \<Rightarrow> 'e \<Rightarrow> 'e option" where
  "check bad e = (if bad then Some e else None)"

fun each :: "('a \<Rightarrow> 'e option) \<Rightarrow> 'a list \<Rightarrow> 'e option" where
  "each f [] = None"
| "each f (x # xs) = andthen (f x) (each f xs)"

fun each_i :: "nat \<Rightarrow> (nat \<Rightarrow> 'a \<Rightarrow> 'e option) \<Rightarrow> 'a list \<Rightarrow> 'e option" where
  "each_i i f [] = None"
| "each_i i f (x # xs) = andthen (f i x) (each_i (Suc i) f xs)"

fun each_st :: "('s \<Rightarrow> 'a \<Rightarrow> 'e + 's) \<Rightarrow> 's \<Rightarrow> 'a list \<Rightarrow> 'e + 's" where
  "each_st f s [] = Inr s"
| "each_st f s (x # xs) = (case f s x of Inl e \<Rightarrow> Inl e | Inr s' \<Rightarrow> each_st f s' xs)"

lemma andthen_None [noerr]: "andthen a b = None \<longleftrightarrow> a = None \<and> b = None"
  by (cases a) auto

lemma andthen_Some: "andthen a b = Some e \<longleftrightarrow> a = Some e \<or> a = None \<and> b = Some e"
  by (cases a) auto

lemma check_None [noerr]: "check bad e = None \<longleftrightarrow> \<not> bad"
  by (simp add: check_def)

lemma check_Some: "check bad e = Some e' \<longleftrightarrow> bad \<and> e' = e"
  by (auto simp: check_def)

lemma each_None [noerr]: "each f xs = None \<longleftrightarrow> (\<forall>x \<in> set xs. f x = None)"
  by (induction xs) (auto simp: andthen_None)

lemma each_i_None [noerr]:
  "each_i i f xs = None \<longleftrightarrow> (\<forall>k < length xs. f (i + k) (xs ! k) = None)"
  by (induction xs arbitrary: i) (auto simp: andthen_None All_less_Suc2)

lemma each_cong [fundef_cong]:
  "xs = ys \<Longrightarrow> (\<And>x. x \<in> set ys \<Longrightarrow> f x = g x) \<Longrightarrow> each f xs = each g ys"
  by (induction xs arbitrary: ys) auto

lemma each_i_cong [fundef_cong]:
  "i = j \<Longrightarrow> xs = ys \<Longrightarrow> (\<And>k x. x \<in> set ys \<Longrightarrow> f k x = g k x) \<Longrightarrow> each_i i f xs = each_i j g ys"
  by (induction xs arbitrary: ys i j) auto

lemma each_Some: "each f xs = Some e \<Longrightarrow> \<exists>x \<in> set xs. f x = Some e"
  by (induction xs) (auto simp: andthen_Some)

lemma each_st_append:
  "each_st f s (xs @ ys) = (case each_st f s xs of Inl e \<Rightarrow> Inl e | Inr s' \<Rightarrow> each_st f s' ys)"
  by (induction xs arbitrary: s) (auto split: sum.splits)

text \<open>An invariant of the loop body is an invariant of the loop.\<close>

lemma each_st_invariant:
  assumes "each_st f s xs = Inr s'" and "P s"
    and "\<And>s x s'. x \<in> set xs \<Longrightarrow> P s \<Longrightarrow> f s x = Inr s' \<Longrightarrow> P s'"
  shows "P s'"
  using assms
proof (induction xs arbitrary: s)
  case (Cons x xs)
  then obtain t where t: "f s x = Inr t" "each_st f t xs = Inr s'"
    by (auto split: sum.splits)
  with Cons.prems have "P t" by (meson list.set_intros(1))
  then show ?case using Cons.IH [of t] t Cons.prems(3) by (meson list.set_intros(2))
qed simp

lemma list_all2_origin: "list_all2 P xs ys \<Longrightarrow> y \<in> set ys \<Longrightarrow> \<exists>x \<in> set xs. P x y"
  by (induction rule: list_all2_induct) auto

section \<open>Go strings\<close>

text \<open>
  \<open>strings.TrimSpace\<close> removes the UTF-8 encodings of the Unicode white-space code points
  from both ends; \<open>space_seqs\<close> lists them (U+0009 to U+000D, U+0020, U+0085, U+00A0,
  U+1680, U+2000 to U+200A, U+2028, U+2029, U+202F, U+205F, U+3000).
\<close>

definition space_seqs :: "string list" where
  "space_seqs =
    [[CHR 0x20], [CHR 0x09], [CHR 0x0A], [CHR 0x0B], [CHR 0x0C], [CHR 0x0D],
     [CHR 0xC2, CHR 0x85], [CHR 0xC2, CHR 0xA0], [CHR 0xE1, CHR 0x9A, CHR 0x80],
     [CHR 0xE2, CHR 0x80, CHR 0x80], [CHR 0xE2, CHR 0x80, CHR 0x81],
     [CHR 0xE2, CHR 0x80, CHR 0x82], [CHR 0xE2, CHR 0x80, CHR 0x83],
     [CHR 0xE2, CHR 0x80, CHR 0x84], [CHR 0xE2, CHR 0x80, CHR 0x85],
     [CHR 0xE2, CHR 0x80, CHR 0x86], [CHR 0xE2, CHR 0x80, CHR 0x87],
     [CHR 0xE2, CHR 0x80, CHR 0x88], [CHR 0xE2, CHR 0x80, CHR 0x89],
     [CHR 0xE2, CHR 0x80, CHR 0x8A], [CHR 0xE2, CHR 0x80, CHR 0xA8],
     [CHR 0xE2, CHR 0x80, CHR 0xA9], [CHR 0xE2, CHR 0x80, CHR 0xAF],
     [CHR 0xE2, CHR 0x81, CHR 0x9F], [CHR 0xE3, CHR 0x80, CHR 0x80]]"

definition has_prefix :: "string \<Rightarrow> string \<Rightarrow> bool" where
  "has_prefix s p \<longleftrightarrow> take (length p) s = p"

definition trim_prefix :: "string \<Rightarrow> string \<Rightarrow> string" where
  "trim_prefix s p = (if has_prefix s p then drop (length p) s else s)"

text \<open>The length of the sequence of \<open>ps\<close> the string starts with, 0 when there is none.\<close>

definition lead_len :: "string list \<Rightarrow> string \<Rightarrow> nat" where
  "lead_len ps s = (case find (has_prefix s) ps of None \<Rightarrow> 0 | Some p \<Rightarrow> length p)"

lemma lead_len_le: "lead_len ps s \<le> length s"
proof (cases "find (has_prefix s) ps")
  case (Some p)
  then have "take (length p) s = p"
    by (auto simp: find_Some_iff has_prefix_def)
  then have "length p \<le> length s"
    by (metis length_take min.bounded_iff min.cobounded1)
  with Some show ?thesis by (simp add: lead_len_def)
qed (simp add: lead_len_def)

function trim_by :: "string list \<Rightarrow> string \<Rightarrow> string" where
  "trim_by ps s = (if lead_len ps s = 0 then s else trim_by ps (drop (lead_len ps s) s))"
  by pat_completeness auto
termination
proof (relation "measure (\<lambda>(ps, s). length s)")
  fix ps s
  assume "lead_len ps s \<noteq> 0"
  with lead_len_le [of ps s] show "((ps, drop (lead_len ps s) s), ps, s) \<in> measure (\<lambda>(ps, s). length s)"
    by simp
qed simp

declare trim_by.simps [simp del]

definition trim_left :: "string \<Rightarrow> string" where
  "trim_left s = trim_by space_seqs s"

definition trim_right :: "string \<Rightarrow> string" where
  "trim_right s = rev (trim_by (map rev space_seqs) (rev s))"

definition trim_space :: "string \<Rightarrow> string" where
  "trim_space s = trim_right (trim_left s)"

abbreviation blank :: "string \<Rightarrow> bool" where
  "blank s \<equiv> trim_space s = []"

lemma lead_len_trim_by [simp]: "lead_len ps (trim_by ps s) = 0"
proof (induction ps s rule: trim_by.induct)
  case (1 ps s)
  then show ?case by (cases "lead_len ps s = 0") (simp_all add: trim_by.simps [of ps s])
qed

lemma trim_by_id [simp]: "lead_len ps s = 0 \<Longrightarrow> trim_by ps s = s"
  by (simp add: trim_by.simps)

lemma trim_by_suffix: "\<exists>k. trim_by ps s = drop k s"
proof (induction ps s rule: trim_by.induct)
  case (1 ps s)
  show ?case
  proof (cases "lead_len ps s = 0")
    case True
    then show ?thesis by (metis drop_0 trim_by_id)
  next
    case False
    with "1" obtain k where "trim_by ps (drop (lead_len ps s) s) = drop k (drop (lead_len ps s) s)"
      by blast
    with False show ?thesis by (auto simp: trim_by.simps [of ps s])
  qed
qed

lemma has_prefix_take: "has_prefix (take k s) p \<Longrightarrow> has_prefix s p"
  unfolding has_prefix_def
  by (metis length_take min.absorb_iff1 min.commute min.left_idem take_take)

lemma lead_len_0: "[] \<notin> set ps \<Longrightarrow> lead_len ps s = 0 \<longleftrightarrow> (\<forall>p \<in> set ps. \<not> has_prefix s p)"
  by (auto simp: lead_len_def find_None_iff find_Some_iff split: option.splits) (metis nth_mem)+

lemma lead_len_take:
  assumes "[] \<notin> set ps" and "lead_len ps s = 0"
  shows "lead_len ps (take k s) = 0"
proof -
  have "\<not> has_prefix (take k s) p" if "p \<in> set ps" for p
    using that assms has_prefix_take [of k s p] by (auto simp: lead_len_0)
  then show ?thesis using assms(1) by (simp add: lead_len_0)
qed

lemma nil_not_space: "[] \<notin> set space_seqs" "[] \<notin> set (map rev space_seqs)"
  by (auto simp: space_seqs_def)

lemma trim_space_idem [simp, gostr]: "trim_space (trim_space s) = trim_space s"
proof -
  let ?l = "trim_left s"
  obtain k where "trim_by (map rev space_seqs) (rev ?l) = drop k (rev ?l)"
    using trim_by_suffix by blast
  then have t: "trim_right ?l = take (length ?l - k) ?l"
    by (simp add: trim_right_def rev_drop)
  have "lead_len space_seqs ?l = 0"
    by (simp add: trim_left_def)
  then have "lead_len space_seqs (trim_right ?l) = 0"
    using t by (simp add: lead_len_take nil_not_space)
  then have "trim_left (trim_right ?l) = trim_right ?l"
    by (simp add: trim_left_def)
  then show ?thesis
    by (simp add: trim_space_def trim_right_def)
qed

lemma trim_by_keeps:
  assumes "\<forall>p \<in> set ps. c \<notin> set p" "c \<in> set s"
  shows "c \<in> set (trim_by ps s)"
  using assms
proof (induction ps s rule: trim_by.induct)
  case (1 ps s)
  show ?case
  proof (cases "lead_len ps s = 0")
    case False
    then obtain p where p: "p \<in> set ps" "has_prefix s p" "lead_len ps s = length p"
      by (auto simp: lead_len_def find_Some_iff split: option.splits) (metis nth_mem)
    then have "s = p @ drop (length p) s" by (metis append_take_drop_id has_prefix_def)
    then have "c \<in> set (drop (lead_len ps s) s)" using "1.prems" p by (metis UnE set_append)
    with "1.IH" [OF False "1.prems"(1)] False show ?thesis by (simp add: trim_by.simps [of ps s])
  qed (use "1.prems" in simp)
qed

text \<open>A character that is part of no space survives trimming.\<close>

lemma trim_space_keeps: "\<forall>p \<in> set space_seqs. c \<notin> set p \<Longrightarrow> c \<in> set s \<Longrightarrow> c \<in> set (trim_space s)"
  unfolding trim_space_def trim_right_def trim_left_def
  by (simp add: trim_by_keeps)

lemma trim_space_Nil [simp]: "trim_space [] = []"
  by code_simp

text \<open>
  Case conversion. ASCII letters are mapped; of the other code points only those whose image
  is an ASCII letter are mapped (U+212A and U+0130 by \<open>strings.ToLower\<close>, U+0131 and U+017F by
  \<open>strings.ToUpper\<close>, U+212A and U+017F by \<open>strings.EqualFold\<close>), so a comparison with an ASCII
  literal, the only use the program makes of the result, is exact.
\<close>

definition char_in :: "char \<Rightarrow> char \<Rightarrow> char \<Rightarrow> bool" where
  "char_in lo hi c \<longleftrightarrow> lo \<le> c \<and> c \<le> hi"

definition lower_char :: "char \<Rightarrow> char" where
  "lower_char c = (if char_in CHR ''A'' CHR ''Z'' c then char_of (of_char c + 32 :: nat) else c)"

definition upper_char :: "char \<Rightarrow> char" where
  "upper_char c = (if char_in CHR ''a'' CHR ''z'' c then char_of (of_char c - 32 :: nat) else c)"

function map_runes :: "(string \<times> char) list \<Rightarrow> (char \<Rightarrow> char) \<Rightarrow> string \<Rightarrow> string" where
  "map_runes t f [] = []"
| "map_runes t f (c # s) =
    (case find (\<lambda>(p, _). p \<noteq> [] \<and> has_prefix (c # s) p) t of
       Some (p, d) \<Rightarrow> d # map_runes t f (drop (length p - 1) s)
     | None \<Rightarrow> f c # map_runes t f s)"
  by pat_completeness auto
termination by (relation "measure (\<lambda>(t, f, s). length s)") auto

definition to_lower :: "string \<Rightarrow> string" where
  "to_lower s = map_runes
    [([CHR 0xE2, CHR 0x84, CHR 0xAA], CHR ''k''), ([CHR 0xC4, CHR 0xB0], CHR ''i'')] lower_char s"

definition to_upper :: "string \<Rightarrow> string" where
  "to_upper s = map_runes
    [([CHR 0xC4, CHR 0xB1], CHR ''I''), ([CHR 0xC5, CHR 0xBF], CHR ''S'')] upper_char s"

definition fold_case :: "string \<Rightarrow> string" where
  "fold_case s = map_runes
    [([CHR 0xE2, CHR 0x84, CHR 0xAA], CHR ''k''), ([CHR 0xC5, CHR 0xBF], CHR ''s'')] lower_char s"

definition equal_fold :: "string \<Rightarrow> string \<Rightarrow> bool" where
  "equal_fold s t \<longleftrightarrow> fold_case s = fold_case t"

definition norm_word :: "string \<Rightarrow> string" where
  "norm_word s = to_lower (trim_space s)"

text \<open>\<open>strings.Contains\<close>, \<open>strings.Split\<close> at one byte, \<open>strings.Join\<close>, \<open>strings.ReplaceAll\<close>.\<close>

fun contains :: "string \<Rightarrow> string \<Rightarrow> bool" where
  "contains [] t = (t = [])"
| "contains (c # s) t = (has_prefix (c # s) t \<or> contains s t)"

fun split_char :: "char \<Rightarrow> string \<Rightarrow> string list" where
  "split_char c [] = [[]]"
| "split_char c (x # xs) =
    (if x = c then [] # split_char c xs
     else case split_char c xs of [] \<Rightarrow> [[x]] | y # ys \<Rightarrow> (x # y) # ys)"

fun join :: "string \<Rightarrow> string list \<Rightarrow> string" where
  "join sep [] = []"
| "join sep [x] = x"
| "join sep (x # xs) = x @ sep @ join sep xs"

fun replace_from :: "nat \<Rightarrow> string \<Rightarrow> string \<Rightarrow> string \<Rightarrow> string" where
  "replace_from k old new [] = []"
| "replace_from (Suc k) old new (c # s) = replace_from k old new s"
| "replace_from 0 old new (c # s) =
    (if has_prefix (c # s) old then new @ replace_from (length old - 1) old new s
     else c # replace_from 0 old new s)"

text \<open>For a non-empty \<open>old\<close>, as everywhere in the program.\<close>

definition replace_all :: "string \<Rightarrow> string \<Rightarrow> string \<Rightarrow> string" where
  "replace_all s old new = replace_from 0 old new s"

lemma split_char_not_Nil [simp]: "split_char c s \<noteq> []"
  by (induction s) (auto split: list.splits)

text \<open>Splitting and joining at the same byte are inverse.\<close>

lemma join_Cons: "xs \<noteq> [] \<Longrightarrow> join sep (x # xs) = x @ sep @ join sep xs"
  by (cases xs) auto

lemma join_split_char [simp]: "join [c] (split_char c s) = s"
proof (induction s)
  case (Cons x s)
  show ?case
  proof (cases "split_char c s")
    case (Cons y ys)
    then show ?thesis using Cons.IH by (cases ys) (auto simp: join_Cons)
  qed simp
qed simp

section \<open>Go integers\<close>

text \<open>
  \<open>int\<close> is 64 bits wide; \<open>wrap64\<close> reduces a mathematical integer to the value the machine
  keeps. \<open>itoa\<close> is the decimal notation of \<open>%d\<close>.
\<close>

definition wrap64 :: "int \<Rightarrow> int" where
  "wrap64 x = (x + 2 ^ 63) mod 2 ^ 64 - 2 ^ 63"

abbreviation max_int64 :: int where
  "max_int64 \<equiv> 2 ^ 63 - 1"

lemma wrap64_id: "- (2 ^ 63) \<le> x \<Longrightarrow> x < 2 ^ 63 \<Longrightarrow> wrap64 x = x"
  by (simp add: wrap64_def)

lemma wrap64_bounds: "- (2 ^ 63) \<le> wrap64 x \<and> wrap64 x < 2 ^ 63"
  by (simp add: wrap64_def)

definition digit_char :: "int \<Rightarrow> char" where
  "digit_char n = ''0123456789'' ! nat n"

function digits :: "int \<Rightarrow> string" where
  "digits n = (if n < 10 then [digit_char n] else digits (n div 10) @ [digit_char (n mod 10)])"
  by pat_completeness auto
termination by (relation "measure nat") auto

declare digits.simps [simp del]

definition itoa :: "int \<Rightarrow> string" where
  "itoa i = (if i < 0 then CHR ''-'' # digits (- i) else digits i)"

end
