(* ===== verification/Flow_Model.thy ===== *)
theory Flow_Model
  imports Complex_Main Prelude
begin

text \<open>
  Flow Spec v1 (\<open>src/internal/core/flow/model.go\<close>): the declarative definition of a workflow.
  Structs are records, pointers are options, slices are lists. A Go map that is part of a
  definition is an association list in the order a \<open>range\<close> over it yields; its keys are
  distinct. A decoded JSON number is the rational number its float64 denotes.

  \<open>JMaps\<close> is a Go value of type \<open>[]map[string]any\<close>, which the engine builds for a streaming
  function node: it is encoded as an array of objects, but no type switch takes it for a
  \<open>[]any\<close>. \<open>JNumber\<close> is a \<open>json.Number\<close>, which a decoder with \<open>UseNumber\<close> yields for the response of
  a service; its literal is taken in the spelling \<open>fmt\<close> prints the value in. A \<open>json.RawMessage\<close> is represented by what the code can observe of it: that it is empty,
  that it is blank, that it is not JSON, or the value it decodes to.

  An error is the value the code builds: \<open>Errorf\<close> with the format string and the arguments
  of \<open>fmt.Errorf\<close>, \<open>Wrapf\<close> when the format wraps another error with \<open>%w\<close>, or a \<open>ValidationError\<close> with its path and the text of its message;
  \<open>Panic\<close> is a failed type assertion.
\<close>

section \<open>JSON values and errors\<close>

datatype json =
    JNull
  | JBool bool
  | JNum rat
  | JStr string
  | JArr "json list"
  | JObj "(string \<times> json) list"
  | JMaps "json list"
  | JNumber rat

datatype raw_message = RawEmpty | RawBlank | RawBad | RawJSON json

datatype go_error =
    Errorf string "string list"
  | Wrapf string "string list" go_error
  | ValidationError string go_error
  | Panic

abbreviation verr :: "string \<Rightarrow> string \<Rightarrow> string list \<Rightarrow> go_error" where
  "verr path fmt args \<equiv> ValidationError path (Errorf fmt args)"

fun jobj_keys_distinct :: "json \<Rightarrow> bool" where
  "jobj_keys_distinct (JObj kvs) = (distinct (map fst kvs) \<and> (\<forall>(k, v) \<in> set kvs. jobj_keys_distinct v))"
| "jobj_keys_distinct (JArr vs) = (\<forall>v \<in> set vs. jobj_keys_distinct v)"
| "jobj_keys_distinct (JMaps vs) = (\<forall>v \<in> set vs. jobj_keys_distinct v)"
| "jobj_keys_distinct _ = True"

section \<open>The definition\<close>

record network_policy =
  np_Policy :: string
  np_AllowedDomains :: "string list"
  np_BlockedDomains :: "string list"
  np_AllowPrivateHosts :: bool
  np_TimeoutSeconds :: int
  np_MaxResponseChars :: int

record session_trigger =
  st_EventType :: string
  st_EntryNode :: string
  st_Delivery :: string
  st_LaneID :: string

record session_lane =
  sl_ID :: string
  sl_Cadence :: string
  sl_IntervalMS :: int
  sl_DeadlineMS :: int
  sl_Class :: string
  sl_OverloadPolicy :: string

record session_workflow_spec =
  sw_Triggers :: "session_trigger list"
  sw_Lanes :: "session_lane list"

record on_complete_spec =
  oc_URL :: string
  oc_Secret :: string

record var_def =
  v_Name :: string
  v_Type :: string
  v_Desc :: string
  v_Required :: bool
  v_Source :: string
  v_Schema :: raw_message

record canvas_pos =
  cv_X :: rat
  cv_Y :: rat

record retry_policy =
  rp_MaxAttempts :: int
  rp_InitialIntervalMS :: int
  rp_BackoffCoefficient :: rat
  rp_MaxIntervalMS :: int
  rp_Jitter :: rat
  rp_RetryOn :: "string list"
  rp_NonRetryable :: "string list"

record flow_choice =
  ch_ID :: string
  ch_Label :: string

record decision_spec =
  d_Provider :: string
  d_DecisionType :: string
  d_Choices :: "flow_choice list"
  d_TimeoutMS :: int
  d_OnError :: string
  d_DefaultChoice :: string

record human_spec =
  h_Queue :: string
  h_AssigneePolicy :: string
  h_Form :: json
  h_Prompt :: string
  h_TimeoutMS :: int
  h_OnTimeout :: string
  h_ResultVar :: string

record num_compare =
  nc_Op :: string
  nc_Value :: rat

record field_compare =
  fc_Path :: string
  fc_Op :: string
  fc_Value :: json

datatype condition =
  Cond (c_Status: string) (c_Verdict: string) (c_Node: string) (c_Choice: string)
    (c_Confidence: "num_compare option") (c_Output: "field_compare option")
    (c_Not: "condition option") (c_All: "condition list") (c_Any: "condition list")

record branch_case =
  bc_Name :: string
  bc_To :: string
  bc_Condition :: condition

record branch_spec =
  b_Cases :: "branch_case list"
  b_DefaultTo :: string

record loop_spec =
  l_Body :: "string list"
  l_ExitWhen :: condition
  l_MaxIterations :: int
  l_IterationKey :: string

record function_spec =
  f_Runtime :: string
  f_Source :: string
  f_Ref :: string
  f_Handler :: string
  f_InputSchema :: raw_message
  f_OutputSchema :: raw_message

record service_auth_spec =
  sa_Type :: string
  sa_TokenEnv :: string
  sa_HeaderName :: string

record service_spec =
  s_Method :: string
  s_URL :: string
  s_Headers :: "(string \<times> string) list"
  s_Body :: raw_message
  s_Auth :: "service_auth_spec option"

record flow_node =
  n_ID :: string
  n_Kind :: string
  n_Title :: string
  n_Prompt :: string
  n_AgentType :: string
  n_CanvasPos :: "canvas_pos option"
  n_AgentRef :: string
  n_WriteScope :: "string list"
  n_Retry :: "retry_policy option"
  n_Decision :: "decision_spec option"
  n_Human :: "human_spec option"
  n_Branch :: "branch_spec option"
  n_Loop :: "loop_spec option"
  n_Function :: "function_spec option"
  n_Service :: "service_spec option"
  n_TimeoutSec :: int
  n_PreScript :: string
  n_PostScript :: string
  n_Outputs :: "var_def list"

record flow_edge =
  e_ID :: string
  e_From :: string
  e_To :: string
  e_EdgeType :: string
  e_When :: "condition option"
  e_MaxIterations :: int
  e_IterationKey :: string

record flow_definition =
  fd_FlowID :: string
  fd_Name :: string
  fd_Description :: string
  fd_Version :: string
  fd_Status :: string
  fd_ExecutionMode :: string
  fd_SessionWorkflow :: "session_workflow_spec option"
  fd_TemplateID :: string
  fd_Inputs :: "var_def list"
  fd_Outputs :: "var_def list"
  fd_TimeoutSec :: int
  fd_Nodes :: "flow_node list"
  fd_Edges :: "flow_edge list"
  fd_Network :: "network_policy option"
  fd_Retry :: "retry_policy option"
  fd_OnComplete :: "on_complete_spec option"

section \<open>Normal forms\<close>

definition EffectiveExecutionMode :: "string \<Rightarrow> string" where
  "EffectiveExecutionMode mode = (if norm_word mode = ''session'' then ''session'' else ''request'')"

definition EffectiveSessionDelivery :: "string \<Rightarrow> string" where
  "EffectiveSessionDelivery delivery =
    (if equal_fold (trim_space delivery) ''latest_wins'' then ''latest_wins'' else ''durable'')"

fun ConditionEmpty :: "condition \<Rightarrow> bool" where
  "ConditionEmpty (Cond status verdict node choice confidence output neg alls anys) =
    (status = [] \<and> verdict = [] \<and> node = [] \<and> choice = [] \<and> confidence = None \<and> output = None \<and>
     neg = None \<and> length alls = 0 \<and> length anys = 0)"

definition node_kinds :: "string list" where
  "node_kinds = [''step'', ''llm'', ''decision'', ''human'', ''branch'', ''loop'', ''function'', ''service'']"

definition normalizeKind :: "string \<Rightarrow> string" where
  "normalizeKind kind = (if norm_word kind \<in> set node_kinds then norm_word kind else [])"

definition normalizeEdgeType :: "string \<Rightarrow> string" where
  "normalizeEdgeType t =
    (if norm_word t = [] \<or> norm_word t = ''data_dependency'' then ''data_dependency''
     else if norm_word t = ''handoff'' \<or> norm_word t = ''condition'' then norm_word t
     else t)"

text \<open>Normalising twice changes nothing, and a normalised edge type is a known one or the input.\<close>

lemma norm_word_known: "w \<in> set node_kinds \<Longrightarrow> norm_word w = w"
  by (simp add: node_kinds_def) (elim disjE; simp; code_simp)

lemma normalizeKind_idem [simp]: "normalizeKind (normalizeKind k) = normalizeKind k"
proof (cases "norm_word k \<in> set node_kinds")
  case True
  then show ?thesis by (simp add: normalizeKind_def norm_word_known)
next
  case False
  have "norm_word [] \<notin> set node_kinds" by code_simp
  with False show ?thesis by (simp add: normalizeKind_def)
qed

lemma normalizeKind_cases: "normalizeKind k = [] \<or> normalizeKind k \<in> set node_kinds"
  by (simp add: normalizeKind_def)

end
