(* ===== verification/Flow_Schema.thy ===== *)
theory Flow_Schema
  imports Flow_Model
begin

text \<open>
  The JSON-Schema subset of flow variables and function contracts
  (\<open>src/internal/core/flow/contracts.go\<close>): checking a schema, checking a value against a
  schema, and the variable declarations built on both. \<open>conforms\<close> is the declarative meaning
  of a schema; the two checkers together decide it, without a panic and without ever meeting
  the depth limit when a value is checked.
\<close>

section \<open>Types and equality of values\<close>

definition maxJSONSchemaNestingDepth :: nat where
  "maxJSONSchemaNestingDepth = 32"

fun numericValue :: "json \<Rightarrow> rat option" where
  "numericValue (JNum n) = Some n"
| "numericValue (JNumber n) = Some n"
| "numericValue _ = None"

definition valueHasJSONType :: "json \<Rightarrow> string \<Rightarrow> bool" where
  "valueHasJSONType value typ =
    (if typ = ''any'' then True
     else if typ = ''null'' then value = JNull
     else if typ = ''string'' then (case value of JStr _ \<Rightarrow> True | _ \<Rightarrow> False)
     else if typ = ''boolean'' then (case value of JBool _ \<Rightarrow> True | _ \<Rightarrow> False)
     else if typ = ''number'' then numericValue value \<noteq> None
     else if typ = ''integer'' then
       (case numericValue value of None \<Rightarrow> False | Some n \<Rightarrow> of_int (floor n) = n)
     else if typ = ''object'' then (case value of JObj _ \<Rightarrow> True | _ \<Rightarrow> False)
     else if typ = ''array'' then (case value of JArr _ \<Rightarrow> True | _ \<Rightarrow> False)
     else False)"

fun jsonTypeName :: "json \<Rightarrow> string" where
  "jsonTypeName JNull = ''null''"
| "jsonTypeName (JStr _) = ''string''"
| "jsonTypeName (JBool _) = ''boolean''"
| "jsonTypeName (JObj _) = ''object''"
| "jsonTypeName (JArr _) = ''array''"
| "jsonTypeName (JNum _) = ''number''"
| "jsonTypeName (JNumber _) = ''number''"
| "jsonTypeName (JMaps _) = ''[]map[string]interface {}''"

definition supportedJSONType :: "string \<Rightarrow> bool" where
  "supportedJSONType typ \<longleftrightarrow> typ \<in> set [''object'', ''array'', ''string'', ''number'', ''integer'',
     ''boolean'', ''null'', ''any'']"

lemma map_of_size: "map_of kvs k = Some v \<Longrightarrow> size v < size (JObj kvs)"
  by (induction kvs) (auto split: if_splits)

text \<open>
  Two values are equal when they are the same JSON value: members of objects are compared
  by name, and numbers by value.
\<close>

function jsonValuesEqual :: "json \<Rightarrow> json \<Rightarrow> bool" where
  "jsonValuesEqual JNull y = (y = JNull)"
| "jsonValuesEqual (JBool b) y = (y = JBool b)"
| "jsonValuesEqual (JNum n) y = (y = JNum n \<or> y = JNumber n)"
| "jsonValuesEqual (JNumber n) y = (y = JNum n \<or> y = JNumber n)"
| "jsonValuesEqual (JStr s) y = (y = JStr s)"
| "jsonValuesEqual (JArr xs) y =
    (case y of JArr ys \<Rightarrow> length xs = length ys \<and> (\<forall>(u, v) \<in> set (zip xs ys). jsonValuesEqual u v)
     | _ \<Rightarrow> False)"
| "jsonValuesEqual (JMaps xs) y =
    (case y of JArr ys \<Rightarrow> length xs = length ys \<and> (\<forall>(u, v) \<in> set (zip xs ys). jsonValuesEqual u v)
     | _ \<Rightarrow> False)"
| "jsonValuesEqual (JObj xs) y =
    (case y of JObj ys \<Rightarrow> set (map fst ys) \<subseteq> set (map fst xs) \<and>
       (\<forall>(k, u) \<in> set xs. case map_of ys k of None \<Rightarrow> False | Some v \<Rightarrow> jsonValuesEqual u v)
     | _ \<Rightarrow> False)"
  by pat_completeness auto
termination
  by (relation "measure (size \<circ> fst)")
     (auto dest!: set_zip_leftD simp: less_Suc_eq_le intro: size_list_estimation' )


section \<open>Checking a schema\<close>

definition schema_keys :: "string list" where
  "schema_keys = [''type'', ''description'', ''properties'', ''required'', ''items'', ''enum'', ''additionalProperties'']"

definition check_schema_type :: "(string \<times> json) list \<Rightarrow> string \<Rightarrow> go_error option" where
  "check_schema_type schema path =
    (case map_of schema ''type'' of None \<Rightarrow> None
     | Some (JStr typeName) \<Rightarrow> check (\<not> supportedJSONType (to_lower typeName))
         (Errorf ''%s.type must be one of object, array, string, number, integer, boolean, null'' [path])
     | Some _ \<Rightarrow> Some (Errorf ''%s.type must be one of object, array, string, number, integer, boolean, null'' [path]))"

definition check_schema_required :: "(string \<times> json) list \<Rightarrow> string \<Rightarrow> go_error option" where
  "check_schema_required schema path =
    (case map_of schema ''required'' of None \<Rightarrow> None
     | Some (JArr items) \<Rightarrow> each_i 0 (\<lambda>i item.
         (case item of JStr _ \<Rightarrow> None
          | _ \<Rightarrow> Some (Errorf ''%s.required[%d] must be a string'' [path, itoa (int i)]))) items
     | Some _ \<Rightarrow> Some (Errorf ''%s.required must be an array of strings'' [path]))"

definition check_schema_enum :: "(string \<times> json) list \<Rightarrow> string \<Rightarrow> go_error option" where
  "check_schema_enum schema path =
    (case map_of schema ''enum'' of None \<Rightarrow> None | Some (JArr _) \<Rightarrow> None
     | Some _ \<Rightarrow> Some (Errorf ''%s.enum must be an array'' [path]))"

definition check_schema_keys :: "(string \<times> json) list \<Rightarrow> string \<Rightarrow> go_error option" where
  "check_schema_keys schema path =
    each (\<lambda>(key, _). check (key \<notin> set schema_keys)
      (Errorf ''%s.%s is not supported by the Flow schema validator'' [path, key])) schema"

function validateSchemaDefinitionAtDepth :: "(string \<times> json) list \<Rightarrow> string \<Rightarrow> nat \<Rightarrow> go_error option" where
  "validateSchemaDefinitionAtDepth schema path depth =
    (if depth > maxJSONSchemaNestingDepth
     then Some (Errorf ''%s exceeds the maximum schema nesting depth'' [path])
     else andthen (check_schema_type schema path)
      (andthen (check_schema_required schema path)
      (andthen
        (case map_of schema ''properties'' of None \<Rightarrow> None
         | Some (JObj props) \<Rightarrow> each (\<lambda>(name, child).
             (case child of
                JObj childSchema \<Rightarrow>
                  validateSchemaDefinitionAtDepth childSchema (path @ ''.properties.'' @ name) (Suc depth)
              | _ \<Rightarrow> Some (Errorf ''%s.properties.%s must be an object'' [path, name]))) props
         | Some _ \<Rightarrow> Some (Errorf ''%s.properties must be an object'' [path]))
      (andthen
        (case map_of schema ''items'' of None \<Rightarrow> None
         | Some (JObj itemSchema) \<Rightarrow>
             validateSchemaDefinitionAtDepth itemSchema (path @ ''.items'') (Suc depth)
         | Some _ \<Rightarrow> Some (Errorf ''%s.items must be an object'' [path]))
      (andthen
        (case map_of schema ''additionalProperties'' of None \<Rightarrow> None
         | Some (JBool _) \<Rightarrow> None
         | Some (JObj child) \<Rightarrow>
             validateSchemaDefinitionAtDepth child (path @ ''.additionalProperties'') (Suc depth)
         | Some _ \<Rightarrow>
             Some (Errorf ''%s.additionalProperties must be a boolean or schema object'' [path]))
      (andthen (check_schema_enum schema path)
        (check_schema_keys schema path)))))))"
  by pat_completeness auto

lemma in_props_size: "(k, v) \<in> set kvs \<Longrightarrow> size v < size (JObj kvs)"
  by (induction kvs) auto

termination validateSchemaDefinitionAtDepth
proof (relation "measure (\<lambda>(schema, _). size (JObj schema))", goal_cases)
  case (2 schema path depth v props p name child childSchema)
  then have "size (JObj childSchema) < size (JObj props)" "size (JObj props) < size (JObj schema)"
    using in_props_size [of name child props] map_of_size [of schema "''properties''" v] by auto
  then show ?case by simp
qed (auto dest!: map_of_size)

definition validateSchemaDefinition :: "(string \<times> json) list \<Rightarrow> string \<Rightarrow> go_error option" where
  "validateSchemaDefinition schema path = validateSchemaDefinitionAtDepth schema path 0"

definition decodeSchemaDefinition ::
  "raw_message \<Rightarrow> string \<Rightarrow> go_error + (string \<times> json) list option" where
  "decodeSchemaDefinition raw path =
    (case raw of
       RawEmpty \<Rightarrow> Inr None
     | RawBlank \<Rightarrow> Inr None
     | RawJSON JNull \<Rightarrow> Inr None
     | RawJSON (JObj decoded) \<Rightarrow>
         (case validateSchemaDefinition decoded path of
            Some e \<Rightarrow> Inl e | None \<Rightarrow> Inr (Some decoded))
     | _ \<Rightarrow> Inl (Errorf ''%s schema is invalid JSON: %w'' [path]))"

section \<open>Checking a value\<close>

definition schema_props :: "(string \<times> json) list \<Rightarrow> (string \<times> json) list" where
  "schema_props schema = (case map_of schema ''properties'' of Some (JObj props) \<Rightarrow> props | _ \<Rightarrow> [])"

definition check_value_type :: "json \<Rightarrow> (string \<times> json) list \<Rightarrow> string \<Rightarrow> go_error option" where
  "check_value_type value schema path =
    (case map_of schema ''type'' of
       Some (JStr typ) \<Rightarrow> check (\<not> valueHasJSONType value (to_lower typ))
         (Errorf ''%s must be %s, got %s'' [path, typ, jsonTypeName value])
     | _ \<Rightarrow> None)"

definition check_value_enum :: "json \<Rightarrow> (string \<times> json) list \<Rightarrow> string \<Rightarrow> go_error option" where
  "check_value_enum value schema path =
    (case map_of schema ''enum'' of
       Some (JArr enum) \<Rightarrow> check (\<not> list_ex (jsonValuesEqual value) enum)
         (Errorf ''%s must match one of the declared enum values'' [path])
     | _ \<Rightarrow> None)"

definition check_value_required :: "(string \<times> json) list \<Rightarrow> (string \<times> json) list \<Rightarrow> string \<Rightarrow> go_error option" where
  "check_value_required current schema path =
    (case map_of schema ''required'' of
       Some (JArr required) \<Rightarrow> each (\<lambda>item.
         (case item of
            JStr name \<Rightarrow> check (map_of current name = None) (Errorf ''%s.%s is required'' [path, name])
          | _ \<Rightarrow> Some Panic)) required
     | _ \<Rightarrow> None)"

text \<open>The schema that applies to a member of an object; an undeclared member may be open or closed.\<close>

datatype member_rule = OpenMember | ClosedMember | Schema "(string \<times> json) list" | NotASchema

definition member_rule :: "(string \<times> json) list \<Rightarrow> string \<Rightarrow> member_rule" where
  "member_rule schema name =
    (case map_of (schema_props schema) name of
       None \<Rightarrow>
         (case map_of schema ''additionalProperties'' of
            Some (JBool additional) \<Rightarrow> if additional then OpenMember else ClosedMember
          | Some (JObj additional) \<Rightarrow> Schema additional
          | _ \<Rightarrow> OpenMember)
     | Some (JObj childSchema) \<Rightarrow> Schema childSchema
     | Some _ \<Rightarrow> NotASchema)"

function validateSchemaValue :: "json \<Rightarrow> (string \<times> json) list \<Rightarrow> string \<Rightarrow> nat \<Rightarrow> go_error option" where
  "validateSchemaValue value schema path depth =
    (if depth > maxJSONSchemaNestingDepth
     then Some (Errorf ''%s exceeds the maximum schema nesting depth'' [path])
     else andthen (check_value_type value schema path)
      (andthen (check_value_enum value schema path)
        (case value of
           JObj current \<Rightarrow>
             andthen (check_value_required current schema path)
             (each (\<lambda>(name, child).
               (case member_rule schema name of
                  OpenMember \<Rightarrow> None
                | ClosedMember \<Rightarrow> Some (Errorf ''%s.%s is not allowed'' [path, name])
                | Schema childSchema \<Rightarrow>
                    validateSchemaValue child childSchema (path @ ''.'' @ name) (Suc depth)
                | NotASchema \<Rightarrow> Some Panic)) current)
         | JArr current \<Rightarrow>
             (case map_of schema ''items'' of
                Some (JObj itemSchema) \<Rightarrow> each_i 0 (\<lambda>i item.
                  validateSchemaValue item itemSchema (path @ ''['' @ itoa (int i) @ '']'') (Suc depth)) current
              | _ \<Rightarrow> None)
         | _ \<Rightarrow> None)))"
  by pat_completeness auto
termination
  by (relation "measure (\<lambda>(value, _). size value)")
     (auto dest!: in_props_size intro: le_imp_less_Suc size_list_estimation')

declare validateSchemaDefinitionAtDepth.simps [simp del] validateSchemaValue.simps [simp del]

definition ValidateJSONSchemaValue :: "json \<Rightarrow> raw_message \<Rightarrow> string \<Rightarrow> go_error option" where
  "ValidateJSONSchemaValue value schema path =
    (case decodeSchemaDefinition schema (path @ ''.schema'') of
       Inl e \<Rightarrow> Some e
     | Inr None \<Rightarrow> None
     | Inr (Some decoded) \<Rightarrow> validateSchemaValue value decoded path 0)"


definition validateVariableValue :: "var_def \<Rightarrow> json \<Rightarrow> string \<Rightarrow> go_error option" where
  "validateVariableValue def value path =
    (let typ = norm_word (v_Type def)
     in andthen (check (typ \<noteq> [] \<and> typ \<noteq> ''any'' \<and> \<not> valueHasJSONType value typ)
          (Errorf ''%s must be %s, got %s'' [path, typ, jsonTypeName value]))
        (ValidateJSONSchemaValue value (v_Schema def) path))"

definition declared_names :: "var_def list \<Rightarrow> string list" where
  "declared_names defs = filter (\<lambda>n. n \<noteq> []) (map (\<lambda>v. trim_space (v_Name v)) defs)"

definition ValidateVariableValues ::
  "var_def list \<Rightarrow> (string \<times> json) list \<Rightarrow> string \<Rightarrow> bool \<Rightarrow> go_error option" where
  "ValidateVariableValues defs values path rejectUnknown =
    andthen
      (if rejectUnknown
       then each (\<lambda>(name, _). check (name \<notin> set (declared_names defs))
              (Errorf ''%s.%s is not declared'' [path, name])) values
       else None)
      (each (\<lambda>def. let name = trim_space (v_Name def)
         in case map_of values name of
              None \<Rightarrow> check (v_Required def) (Errorf ''%s.%s is required'' [path, name])
            | Some value \<Rightarrow> validateVariableValue def value (path @ ''.'' @ name)) defs)"

definition ValidateInputValues :: "flow_definition option \<Rightarrow> (string \<times> json) list \<Rightarrow> go_error option" where
  "ValidateInputValues def values =
    (case def of None \<Rightarrow> None
     | Some d \<Rightarrow> if length (fd_Inputs d) = 0 then None
                else ValidateVariableValues (fd_Inputs d) values ''inputs'' True)"

section \<open>Output sources\<close>

text \<open>
  The pattern of an output source is anchored and its two groups hold no dot, so a match is a
  split at the dots into four parts.
\<close>

definition ident_start :: "char \<Rightarrow> bool" where
  "ident_start c \<longleftrightarrow> c = CHR ''_'' \<or> char_in CHR ''a'' CHR ''z'' c \<or> char_in CHR ''A'' CHR ''Z'' c"

definition is_digit :: "char \<Rightarrow> bool" where
  "is_digit c \<longleftrightarrow> char_in CHR ''0'' CHR ''9'' c"

definition source_ident :: "string \<Rightarrow> bool" where
  "source_ident s \<longleftrightarrow> s \<noteq> [] \<and> ident_start (hd s) \<and>
    (\<forall>c \<in> set (tl s). ident_start c \<or> is_digit c \<or> c = CHR ''-'')"

definition ParseOutputSource :: "string \<Rightarrow> (string \<times> string) option" where
  "ParseOutputSource source =
    (case split_char CHR ''.'' (trim_space source) of
       [a, nodeID, b, field] \<Rightarrow>
         if a = ''nodes'' \<and> b = ''outputs'' \<and> source_ident nodeID \<and> source_ident field
         then Some (nodeID, field) else None
     | _ \<Rightarrow> None)"

lemma source_ident_no_dot: "source_ident s \<Longrightarrow> CHR ''.'' \<notin> set s"
proof
  assume "source_ident s" "CHR ''.'' \<in> set s"
  then have "ident_start CHR ''.'' \<or> is_digit CHR ''.'' \<or> CHR ''.'' = CHR ''-''"
    by (cases s) (auto simp: source_ident_def)
  then show False by (simp add: ident_start_def is_digit_def char_in_def less_eq_char_def)
qed

lemma split_char_append: "c \<notin> set a \<Longrightarrow> split_char c (a @ c # b) = a # split_char c b"
  by (induction a) auto

lemma split_char_whole: "c \<notin> set a \<Longrightarrow> split_char c a = [a]"
  by (induction a) auto

section \<open>What the checkers decide\<close>

text \<open>The meaning of a schema, with neither paths nor depths.\<close>

function conforms :: "json \<Rightarrow> (string \<times> json) list \<Rightarrow> bool" where
  "conforms value schema \<longleftrightarrow>
    (\<forall>typ. map_of schema ''type'' = Some (JStr typ) \<longrightarrow> valueHasJSONType value (to_lower typ)) \<and>
    (\<forall>enum. map_of schema ''enum'' = Some (JArr enum) \<longrightarrow> (\<exists>c \<in> set enum. jsonValuesEqual value c)) \<and>
    (case value of
       JObj current \<Rightarrow>
         (\<forall>required name. map_of schema ''required'' = Some (JArr required) \<longrightarrow>
            JStr name \<in> set required \<longrightarrow> name \<in> fst ` set current) \<and>
         (\<forall>(name, child) \<in> set current.
            case member_rule schema name of
              ClosedMember \<Rightarrow> False
            | Schema childSchema \<Rightarrow> conforms child childSchema
            | _ \<Rightarrow> True)
     | JArr current \<Rightarrow>
         (\<forall>item \<in> set current.
            case map_of schema ''items'' of Some (JObj itemSchema) \<Rightarrow> conforms item itemSchema | _ \<Rightarrow> True)
     | _ \<Rightarrow> True)"
  by pat_completeness auto
termination
  by (relation "measure (\<lambda>(value, _). size value)")
     (auto dest!: in_props_size intro: le_imp_less_Suc size_list_estimation')

declare conforms.simps [simp del]

definition schema_ok :: "nat \<Rightarrow> (string \<times> json) list \<Rightarrow> bool" where
  "schema_ok depth schema \<longleftrightarrow> (\<exists>path. validateSchemaDefinitionAtDepth schema path depth = None)"

lemma schema_ok_depth: "schema_ok depth schema \<Longrightarrow> depth \<le> maxJSONSchemaNestingDepth"
  by (auto simp: schema_ok_def validateSchemaDefinitionAtDepth.simps split: if_splits)

lemma schema_ok_required:
  assumes "schema_ok depth schema" "map_of schema ''required'' = Some (JArr items)" "x \<in> set items"
  shows "\<exists>name. x = JStr name"
proof -
  from assms(1) obtain path where "check_schema_required schema path = None"
    by (auto simp: schema_ok_def validateSchemaDefinitionAtDepth.simps andthen_None split: if_splits)
  moreover obtain k where "k < length items" "items ! k = x"
    using assms(3) by (auto simp: in_set_conv_nth)
  ultimately have "(case x of JStr _ \<Rightarrow> None
      | _ \<Rightarrow> Some (Errorf ''%s.required[%d] must be a string'' [path, itoa (int k)])) = None"
    using assms(2) spec [of _ k] by (simp add: check_schema_required_def each_i_None) (metis add_0)
  then show ?thesis by (cases x) auto
qed

lemma schema_ok_property:
  assumes "schema_ok depth schema" "map_of (schema_props schema) name = Some child"
  shows "\<exists>cs. child = JObj cs \<and> schema_ok (Suc depth) cs"
proof -
  obtain props where props: "map_of schema ''properties'' = Some (JObj props)" "map_of props name = Some child"
    using assms(2) by (auto simp: schema_props_def split: option.splits json.splits)
  from assms(1) obtain path where "validateSchemaDefinitionAtDepth schema path depth = None"
    by (auto simp: schema_ok_def)
  with props(1) have "each (\<lambda>(name, child). (case child of
                JObj childSchema \<Rightarrow>
                  validateSchemaDefinitionAtDepth childSchema (path @ ''.properties.'' @ name) (Suc depth)
              | _ \<Rightarrow> Some (Errorf ''%s.properties.%s must be an object'' [path, name]))) props = None"
    by (simp add: validateSchemaDefinitionAtDepth.simps [of schema path depth] andthen_None
        split: if_splits del: append.simps)
  with map_of_SomeD [OF props(2)] have "(case child of
                JObj childSchema \<Rightarrow>
                  validateSchemaDefinitionAtDepth childSchema (path @ ''.properties.'' @ name) (Suc depth)
              | _ \<Rightarrow> Some (Errorf ''%s.properties.%s must be an object'' [path, name])) = None"
    unfolding each_None by (metis (mono_tags, lifting) case_prod_conv)
  then show ?thesis by (cases child) (auto simp: schema_ok_def)
qed

lemma schema_ok_items:
  assumes "schema_ok depth schema" "map_of schema ''items'' = Some (JObj cs)"
  shows "schema_ok (Suc depth) cs"
proof -
  from assms(1) obtain path where "validateSchemaDefinitionAtDepth schema path depth = None"
    by (auto simp: schema_ok_def)
  with assms(2) have "validateSchemaDefinitionAtDepth cs (path @ ''.items'') (Suc depth) = None"
    by (simp add: validateSchemaDefinitionAtDepth.simps [of schema path depth] andthen_None split: if_splits)
  then show ?thesis unfolding schema_ok_def by blast
qed

lemma schema_ok_additional:
  assumes "schema_ok depth schema" "map_of schema ''additionalProperties'' = Some (JObj cs)"
  shows "schema_ok (Suc depth) cs"
proof -
  from assms(1) obtain path where "validateSchemaDefinitionAtDepth schema path depth = None"
    by (auto simp: schema_ok_def)
  with assms(2) have "validateSchemaDefinitionAtDepth cs (path @ ''.additionalProperties'') (Suc depth) = None"
    by (simp add: validateSchemaDefinitionAtDepth.simps [of schema path depth] andthen_None split: if_splits)
  then show ?thesis unfolding schema_ok_def by blast
qed

lemma schema_ok_member:
  assumes "schema_ok depth schema"
  shows "member_rule schema name \<noteq> NotASchema"
    and "member_rule schema name = Schema cs \<Longrightarrow> schema_ok (Suc depth) cs"
  using schema_ok_property [OF assms, of name] schema_ok_additional [OF assms]
  by (auto simp: member_rule_def split: option.splits json.splits if_splits)

text \<open>The type and enumeration checks, and the required members of an object.\<close>

lemma check_value_type_None:
  "check_value_type value schema path = None \<longleftrightarrow>
    (\<forall>typ. map_of schema ''type'' = Some (JStr typ) \<longrightarrow> valueHasJSONType value (to_lower typ))"
  by (auto simp: check_value_type_def check_None split: option.splits json.splits)

lemma check_value_enum_None:
  "check_value_enum value schema path = None \<longleftrightarrow>
    (\<forall>enum. map_of schema ''enum'' = Some (JArr enum) \<longrightarrow> (\<exists>c \<in> set enum. jsonValuesEqual value c))"
  by (auto simp: check_value_enum_def check_None list_ex_iff split: option.splits json.splits)

lemma check_value_required_None:
  assumes "schema_ok depth schema"
  shows "check_value_required current schema path = None \<longleftrightarrow>
    (\<forall>required name. map_of schema ''required'' = Some (JArr required) \<longrightarrow>
       JStr name \<in> set required \<longrightarrow> name \<in> fst ` set current)"
proof (cases "\<exists>required. map_of schema ''required'' = Some (JArr required)")
  case True
  then obtain required where r: "map_of schema ''required'' = Some (JArr required)" by blast
  have "(case item of JStr name \<Rightarrow> check (map_of current name = None) (Errorf ''%s.%s is required'' [path, name])
          | _ \<Rightarrow> Some Panic) = None \<longleftrightarrow> (\<forall>name. item = JStr name \<longrightarrow> name \<in> fst ` set current)"
    if "item \<in> set required" for item
    using schema_ok_required [OF assms r that] by (auto simp: check_None map_of_eq_None_iff)
  then show ?thesis using r by (auto simp: check_value_required_def each_None)
qed (auto simp: check_value_required_def split: option.splits json.splits)

text \<open>
  The induction follows the value; the schema's own check has gone as deep as the value
  check goes, so the depth limit is not met and no type assertion fails.
\<close>

lemma validateSchemaValue_conforms:
  "schema_ok depth schema \<Longrightarrow>
   (validateSchemaValue v schema path depth = None \<longleftrightarrow> conforms v schema)"
proof (induction v schema path depth rule: validateSchemaValue.induct)
  case (1 v schema path depth)
  have deep: "\<not> maxJSONSchemaNestingDepth < depth" using schema_ok_depth [OF "1.prems"] by simp
  note IH = "1.IH" [OF deep]
  note unf = validateSchemaValue.simps [of v schema path depth] conforms.simps [of v schema]
  note chk = andthen_None check_value_type_None check_value_enum_None
  show ?case
  proof (cases v)
    case (JObj current)
    have "(case member_rule schema name of
                  OpenMember \<Rightarrow> None
                | ClosedMember \<Rightarrow> Some (Errorf ''%s.%s is not allowed'' [path, name])
                | Schema childSchema \<Rightarrow>
                    validateSchemaValue child childSchema (path @ ''.'' @ name) (Suc depth)
                | NotASchema \<Rightarrow> Some Panic) = None \<longleftrightarrow>
          (case member_rule schema name of
              ClosedMember \<Rightarrow> False
            | Schema childSchema \<Rightarrow> conforms child childSchema
            | _ \<Rightarrow> True)" if "(name, child) \<in> set current" for name child
      using IH(2) [OF JObj that refl] schema_ok_member [OF "1.prems", of name]
      by (cases "member_rule schema name") auto
    then show ?thesis unfolding unf
      by (auto simp: deep JObj chk check_value_required_None [OF "1.prems"] each_None simp del: append.simps)
  next
    case (JArr current)
    have "validateSchemaValue item cs (path @ ''['' @ itoa (int k) @ '']'') (Suc depth) = None \<longleftrightarrow> conforms item cs"
      if "item \<in> set current" "map_of schema ''items'' = Some (JObj cs)" for item cs k
      using IH(1) [OF JArr that(2) refl that(1) schema_ok_items [OF "1.prems" that(2)]] .
    then have "(case map_of schema ''items'' of
                Some (JObj itemSchema) \<Rightarrow> each_i 0 (\<lambda>i item.
                  validateSchemaValue item itemSchema (path @ ''['' @ itoa (int i) @ '']'') (Suc depth)) current
              | _ \<Rightarrow> None) = None \<longleftrightarrow>
         (\<forall>item \<in> set current.
            case map_of schema ''items'' of Some (JObj itemSchema) \<Rightarrow> conforms item itemSchema | _ \<Rightarrow> True)"
      by (cases "\<exists>cs. map_of schema ''items'' = Some (JObj cs)")
         (auto simp: each_i_None all_set_conv_all_nth simp del: append.simps split: option.splits json.splits)
    then show ?thesis unfolding unf using deep JArr
      by (simp add: chk del: append.simps conforms.simps validateSchemaValue.simps jsonValuesEqual.simps)
  qed (use deep in \<open>simp_all add: chk validateSchemaValue.simps [of _ schema path depth] conforms.simps [of _ schema]\<close>)
qed


lemma check_not_panic: "check b (Errorf f as) \<noteq> Some Panic"
  by (simp add: check_def)

lemma each_not_panic: "(\<And>x. x \<in> set xs \<Longrightarrow> f x \<noteq> Some Panic) \<Longrightarrow> each f xs \<noteq> Some Panic"
  using each_Some [of f xs Panic] by blast

lemma each_i_not_panic: "(\<And>i x. x \<in> set xs \<Longrightarrow> f i x \<noteq> Some Panic) \<Longrightarrow> each_i k f xs \<noteq> Some Panic"
  by (induction xs arbitrary: k) (auto simp: andthen_Some)

lemma validateSchemaValue_no_panic:
  "schema_ok depth schema \<Longrightarrow> validateSchemaValue v schema path depth \<noteq> Some Panic"
proof (induction v schema path depth rule: validateSchemaValue.induct)
  case (1 v schema path depth)
  have deep: "\<not> maxJSONSchemaNestingDepth < depth" using schema_ok_depth [OF "1.prems"] by simp
  note IH = "1.IH" [OF deep]
  have t: "check_value_type v schema path \<noteq> Some Panic" "check_value_enum v schema path \<noteq> Some Panic"
    by (auto simp: check_value_type_def check_value_enum_def check_not_panic split: option.splits json.splits)
  have r: "check_value_required current schema path \<noteq> Some Panic" for current
  proof (cases "\<exists>required. map_of schema ''required'' = Some (JArr required)")
    case True
    then obtain required where r: "map_of schema ''required'' = Some (JArr required)" by blast
    have "(case item of
            JStr name \<Rightarrow> check (map_of current name = None) (Errorf ''%s.%s is required'' [path, name])
          | _ \<Rightarrow> Some Panic) \<noteq> Some Panic" if "item \<in> set required" for item
      using schema_ok_required [OF "1.prems" r that] by (auto simp: check_not_panic)
    then show ?thesis using r by (simp add: check_value_required_def each_not_panic)
  qed (auto simp: check_value_required_def split: option.splits json.splits)
  have o: "each (\<lambda>(name, child).
               (case member_rule schema name of
                  OpenMember \<Rightarrow> None
                | ClosedMember \<Rightarrow> Some (Errorf ''%s.%s is not allowed'' [path, name])
                | Schema childSchema \<Rightarrow>
                    validateSchemaValue child childSchema (path @ ''.'' @ name) (Suc depth)
                | NotASchema \<Rightarrow> Some Panic)) current \<noteq> Some Panic" if "v = JObj current" for current
    using IH(2) [OF that] schema_ok_member [OF "1.prems"]
    by (auto intro!: each_not_panic simp del: append.simps split: member_rule.splits)
  have a: "each_i 0 (\<lambda>i item. validateSchemaValue item cs (path @ ''['' @ itoa (int i) @ '']'') (Suc depth)) current
      \<noteq> Some Panic" if "v = JArr current" "map_of schema ''items'' = Some (JObj cs)" for current cs
    using IH(1) [OF that refl] schema_ok_items [OF "1.prems" that(2)]
    by (auto intro!: each_i_not_panic simp del: append.simps)
  show ?case
    using t r o a deep by (auto simp: validateSchemaValue.simps [of v schema path depth] andthen_Some
        simp del: append.simps split: json.splits option.splits)
qed

text \<open>A raw schema that decodes has been checked, so checking values against it never panics.\<close>

lemma decodeSchemaDefinition_ok: "decodeSchemaDefinition raw path = Inr (Some schema) \<Longrightarrow> schema_ok 0 schema"
  by (auto simp: decodeSchemaDefinition_def schema_ok_def validateSchemaDefinition_def
      split: raw_message.splits json.splits option.splits)

definition schema_meaning :: "raw_message \<Rightarrow> string \<Rightarrow> json \<Rightarrow> bool" where
  "schema_meaning raw path v \<longleftrightarrow>
    (case decodeSchemaDefinition raw path of Inl _ \<Rightarrow> False | Inr None \<Rightarrow> True | Inr (Some schema) \<Rightarrow> conforms v schema)"

lemma ValidateJSONSchemaValue_None:
  "ValidateJSONSchemaValue v raw path = None \<longleftrightarrow> schema_meaning raw (path @ ''.schema'') v"
  using decodeSchemaDefinition_ok [of raw "path @ ''.schema''"] validateSchemaValue_conforms [of 0]
  by (auto simp: ValidateJSONSchemaValue_def schema_meaning_def simp del: append.simps split: sum.splits option.splits)

lemma distinct_keys_map_of: "distinct (map fst kvs) \<Longrightarrow> (k, v) \<in> set kvs \<longleftrightarrow> map_of kvs k = Some v"
  by (meson map_of_SomeD map_of_is_SomeI)

text \<open>A schema and a declaration on which the properties are evaluated.\<close>

definition demo_schema :: "(string \<times> json) list" where
  "demo_schema = [(''type'', JStr ''object''), (''required'', JArr [JStr ''n'']),
     (''properties'', JObj [(''n'', JObj [(''type'', JStr ''integer'')])]),
     (''additionalProperties'', JBool False)]"

definition demo_var :: var_def where
  "demo_var = \<lparr>v_Name = '' n'', v_Type = ''Number'', v_Desc = [], v_Required = True, v_Source = [],
     v_Schema = RawJSON (JObj [(''type'', JStr ''integer'')])\<rparr>"

text \<open>
  C19. A schema that the schema checker accepts and a value: the value checker accepts exactly
  the values that conform to the schema (declared type, enumeration, required and typed
  members, closed or typed additional members, typed items, at every depth). It never fails a
  type assertion, and its own depth limit never rejects a value.
\<close>

theorem schema_value_iff_conforms:
  assumes "validateSchemaDefinition schema path = None"
  shows "(validateSchemaValue v schema path' 0 = None \<longleftrightarrow> conforms v schema) \<and>
    validateSchemaValue v schema path' 0 \<noteq> Some Panic"
  using validateSchemaValue_conforms [of 0 schema v path'] validateSchemaValue_no_panic [of 0 schema v path'] assms
  unfolding schema_ok_def validateSchemaDefinition_def by blast

theorem schema_value_iff_conforms_witness:
  "validateSchemaDefinition demo_schema ''s'' = None \<and>
   conforms (JObj [(''n'', JNum 3)]) demo_schema \<and> \<not> conforms (JObj [(''n'', JStr ''x'')]) demo_schema"
proof -
  have ok: "validateSchemaDefinition demo_schema ''s'' = None" by code_simp
  have "validateSchemaValue (JObj [(''n'', JNum 3)]) demo_schema ''v'' 0 = None"
    "validateSchemaValue (JObj [(''n'', JStr ''x'')]) demo_schema ''v'' 0 \<noteq> None"
    by code_simp+
  with ok schema_value_iff_conforms [OF ok, of "JObj [(''n'', JNum 3)]" "''v''"]
    schema_value_iff_conforms [OF ok, of "JObj [(''n'', JStr ''x'')]" "''v''"] show ?thesis by blast
qed

text \<open>
  The inputs of a run are accepted exactly when every given variable is declared, every
  required variable is given, and every given value has its declared type and conforms to its
  declared schema.
\<close>

theorem variable_values_iff:
  "ValidateVariableValues defs vals path True = None \<longleftrightarrow>
    fst ` set vals \<subseteq> {n. n \<noteq> [] \<and> (\<exists>def \<in> set defs. trim_space (v_Name def) = n)} \<and>
    (\<forall>def \<in> set defs.
       (v_Required def \<longrightarrow> trim_space (v_Name def) \<in> fst ` set vals) \<and>
       (\<forall>v. map_of vals (trim_space (v_Name def)) = Some v \<longrightarrow>
          (norm_word (v_Type def) \<noteq> [] \<longrightarrow> valueHasJSONType v (norm_word (v_Type def))) \<and>
          schema_meaning (v_Schema def) (path @ ''.'' @ trim_space (v_Name def) @ ''.schema'') v))"
proof -
  have any: "norm_word t = ''any'' \<Longrightarrow> valueHasJSONType v (norm_word t)" for t v
    by (simp add: valueHasJSONType_def)
  have d: "(case map_of vals (trim_space (v_Name def)) of
              None \<Rightarrow> check (v_Required def) (Errorf ''%s.%s is required'' [path, trim_space (v_Name def)])
            | Some v \<Rightarrow> validateVariableValue def v (path @ ''.'' @ trim_space (v_Name def))) = None \<longleftrightarrow>
      (v_Required def \<longrightarrow> trim_space (v_Name def) \<in> fst ` set vals) \<and>
       (\<forall>v. map_of vals (trim_space (v_Name def)) = Some v \<longrightarrow>
          (norm_word (v_Type def) \<noteq> [] \<longrightarrow> valueHasJSONType v (norm_word (v_Type def))) \<and>
          schema_meaning (v_Schema def) (path @ ''.'' @ trim_space (v_Name def) @ ''.schema'') v)" for def
  proof (cases "map_of vals (trim_space (v_Name def))")
    case None
    then have "trim_space (v_Name def) \<notin> fst ` set vals" by (simp add: map_of_eq_None_iff)
    with None show ?thesis by (simp add: check_None)
  next
    case (Some v)
    then have "trim_space (v_Name def) \<in> fst ` set vals" by (force dest: map_of_SomeD)
    with Some any [of "v_Type def" v] show ?thesis
      by (auto simp: check_None validateVariableValue_def Let_def andthen_None
          ValidateJSONSchemaValue_None simp del: append.simps)
  qed
  have u: "each (\<lambda>(name, _). check (name \<notin> set (declared_names defs))
        (Errorf ''%s.%s is not declared'' [path, name])) vals = None \<longleftrightarrow>
      fst ` set vals \<subseteq> set (declared_names defs)"
    by (simp add: each_None check_None case_prod_beta image_subset_iff)
  have n: "set (declared_names defs) = {n. n \<noteq> [] \<and> (\<exists>def \<in> set defs. trim_space (v_Name def) = n)}"
    by (auto simp: declared_names_def)
  show ?thesis
    unfolding ValidateVariableValues_def
    by (simp only: if_True andthen_None each_None [where xs = defs] d Let_def u) (simp only: n)
qed

theorem variable_values_iff_witness:
  "ValidateVariableValues [demo_var] [(''n'', JNum 3)] ''inputs'' True = None \<and>
   schema_meaning (v_Schema demo_var) ''inputs.n.schema'' (JNum 3) \<and>
   ValidateVariableValues [demo_var] [(''n'', JStr ''x'')] ''inputs'' True \<noteq> None \<and>
   ValidateVariableValues [demo_var] [] ''inputs'' True \<noteq> None"
proof -
  have "ValidateVariableValues [demo_var] [(''n'', JNum 3)] ''inputs'' True = None"
    "ValidateVariableValues [demo_var] [(''n'', JStr ''x'')] ''inputs'' True \<noteq> None"
    "ValidateVariableValues [demo_var] [] ''inputs'' True \<noteq> None"
    "trim_space (v_Name demo_var) = ''n''"
    by code_simp+
  with variable_values_iff [of "[demo_var]" "[(''n'', JNum 3)]" "''inputs''"] show ?thesis by simp
qed

text \<open>
  An output source is parsed exactly when it reads \<open>nodes.<id>.outputs.<field>\<close> with two
  identifiers, blanks around it aside, and the parse gives them back.
\<close>

theorem ParseOutputSource_iff:
  "ParseOutputSource source = Some (nodeID, field) \<longleftrightarrow>
    source_ident nodeID \<and> source_ident field \<and>
    trim_space source = ''nodes.'' @ nodeID @ ''.outputs.'' @ field"
proof
  assume "ParseOutputSource source = Some (nodeID, field)"
  then have "split_char CHR ''.'' (trim_space source) = [''nodes'', nodeID, ''outputs'', field]"
    and "source_ident nodeID" "source_ident field"
    by (auto simp: ParseOutputSource_def split: list.splits if_splits)
  moreover from this(1) have "trim_space source = join ''.'' [''nodes'', nodeID, ''outputs'', field]"
    by (metis join_split_char)
  ultimately show "source_ident nodeID \<and> source_ident field \<and>
    trim_space source = ''nodes.'' @ nodeID @ ''.outputs.'' @ field" by simp
next
  assume *: "source_ident nodeID \<and> source_ident field \<and>
    trim_space source = ''nodes.'' @ nodeID @ ''.outputs.'' @ field"
  then have "CHR ''.'' \<notin> set nodeID" "CHR ''.'' \<notin> set field" using source_ident_no_dot by blast+
  then have "split_char CHR ''.'' (''nodes.'' @ nodeID @ ''.outputs.'' @ field) = [''nodes'', nodeID, ''outputs'', field]"
    using split_char_append [of "CHR ''.''" nodeID "''outputs'' @ ''.'' @ field"] split_char_whole [of "CHR ''.''" field]
    by simp
  with * show "ParseOutputSource source = Some (nodeID, field)" by (simp add: ParseOutputSource_def)
qed

end
