(* ===== verification/Workflow_Model.thy ===== *)
theory Workflow_Model
  imports Flow_Schema
begin

text \<open>
  The data of the durable workflow engine (\<open>src/internal/agent/workflow.go\<close> and
  \<open>workflow_flow.go\<close>): node and edge inputs, the nodes and edges of a run, the summary, and the
  normalisers the engine applies to what it stores.

  A time is an integer number of nanoseconds whose 0 is the zero \<open>time.Time\<close>; a
  \<open>map[string]any\<close> is an association list whose \<open>[]\<close> stands for both the nil and the empty
  map, since the code only reads it by key or by its length. The identity records
  (\<open>IdentityID\<close>, \<open>AgentIdentity\<close>) are display data that no function of the engine reads back and
  are left out.
\<close>

type_synonym outputs = "(string \<times> json) list"

section \<open>Specifications carried by a node\<close>

record workflow_num_compare =
  wnc_Op :: string
  wnc_Value :: rat

record workflow_field_compare =
  wfc_Path :: string
  wfc_Op :: string
  wfc_Value :: json

datatype workflow_edge_condition =
  WCond (w_Status: string) (w_Verdict: string) (w_Node: string) (w_Choice: string)
    (w_Confidence: "workflow_num_compare option") (w_Output: "workflow_field_compare option")
    (w_Not: "workflow_edge_condition option")
    (w_All: "workflow_edge_condition list") (w_Any: "workflow_edge_condition list")

record workflow_retry_policy =
  wr_MaxAttempts :: int
  wr_InitialIntervalMS :: int
  wr_BackoffCoefficient :: rat
  wr_MaxIntervalMS :: int
  wr_Jitter :: rat
  wr_RetryOn :: "string list"
  wr_NonRetryable :: "string list"

record workflow_decision_choice =
  wdc_ID :: string
  wdc_Label :: string

record workflow_decision_spec =
  wd_Provider :: string
  wd_Question :: string
  wd_DecisionType :: string
  wd_Choices :: "workflow_decision_choice list"
  wd_TimeoutMS :: int
  wd_OnError :: string
  wd_DefaultChoice :: string

record workflow_branch_case =
  wbc_Name :: string
  wbc_To :: string
  wbc_Condition :: workflow_edge_condition

record workflow_branch_spec =
  wb_Source :: string
  wb_Cases :: "workflow_branch_case list"
  wb_DefaultTo :: string

record workflow_decision_result =
  wdr_Choice :: string
  wdr_Confidence :: rat
  wdr_Calibrated :: bool
  wdr_Score :: rat
  wdr_Model :: string
  wdr_LatencyMS :: int
  wdr_Error :: string
  wdr_Raw :: outputs

record workflow_var_def =
  wv_Name :: string
  wv_Type :: string
  wv_Desc :: string
  wv_Required :: bool
  wv_Schema :: raw_message

record workflow_human_spec =
  wh_Queue :: string
  wh_AssigneePolicy :: string
  wh_Form :: json
  wh_TimeoutMS :: int
  wh_OnTimeout :: string
  wh_ResultVar :: string

record workflow_function_spec =
  wf_Runtime :: string
  wf_Source :: string
  wf_Ref :: string
  wf_Handler :: string
  wf_TimeoutSec :: int
  wf_InputSchema :: raw_message
  wf_OutputSchema :: raw_message
  wf_Network :: "network_policy option"

record workflow_service_spec =
  ws_Method :: string
  ws_URL :: string
  ws_Headers :: "(string \<times> string) list"
  ws_Body :: raw_message
  ws_Auth :: "service_auth_spec option"
  ws_Network :: "network_policy option"

section \<open>Inputs, nodes, edges and the state of a run\<close>

record workflow_node_input =
  ni_ID :: string
  ni_Kind :: string
  ni_Title :: string
  ni_Prompt :: string
  ni_TimeoutSec :: int
  ni_DependsOn :: "string list"
  ni_HandoffPolicy :: string
  ni_HandoffFrom :: "string list"
  ni_HandoffMaxBytes :: int
  ni_PreviewMerge :: "bool option"
  ni_AgentType :: string
  ni_AgentRef :: string
  ni_WriteScope :: "string list"
  ni_Retry :: "workflow_retry_policy option"
  ni_Decision :: "workflow_decision_spec option"
  ni_Human :: "workflow_human_spec option"
  ni_Branch :: "workflow_branch_spec option"
  ni_Function :: "workflow_function_spec option"
  ni_Service :: "workflow_service_spec option"
  ni_PreScript :: string
  ni_PostScript :: string
  ni_OutputSpec :: "workflow_var_def list"

record workflow_node =
  wn_ID :: string
  wn_Kind :: string
  wn_Title :: string
  wn_Prompt :: string
  wn_TimeoutSec :: int
  wn_DependsOn :: "string list"
  wn_HandoffPolicy :: string
  wn_HandoffFrom :: "string list"
  wn_HandoffMaxBytes :: int
  wn_PreviewMerge :: bool
  wn_Status :: string
  wn_AgentType :: string
  wn_WriteScope :: "string list"
  wn_JobID :: string
  wn_Attempt :: int
  wn_HandoffRef :: string
  wn_HandoffDigest :: string
  wn_Verdict :: string
  wn_ArtifactRefs :: "string list"
  wn_ResultPreview :: string
  wn_Error :: string
  wn_Retry :: "workflow_retry_policy option"
  wn_DecisionSpec :: "workflow_decision_spec option"
  wn_Decision :: "workflow_decision_result option"
  wn_BranchSpec :: "workflow_branch_spec option"
  wn_HumanSpec :: "workflow_human_spec option"
  wn_FunctionSpec :: "workflow_function_spec option"
  wn_ServiceSpec :: "workflow_service_spec option"
  wn_PreScript :: string
  wn_PostScript :: string
  wn_ScriptOutput :: outputs
  wn_OutputSpec :: "workflow_var_def list"
  wn_HumanTaskID :: string
  wn_AgentRef :: string
  wn_Outputs :: outputs
  wn_NextRetryAt :: int
  wn_CreatedAt :: int
  wn_UpdatedAt :: int
  wn_StartedAt :: int
  wn_FinishedAt :: int

record workflow_edge_input =
  ei_ID :: string
  ei_From :: string
  ei_FromPrefix :: string
  ei_FromKind :: string
  ei_When :: workflow_edge_condition
  ei_Append :: workflow_node_input
  ei_MaxIterations :: int
  ei_IterationKey :: string

record workflow_edge =
  we_ID :: string
  we_From :: string
  we_FromPrefix :: string
  we_FromKind :: string
  we_When :: workflow_edge_condition
  we_Append :: workflow_node_input
  we_MaxIterations :: int
  we_IterationKey :: string

record workflow_summary =
  su_ID :: string
  su_SessionID :: string
  su_Status :: string
  su_Error :: string
  su_RunInputs :: outputs
  su_RunOutputSpec :: "var_def list"
  su_RunOutputs :: outputs
  su_RunOutputsResolved :: bool
  su_RunTimeoutAt :: int
  su_AutoSchedule :: bool
  su_AppendKeys :: "(string \<times> string list) list"
  su_EdgeIterations :: "(string \<times> int) list"
  su_ProcessedEdges :: "string list"
  su_CreatedAt :: int
  su_UpdatedAt :: int

record workflow_state =
  ws_Summary :: workflow_summary
  ws_Nodes :: "workflow_node list"
  ws_Edges :: "workflow_edge list"

section \<open>Normalisers\<close>

abbreviation workflowMaxNodes :: nat where
  "workflowMaxNodes \<equiv> 64"

definition normalizeWorkflowNodeKind :: "string \<Rightarrow> string \<Rightarrow> string" where
  "normalizeWorkflowNodeKind kind fallback =
    (if trim_space kind \<noteq> [] then trim_space kind else trim_space fallback)"

definition handoff_policies :: "string list" where
  "handoff_policies = [''none'', ''summary'', ''summary_artifacts'', ''selected'']"

definition normalizeWorkflowHandoffPolicy :: "string \<Rightarrow> bool \<Rightarrow> string" where
  "normalizeWorkflowHandoffPolicy policy hasDeps =
    (if norm_word policy \<in> set handoff_policies then norm_word policy
     else if hasDeps then ''summary'' else ''none'')"

fun normalizeWorkflowStrings_from :: "string list \<Rightarrow> string list \<Rightarrow> string list" where
  "normalizeWorkflowStrings_from out [] = out"
| "normalizeWorkflowStrings_from out (x # xs) =
    (let item = trim_space x in
     if item = [] \<or> item \<in> set out then normalizeWorkflowStrings_from out xs
     else normalizeWorkflowStrings_from (out @ [item]) xs)"

definition normalizeWorkflowStrings :: "string list \<Rightarrow> string list" where
  "normalizeWorkflowStrings input = normalizeWorkflowStrings_from [] input"

definition normalizeWorkflowHandoffFrom :: "string list \<Rightarrow> string list \<Rightarrow> string list" where
  "normalizeWorkflowHandoffFrom handoffFrom deps =
    (let out = normalizeWorkflowStrings handoffFrom
     in if length out > 0 then out else normalizeWorkflowStrings deps)"

definition normalizeWorkflowHandoffMaxBytes :: "int \<Rightarrow> int" where
  "normalizeWorkflowHandoffMaxBytes v = (if v \<le> 0 then 8000 else if v > 32000 then 32000 else v)"

definition normalizeWorkflowPreviewMerge :: "bool option \<Rightarrow> bool" where
  "normalizeWorkflowPreviewMerge v = (case v of None \<Rightarrow> True | Some b \<Rightarrow> b)"

definition normalizeWorkflowEdgeMaxIterations :: "int \<Rightarrow> int" where
  "normalizeWorkflowEdgeMaxIterations v = (if v \<le> 0 then 3 else v)"

text \<open>
  \<open>strings.Trim\<close> with an ASCII cutset. \<open>normalizeWorkflowVerdict\<close> maps the spellings a model
  may use to the four verdicts, everything else to the empty string.
\<close>

definition trim_chars :: "char list \<Rightarrow> string \<Rightarrow> string" where
  "trim_chars cs s = rev (dropWhile (\<lambda>c. c \<in> set cs) (rev (dropWhile (\<lambda>c. c \<in> set cs) s)))"

definition verdict_words :: "(string \<times> string) list" where
  "verdict_words =
    map (\<lambda>w. (w, ''pass'')) [''pass'', ''passed'', ''success'', ''succeeded'', ''ok''] @
    map (\<lambda>w. (w, ''fail'')) [''fail'', ''failed'', ''failure'', ''error''] @
    map (\<lambda>w. (w, ''blocked'')) [''blocked'', ''blocker''] @
    map (\<lambda>w. (w, ''needs_fix'')) [''needs_fix'', ''needsfix'', ''fix'', ''needs_change'', ''needs_changes'']"

definition normalizeWorkflowVerdict :: "string \<Rightarrow> string" where
  "normalizeWorkflowVerdict v =
    (case map_of verdict_words
        (replace_all (trim_chars ('' .,:;'' @ [CHR 0x22, CHR 0x27]) (norm_word v)) ''-'' ''_'') of
       None \<Rightarrow> [] | Some w \<Rightarrow> w)"

text \<open>
  \<open>parseWorkflowVerdict\<close> first decodes the text into a struct with the one field \<open>Verdict\<close>:
  keys match it up to case, the last one wins, \<open>null\<close> leaves it alone and a value of another
  type is an error. \<open>decode\<close> is the JSON decoder.
\<close>

fun verdict_field :: "string \<Rightarrow> (string \<times> json) list \<Rightarrow> string option" where
  "verdict_field v [] = Some v"
| "verdict_field v ((k, x) # kvs) =
    (if equal_fold k ''verdict'' then
       (case x of JNull \<Rightarrow> verdict_field v kvs | JStr s \<Rightarrow> verdict_field s kvs | _ \<Rightarrow> None)
     else verdict_field v kvs)"

definition verdict_payload :: "json option \<Rightarrow> string" where
  "verdict_payload j =
    (case j of Some (JObj kvs) \<Rightarrow> (case verdict_field [] kvs of None \<Rightarrow> [] | Some v \<Rightarrow> v) | _ \<Rightarrow> [])"

fun verdict_line :: "string list \<Rightarrow> string" where
  "verdict_line [] = []"
| "verdict_line (l # ls) =
    (let line = trim_space l in
     if length line < 8 \<or> \<not> equal_fold (take 8 line) ''verdict:'' then verdict_line ls
     else normalizeWorkflowVerdict (trim_space (drop 8 line)))"

definition parseWorkflowVerdict :: "(string \<Rightarrow> json option) \<Rightarrow> string \<Rightarrow> string" where
  "parseWorkflowVerdict decode text0 =
    (let text = trim_space text0 in
     if text = [] then []
     else let verdict = normalizeWorkflowVerdict (verdict_payload (decode text))
          in if verdict \<noteq> [] then verdict else verdict_line (split_char (CHR 0x0A) text))"

definition workflowVerdictForTerminal :: "(string \<Rightarrow> json option) \<Rightarrow> string \<Rightarrow> string \<Rightarrow> string \<Rightarrow> string" where
  "workflowVerdictForTerminal decode status resultText errorText =
    (if parseWorkflowVerdict decode resultText \<noteq> [] then parseWorkflowVerdict decode resultText
     else if parseWorkflowVerdict decode errorText \<noteq> [] then parseWorkflowVerdict decode errorText
     else if status = ''completed'' then ''pass''
     else if status = ''canceled'' then ''blocked''
     else ''fail'')"

section \<open>Statuses\<close>

definition workflowNodeTerminal :: "string \<Rightarrow> bool" where
  "workflowNodeTerminal status \<longleftrightarrow> status \<in> set [''completed'', ''canceled'', ''error'']"

definition workflowTerminalStatus :: "string \<Rightarrow> bool" where
  "workflowTerminalStatus status \<longleftrightarrow> status \<in> set [''completed'', ''error'', ''canceled'']"

definition verdicts :: "string list" where
  "verdicts = [''pass'', ''fail'', ''blocked'', ''needs_fix'']"

lemma workflowTerminal_same: "workflowTerminalStatus = workflowNodeTerminal"
  by (auto simp: workflowTerminalStatus_def workflowNodeTerminal_def)

section \<open>What the normalisers guarantee\<close>

lemma normalizeWorkflowVerdict_range: "normalizeWorkflowVerdict v = [] \<or> normalizeWorkflowVerdict v \<in> set verdicts"
proof -
  have "snd ` set verdict_words \<subseteq> set verdicts" by code_simp
  then show ?thesis
    by (auto simp: normalizeWorkflowVerdict_def split: option.splits dest!: map_of_SomeD)
qed

lemma normalizeWorkflowVerdict_verdicts: "v \<in> set verdicts \<Longrightarrow> normalizeWorkflowVerdict v = v"
  by (simp add: verdicts_def) (elim disjE; simp; code_simp)

lemma normalizeWorkflowVerdict_idem [simp]:
  "normalizeWorkflowVerdict (normalizeWorkflowVerdict v) = normalizeWorkflowVerdict v"
proof -
  have "normalizeWorkflowVerdict [] = []" by code_simp
  then show ?thesis using normalizeWorkflowVerdict_range [of v] normalizeWorkflowVerdict_verdicts by metis
qed

lemma verdict_line_range: "verdict_line ls = [] \<or> verdict_line ls \<in> set verdicts"
  using normalizeWorkflowVerdict_range by (induction ls) (simp_all add: Let_def)

lemma parseWorkflowVerdict_range:
  "parseWorkflowVerdict decode t = [] \<or> parseWorkflowVerdict decode t \<in> set verdicts"
  using normalizeWorkflowVerdict_range verdict_line_range
  by (simp add: parseWorkflowVerdict_def Let_def) meson

lemma workflowVerdictForTerminal_verdict: "workflowVerdictForTerminal decode s r e \<in> set verdicts"
proof -
  have "''pass'' \<in> set verdicts" "''blocked'' \<in> set verdicts" "''fail'' \<in> set verdicts" by code_simp+
  then show ?thesis
    using parseWorkflowVerdict_range [of decode r] parseWorkflowVerdict_range [of decode e]
    by (auto simp: workflowVerdictForTerminal_def)
qed

text \<open>A clean string has no surrounding space and is not empty.\<close>

definition clean :: "string \<Rightarrow> bool" where
  "clean x \<longleftrightarrow> trim_space x = x \<and> x \<noteq> []"

lemma clean_trim: "clean (trim_space x) \<longleftrightarrow> trim_space x \<noteq> []"
  by (simp add: clean_def)

lemma normalizeWorkflowStrings_from_props:
  assumes "distinct out" "Ball (set out) clean"
  shows "distinct (normalizeWorkflowStrings_from out xs) \<and>
         Ball (set (normalizeWorkflowStrings_from out xs)) clean \<and>
         set (normalizeWorkflowStrings_from out xs) = set out \<union> (trim_space ` set xs - {[]})"
  using assms
proof (induction xs arbitrary: out)
  case (Cons x xs)
  show ?case
  proof (cases "trim_space x = [] \<or> trim_space x \<in> set out")
    case True
    then have "normalizeWorkflowStrings_from out (x # xs) = normalizeWorkflowStrings_from out xs"
      by (simp add: Let_def)
    with Cons.IH [OF Cons.prems] True show ?thesis by (simp only: list.set image_insert) blast
  next
    case False
    then have "normalizeWorkflowStrings_from out (x # xs) = normalizeWorkflowStrings_from (out @ [trim_space x]) xs"
      by (simp add: Let_def)
    moreover have d: "distinct (out @ [trim_space x])" and b: "Ball (set (out @ [trim_space x])) clean"
      using False Cons.prems clean_trim [of x] by auto
    moreover have "set (out @ [trim_space x]) \<union> (trim_space ` set xs - {[]}) =
        set out \<union> (trim_space ` set (x # xs) - {[]})"
      using False by auto
    ultimately show ?thesis using Cons.IH [OF d b] by metis
  qed
qed simp

lemma normalizeWorkflowStrings_props:
  "distinct (normalizeWorkflowStrings xs)"
  "Ball (set (normalizeWorkflowStrings xs)) clean"
  "set (normalizeWorkflowStrings xs) = trim_space ` set xs - {[]}"
  using normalizeWorkflowStrings_from_props [of "[]" xs] by (simp_all add: normalizeWorkflowStrings_def)

text \<open>Normalising a normalised list changes nothing.\<close>

lemma normalizeWorkflowStrings_from_id:
  "distinct (out @ xs) \<Longrightarrow> Ball (set xs) clean \<Longrightarrow> normalizeWorkflowStrings_from out xs = out @ xs"
proof (induction xs arbitrary: out)
  case (Cons x xs)
  then have "trim_space x = x" "x \<noteq> []" "x \<notin> set out" by (auto simp: clean_def)
  with Cons.IH [of "out @ [x]"] Cons.prems show ?case by simp
qed simp

lemma normalizeWorkflowStrings_idem [simp]:
  "normalizeWorkflowStrings (normalizeWorkflowStrings xs) = normalizeWorkflowStrings xs"
  using normalizeWorkflowStrings_props(1,2) [of xs] normalizeWorkflowStrings_from_id [of "[]"]
  by (simp add: normalizeWorkflowStrings_def)

lemma normalizeWorkflowEdgeMaxIterations_pos: "0 < normalizeWorkflowEdgeMaxIterations v"
  by (simp add: normalizeWorkflowEdgeMaxIterations_def)

lemma normalizeWorkflowEdgeMaxIterations_idem [simp]:
  "normalizeWorkflowEdgeMaxIterations (normalizeWorkflowEdgeMaxIterations v) = normalizeWorkflowEdgeMaxIterations v"
  by (simp add: normalizeWorkflowEdgeMaxIterations_def)

lemma normalizeWorkflowHandoffMaxBytes_bounds:
  "0 < normalizeWorkflowHandoffMaxBytes v \<and> normalizeWorkflowHandoffMaxBytes v \<le> 32000"
  by (simp add: normalizeWorkflowHandoffMaxBytes_def)

end
