(* ===== verification/Workflow_Cond.thy ===== *)
theory Workflow_Cond
  imports Workflow_Model
begin

text \<open>
  The flow primitives on top of the engine (\<open>src/internal/agent/workflow_flow.go\<close>): retry
  policies, failure classification, decision and branch specifications, and the structured edge
  predicates. A float64 is the rational it denotes; \<open>NaN\<close>, which only
  \<open>workflowNodeConfidence\<close> produces, is \<^const>\<open>None\<close>, and the arithmetic of the backoff is
  exact. \<open>ff\<close> is the formatting of a float64 by \<open>fmt.Sprint\<close>.
\<close>

section \<open>Retry policies\<close>

definition retry_kinds :: "string list" where
  "retry_kinds = [''provider_timeout'', ''provider_error'', ''tool_transient'', ''decision_model_error'']"

definition normalizeWorkflowRetryPolicy :: "workflow_retry_policy option \<Rightarrow> workflow_retry_policy option" where
  "normalizeWorkflowRetryPolicy p = map_option (\<lambda>p.
     let j = (if wr_Jitter p < 0 then 0 else wr_Jitter p);
         j = (if j > 1 then 1 else j);
         j = (if j = 0 then 1 / 5 else j)
     in p\<lparr>wr_MaxAttempts := (if wr_MaxAttempts p < 0 then 0 else wr_MaxAttempts p),
          wr_InitialIntervalMS := (if wr_InitialIntervalMS p \<le> 0 then 500 else wr_InitialIntervalMS p),
          wr_BackoffCoefficient := (if wr_BackoffCoefficient p \<le> 0 then 2 else wr_BackoffCoefficient p),
          wr_MaxIntervalMS := (if wr_MaxIntervalMS p \<le> 0 then 30000 else wr_MaxIntervalMS p),
          wr_Jitter := j,
          wr_RetryOn := (if length (wr_RetryOn p) = 0 then retry_kinds else wr_RetryOn p)\<rparr>) p"

text \<open>\<open>math.Pow\<close> at an integer exponent; \<open>rng\<close> is the number the generator draws, if there is one.\<close>

definition pow_int :: "rat \<Rightarrow> int \<Rightarrow> rat" where
  "pow_int b n = (if n \<ge> 0 then b ^ nat n else 1 / b ^ nat (- n))"

definition rngFloat :: "rat option \<Rightarrow> rat" where
  "rngFloat rng = (case rng of None \<Rightarrow> 1 / 2 | Some x \<Rightarrow> x)"

definition workflowRetryDelay :: "workflow_retry_policy option \<Rightarrow> int \<Rightarrow> rat option \<Rightarrow> int" where
  "workflowRetryDelay p retryNo rng =
    (case p of
       None \<Rightarrow> 0
     | Some p \<Rightarrow>
         let initial = wrap64 (wr_InitialIntervalMS p * 1000000);
             top = wrap64 (wr_MaxIntervalMS p * 1000000);
             coeff = (if wr_BackoffCoefficient p \<le> 0 then 2 else wr_BackoffCoefficient p);
             delay = of_int initial * pow_int coeff retryNo;
             delay = (if delay > of_int top then of_int top else delay);
             factor = 1 + (rngFloat rng * 2 - 1) * wr_Jitter p;
             factor = (if factor < 0 then 0 else factor);
             delay = (if wr_Jitter p > 0 then delay * factor else delay);
             delay = (if delay < 0 then 0 else delay)
         in \<lfloor>delay\<rfloor>)"

definition containsWorkflowString :: "string list \<Rightarrow> string \<Rightarrow> bool" where
  "containsWorkflowString items want \<longleftrightarrow> list_ex (\<lambda>item. trim_space item = want) items"

definition shouldWorkflowRetry :: "workflow_retry_policy option \<Rightarrow> int \<Rightarrow> string \<Rightarrow> bool \<times> int" where
  "shouldWorkflowRetry p executedAttempts kind =
    (case p of
       None \<Rightarrow> (False, 0)
     | Some q \<Rightarrow>
         if kind = [] then (False, 0)
         else if wr_MaxAttempts q \<le> 1 then (False, 0)
         else if containsWorkflowString (wr_NonRetryable q) kind then (False, 0)
         else if length (wr_RetryOn q) > 0 \<and> \<not> containsWorkflowString (wr_RetryOn q) kind then (False, 0)
         else if executedAttempts \<ge> wr_MaxAttempts q then (False, 0)
         else (True, workflowRetryDelay p (executedAttempts - 1) None))"

definition contains_any :: "string \<Rightarrow> string list \<Rightarrow> bool" where
  "contains_any t words \<longleftrightarrow> list_ex (contains t) words"

definition classifyWorkflowFailure :: "string \<Rightarrow> string \<Rightarrow> string" where
  "classifyWorkflowFailure jobStatus errText =
    (let status = trim_space jobStatus; t = to_lower (trim_space errText) in
     if status = ''timeout'' then ''provider_timeout''
     else if status = ''canceled'' \<or> status = ''interrupted'' then []
     else if t = [] then []
     else if contains_any t [''timeout'', ''deadline exceeded'', ''context deadline''] then ''provider_timeout''
     else if contains_any t [''429'', ''rate limit'', ''too many requests''] then ''provider_error''
     else if contains_any t [''502'', ''503'', ''504'', ''bad gateway'', ''service unavailable'',
         ''gateway timeout'', ''internal server error''] then ''provider_error''
     else if contains_any t [''connection reset'', ''connection refused'', ''connection aborted'',
         ''network is unreachable'', ''no such host'', ''broken pipe'', ''eof'', ''temporar'', ''try again'']
       then ''tool_transient''
     else [])"

definition classifyDecisionFailure :: "string option \<Rightarrow> string" where
  "classifyDecisionFailure err =
    (case err of
       None \<Rightarrow> []
     | Some e \<Rightarrow>
         let t = to_lower e in
         if contains_any t [''timeout'', ''deadline exceeded''] then ''provider_timeout''
         else if contains t ''no decision caller configured'' then []
         else ''decision_model_error'')"

section \<open>Edge predicates\<close>

fun normalizeWorkflowEdgeCondition :: "workflow_edge_condition \<Rightarrow> workflow_edge_condition" where
  "normalizeWorkflowEdgeCondition (WCond status verdict node choice confidence output neg alls anys) =
    WCond (trim_space status) (normalizeWorkflowVerdict verdict) (trim_space node) (trim_space choice)
      confidence output (map_option normalizeWorkflowEdgeCondition neg)
      (map normalizeWorkflowEdgeCondition alls) (map normalizeWorkflowEdgeCondition anys)"

definition workflowConditionEmpty :: "workflow_edge_condition \<Rightarrow> bool" where
  "workflowConditionEmpty c \<longleftrightarrow> w_Status c = [] \<and> w_Verdict c = [] \<and> w_Node c = [] \<and> w_Choice c = [] \<and>
     w_Confidence c = None \<and> w_Output c = None \<and> w_Not c = None \<and>
     length (w_All c) = 0 \<and> length (w_Any c) = 0"

text \<open>
  \<open>fmt.Sprint\<close> of a decoded JSON value; a map prints its entries in the order of the keys. An
  int64 output (the \<open>latency_ms\<close> of a decision before the next load of the state) is treated as
  the float64 that load reads.
\<close>

fun sprint :: "(rat \<Rightarrow> string) \<Rightarrow> json \<Rightarrow> string" where
  "sprint ff JNull = ''<nil>''"
| "sprint ff (JBool b) = (if b then ''true'' else ''false'')"
| "sprint ff (JNum x) = ff x"
| "sprint ff (JNumber x) = ff x"
| "sprint ff (JStr s) = s"
| "sprint ff (JArr vs) = ''['' @ join '' '' (map (sprint ff) vs) @ '']''"
| "sprint ff (JMaps vs) = ''['' @ join '' '' (map (sprint ff) vs) @ '']''"
| "sprint ff (JObj kvs) =
    ''map['' @ join '' '' (map (\<lambda>(k, s). k @ '':'' @ s)
       (sort_key fst (map (\<lambda>(k, v). (k, sprint ff v)) kvs))) @ '']''"

fun toFloat :: "json \<Rightarrow> rat option" where
  "toFloat (JNum x) = Some x"
| "toFloat (JBool b) = Some (if b then 1 else 0)"
| "toFloat _ = None"

definition valuesEqual :: "(rat \<Rightarrow> string) \<Rightarrow> json \<Rightarrow> json \<Rightarrow> bool" where
  "valuesEqual ff a b =
    (case (toFloat a, toFloat b) of (Some x, Some y) \<Rightarrow> x = y | _ \<Rightarrow> sprint ff a = sprint ff b)"

fun toAnySlice :: "json \<Rightarrow> json list" where
  "toAnySlice (JArr vs) = vs"
| "toAnySlice _ = []"

fun valueContains :: "(rat \<Rightarrow> string) \<Rightarrow> json \<Rightarrow> json \<Rightarrow> bool" where
  "valueContains ff (JStr s) item = contains s (sprint ff item)"
| "valueContains ff (JArr vs) item = list_ex (\<lambda>v. valuesEqual ff v item) vs"
| "valueContains ff _ item = False"

fun value_at :: "json \<Rightarrow> string list \<Rightarrow> json option" where
  "value_at current [] = Some current"
| "value_at current (part # parts) =
    (if part = [] then value_at current parts
     else (case current of
       JObj m \<Rightarrow> (case map_of m part of None \<Rightarrow> None | Some v \<Rightarrow> value_at v parts)
     | _ \<Rightarrow> None))"

definition workflowOutputValue :: "outputs \<Rightarrow> string \<Rightarrow> json option" where
  "workflowOutputValue outs path =
    (let parts = split_char (CHR ''.'') (trim_space path);
         parts = (if length parts > 0 \<and> parts ! 0 = ''outputs'' then drop 1 parts else parts)
     in value_at (JObj outs) parts)"

definition ord_compare :: "string \<Rightarrow> rat \<Rightarrow> rat \<Rightarrow> bool" where
  "ord_compare op a b =
    (if op = ''gt'' then a > b else if op = ''gte'' then a \<ge> b else if op = ''lt'' then a < b else a \<le> b)"

definition numCompare :: "workflow_num_compare \<Rightarrow> rat option \<Rightarrow> bool" where
  "numCompare c got =
    (case got of
       None \<Rightarrow> False
     | Some g \<Rightarrow>
         if wnc_Op c \<in> set [''gt'', ''gte'', ''lt'', ''lte''] then ord_compare (wnc_Op c) g (wnc_Value c)
         else if wnc_Op c = ''eq'' then g = wnc_Value c
         else False)"

definition fieldCompare :: "(rat \<Rightarrow> string) \<Rightarrow> workflow_field_compare \<Rightarrow> outputs \<Rightarrow> bool" where
  "fieldCompare ff c outs =
    (case workflowOutputValue outs (wfc_Path c) of
       None \<Rightarrow> False
     | Some got \<Rightarrow>
         if wfc_Op c = ''eq'' \<or> wfc_Op c = ''ne'' then
           valuesEqual ff got (wfc_Value c) = (wfc_Op c = ''eq'')
         else if wfc_Op c = ''in'' \<or> wfc_Op c = ''not_in'' then
           list_ex (valuesEqual ff got) (toAnySlice (wfc_Value c)) = (wfc_Op c = ''in'')
         else if wfc_Op c = ''contains'' then valueContains ff got (wfc_Value c)
         else if wfc_Op c \<in> set [''gt'', ''gte'', ''lt'', ''lte''] then
           (case (toFloat got, toFloat (wfc_Value c)) of
              (Some a, Some b) \<Rightarrow> ord_compare (wfc_Op c) a b
            | _ \<Rightarrow> False)
         else False)"

definition workflowNodeChoice :: "workflow_node \<Rightarrow> string" where
  "workflowNodeChoice node =
    (case wn_Decision node of
       Some d \<Rightarrow> if \<not> blank (wdr_Choice d) then wdr_Choice d
                 else (case map_of (wn_Outputs node) ''choice'' of Some (JStr s) \<Rightarrow> s | _ \<Rightarrow> [])
     | None \<Rightarrow> (case map_of (wn_Outputs node) ''choice'' of Some (JStr s) \<Rightarrow> s | _ \<Rightarrow> []))"

definition workflowNodeConfidence :: "workflow_node \<Rightarrow> rat option" where
  "workflowNodeConfidence node =
    (case wn_Decision node of
       Some d \<Rightarrow> Some (wdr_Confidence d)
     | None \<Rightarrow> (case map_of (wn_Outputs node) ''confidence'' of Some (JNum x) \<Rightarrow> Some x | _ \<Rightarrow> None))"

fun workflowConditionMatchesNode :: "(rat \<Rightarrow> string) \<Rightarrow> workflow_edge_condition \<Rightarrow> workflow_node \<Rightarrow> bool" where
  "workflowConditionMatchesNode ff (WCond status verdict nodeID choice confidence output neg alls anys) node =
    (if (case neg of None \<Rightarrow> False | Some c \<Rightarrow> workflowConditionMatchesNode ff c node) then False
     else if status \<noteq> [] \<and> status \<noteq> wn_Status node then False
     else if verdict \<noteq> [] \<and> verdict \<noteq> normalizeWorkflowVerdict (wn_Verdict node) then False
     else if choice \<noteq> [] \<and> workflowNodeChoice node \<noteq> choice then False
     else if (case confidence of None \<Rightarrow> False | Some c \<Rightarrow> \<not> numCompare c (workflowNodeConfidence node)) then False
     else if (case output of None \<Rightarrow> False | Some c \<Rightarrow> \<not> fieldCompare ff c (wn_Outputs node)) then False
     else if \<not> list_all (\<lambda>c. workflowConditionMatchesNode ff c node) alls then False
     else if length anys > 0 \<and> \<not> list_ex (\<lambda>c. workflowConditionMatchesNode ff c node) anys then False
     else True)"

definition workflowEdgeConditionMatchesState ::
  "(rat \<Rightarrow> string) \<Rightarrow> workflow_node list \<Rightarrow> workflow_edge_condition \<Rightarrow> workflow_node \<Rightarrow> bool" where
  "workflowEdgeConditionMatchesState ff nodes cond source =
    workflowConditionMatchesNode ff cond
      (if w_Node cond \<noteq> [] then
         (case find (\<lambda>n. wn_ID n = w_Node cond) nodes of None \<Rightarrow> source | Some n \<Rightarrow> n)
       else source)"

section \<open>Decision and branch specifications\<close>

definition decision_types :: "string list" where
  "decision_types = [''choice'', ''boolean'', ''score'']"

definition add_choice ::
  "workflow_decision_choice list \<Rightarrow> workflow_decision_choice \<Rightarrow> go_error + workflow_decision_choice list" where
  "add_choice choices ch =
    (let i = trim_space (wdc_ID ch) in
     if i = [] then Inl (Errorf ''decision node contains empty choice id'' [])
     else if i \<in> set (map wdc_ID choices) then Inl (Errorf ''decision node contains duplicate choice id %q'' [i])
     else Inr (choices @ [\<lparr>wdc_ID = i, wdc_Label = trim_space (wdc_Label ch)\<rparr>]))"

definition normalize_on_error :: "workflow_decision_spec \<Rightarrow> go_error + workflow_decision_spec" where
  "normalize_on_error spec =
    (let onError = norm_word (wd_OnError spec);
         out = spec\<lparr>wd_OnError := (if onError = [] then ''fail_closed'' else onError),
                    wd_DefaultChoice := trim_space (wd_DefaultChoice spec)\<rparr> in
     if onError \<noteq> [] \<and> onError \<notin> set [''fail_closed'', ''fail_open'', ''fail'']
     then Inl (Errorf ''decision node has invalid on_error %q'' [onError])
     else if wd_OnError out = ''fail_open'' \<and> wd_DefaultChoice out = []
     then Inl (Errorf ''decision node on_error=fail_open requires default_choice'' [])
     else Inr out)"

definition normalizeWorkflowDecisionSpec :: "workflow_decision_spec option \<Rightarrow> go_error + workflow_decision_spec" where
  "normalizeWorkflowDecisionSpec spec =
    (case spec of
       None \<Rightarrow> Inl (Errorf ''decision node missing decision spec'' [])
     | Some spec \<Rightarrow>
         let t0 = norm_word (wd_DecisionType spec);
             t = (if t0 = [] then ''choice'' else t0);
             out = spec\<lparr>wd_Question := trim_space (wd_Question spec),
                        wd_Provider := trim_space (wd_Provider spec), wd_DecisionType := t\<rparr> in
         if t \<notin> set decision_types then Inl (Errorf ''decision node has invalid decision_type %q'' [t])
         else if t = ''choice'' then
           (if length (wd_Choices out) = 0
            then Inl (Errorf ''choice decision node requires at least one choice'' [])
            else (case each_st add_choice [] (wd_Choices out) of
              Inl e \<Rightarrow> Inl e
            | Inr choices \<Rightarrow> normalize_on_error (out\<lparr>wd_Choices := choices\<rparr>)))
         else normalize_on_error out)"

definition case_route :: "workflow_branch_case \<Rightarrow> string" where
  "case_route c = (if blank (wbc_Name c) then trim_space (wbc_To c) else trim_space (wbc_Name c))"

fun normalize_cases ::
  "nat \<Rightarrow> string list \<Rightarrow> workflow_branch_case list \<Rightarrow> go_error + workflow_branch_case list" where
  "normalize_cases i seen [] = Inr []"
| "normalize_cases i seen (c # cs) =
    (let route = case_route c in
     if route = [] then Inl (Errorf ''branch case %d missing name/to'' [itoa (int i)])
     else if route \<in> set seen then Inl (Errorf ''branch case duplicate route %q'' [route])
     else if blank (wbc_To c) then Inl (Errorf ''branch case %d missing target'' [itoa (int i)])
     else if workflowConditionEmpty (wbc_Condition c)
     then Inl (Errorf ''branch case %d missing condition'' [itoa (int i)])
     else map_sum id ((#) \<lparr>wbc_Name = route, wbc_To = trim_space (wbc_To c),
              wbc_Condition = normalizeWorkflowEdgeCondition (wbc_Condition c)\<rparr>)
            (normalize_cases (Suc i) (seen @ [route]) cs))"

definition normalizeWorkflowBranchSpec :: "workflow_branch_spec option \<Rightarrow> go_error + workflow_branch_spec" where
  "normalizeWorkflowBranchSpec spec =
    (case spec of
       None \<Rightarrow> Inl (Errorf ''branch node missing branch spec'' [])
     | Some spec \<Rightarrow>
         if blank (wb_Source spec) then Inl (Errorf ''branch node missing source'' [])
         else if blank (wb_DefaultTo spec) then Inl (Errorf ''branch node missing default_to'' [])
         else if length (wb_Cases spec) = 0 then Inl (Errorf ''branch node requires at least one case'' [])
         else map_sum id (\<lambda>cases. \<lparr>wb_Source = trim_space (wb_Source spec), wb_Cases = cases,
                  wb_DefaultTo = trim_space (wb_DefaultTo spec)\<rparr>)
                (normalize_cases 0 [] (wb_Cases spec)))"

end
