(* ===== verification/Dfs.thy ===== *)
theory Dfs
  imports Prelude
begin

text \<open>
  The depth-first cycle search that the flow validator (\<open>findCycle\<close>), the workflow engine
  (\<open>validateWorkflowDeps\<close>) and the plugin runtime share in shape: three colours, the stack of
  the nodes being visited, and the first back edge reported as a path. A Go map that is
  ranged over has no order, so the order is an argument and the theorems hold for every one.

  The recursion of the source is nested (the loop goes on from the state a visit leaves), so
  termination is proved on the domain of the function: a visit never makes a node white again.
  The search is sound (a result is a closed path of the graph) and complete (no result means
  the graph is acyclic).
\<close>

section \<open>The search\<close>

datatype color = White | Gray | Black

record 'a dfs =
  df_color :: "'a \<Rightarrow> color"
  df_stack :: "'a list"

definition succs :: "('a \<times> 'b list) list \<Rightarrow> 'a \<Rightarrow> 'b list" where
  "succs G x = (case map_of G x of None \<Rightarrow> [] | Some ys \<Rightarrow> ys)"

definition enter :: "'a \<Rightarrow> 'a dfs \<Rightarrow> 'a dfs" where
  "enter x s = s\<lparr>df_color := (df_color s)(x := Gray), df_stack := df_stack s @ [x]\<rparr>"

definition leave :: "'a \<Rightarrow> 'a dfs \<Rightarrow> 'a dfs" where
  "leave x s = s\<lparr>df_color := (df_color s)(x := Black), df_stack := butlast (df_stack s)\<rparr>"

function dfs_deps :: "('a \<times> 'a list) list \<Rightarrow> 'a list \<Rightarrow> 'a dfs \<Rightarrow> 'a list option \<times> 'a dfs" where
  "dfs_deps G [] s = (None, s)"
| "dfs_deps G (d # ds) s =
    (case df_color s d of
       Gray \<Rightarrow> if d \<in> set (df_stack s) then (Some (dropWhile ((\<noteq>) d) (df_stack s) @ [d]), s)
               else dfs_deps G ds s
     | White \<Rightarrow> (case dfs_deps G (succs G d) (enter d s) of
                   (Some c, s') \<Rightarrow> (Some c, s')
                 | (None, s') \<Rightarrow> dfs_deps G ds (leave d s'))
     | Black \<Rightarrow> dfs_deps G ds s)"
  by pat_completeness auto

definition universe :: "('a \<times> 'a list) list \<Rightarrow> 'a set" where
  "universe G = set (map fst G) \<union> \<Union> (set (map (set \<circ> snd) G))"

definition whites :: "('a \<times> 'a list) list \<Rightarrow> 'a dfs \<Rightarrow> 'a set" where
  "whites G s = {x \<in> universe G. df_color s x = White}"

lemma finite_whites [simp]: "finite (whites G s)"
  by (simp add: whites_def universe_def)

lemma succs_outside: "x \<notin> universe G \<Longrightarrow> succs G x = []"
  using map_of_eq_None_iff [of G x] by (simp add: succs_def universe_def)

lemma dfs_deps_whites:
  "dfs_deps_dom (G, ds, s) \<Longrightarrow> df_color (snd (dfs_deps G ds s)) x = White \<Longrightarrow> df_color s x = White"
proof (induction G ds s rule: dfs_deps.pinduct)
  case (2 G d ds s)
  show ?case
  proof (cases "df_color s d")
    case White
    obtain r s' where r: "dfs_deps G (succs G d) (enter d s) = (r, s')" by fastforce
    show ?thesis
    proof (cases r)
      case None
      with "2.prems" White r "2.hyps" have "df_color (leave d s') x = White"
        using "2.IH"(2) [OF White r [symmetric] None] by (simp add: dfs_deps.psimps r)
      then have "df_color s' x = White" by (simp add: leave_def split: if_splits)
      then show ?thesis using "2.IH"(1) [OF White] r by (simp add: enter_def split: if_splits)
    next
      case (Some c)
      then show ?thesis
        using "2.prems" White r "2.hyps" "2.IH"(1) [OF White]
        by (simp add: dfs_deps.psimps enter_def split: if_splits)
    qed
  qed (use 2 in \<open>auto simp: dfs_deps.psimps split: if_splits\<close>)
qed (simp add: dfs_deps.psimps)

termination dfs_deps
proof (relation "inv_image ({(a, b). a < b} <*lex*> {(a, b). a < b}) (\<lambda>(G, ds, s). (card (whites G s), length ds))", goal_cases)
  case 1
  show ?case by (intro wf_inv_image wf_lex_prod wf)
next
  case (2 G d ds s)
  show ?case
  proof (cases "d \<in> universe G")
    case True
    with 2 have "whites G (enter d s) \<subset> whites G s" by (auto simp: whites_def enter_def)
    then show ?thesis by (simp add: psubset_card_mono)
  next
    case False
    then have "whites G (enter d s) = whites G s" by (auto simp: whites_def enter_def)
    with False show ?thesis by (simp add: succs_outside)
  qed
next
  case (3 G d ds s r s')
  have "df_color s x = White" if "df_color s' x = White" for x
    using dfs_deps_whites [OF 3(4), of x] 3(2) [symmetric] that by (auto simp: enter_def split: if_splits)
  then have "whites G (leave d s') \<subseteq> whites G s"
    by (auto simp: whites_def leave_def split: if_splits)
  then have "card (whites G (leave d s')) \<le> card (whites G s)" by (simp add: card_mono)
  then show ?case by auto
qed auto


definition dfs_visit :: "('a \<times> 'a list) list \<Rightarrow> 'a \<Rightarrow> 'a dfs \<Rightarrow> 'a list option \<times> 'a dfs" where
  "dfs_visit G x s =
    (case dfs_deps G (succs G x) (enter x s) of
       (Some c, s') \<Rightarrow> (Some c, s')
     | (None, s') \<Rightarrow> (None, leave x s'))"

fun find_from :: "('a \<times> 'a list) list \<Rightarrow> 'a list \<Rightarrow> 'a dfs \<Rightarrow> 'a list option" where
  "find_from G [] s = None"
| "find_from G (x # xs) s =
    (if df_color s x = White
     then (case dfs_visit G x s of (Some c, s') \<Rightarrow> Some c | (None, s') \<Rightarrow> find_from G xs s')
     else find_from G xs s)"

definition dfs_start :: "'a dfs" where
  "dfs_start = \<lparr>df_color = (\<lambda>_. White), df_stack = []\<rparr>"

definition find_cycle :: "('a \<times> 'a list) list \<Rightarrow> 'a list \<Rightarrow> 'a list option" where
  "find_cycle G order = find_from G order dfs_start"

section \<open>Correctness\<close>

definition edges_of :: "('a \<times> 'b list) list \<Rightarrow> ('a \<times> 'b) set" where
  "edges_of G = {(x, y). y \<in> set (succs G x)}"

fun is_path :: "('a \<times> 'a list) list \<Rightarrow> 'a list \<Rightarrow> bool" where
  "is_path G (x # y # zs) = (y \<in> set (succs G x) \<and> is_path G (y # zs))"
| "is_path G _ = True"

definition closed_path :: "('a \<times> 'a list) list \<Rightarrow> 'a list \<Rightarrow> bool" where
  "closed_path G c \<longleftrightarrow> 2 \<le> length c \<and> hd c = last c \<and> is_path G c"

lemma is_path_snoc: "is_path G (xs @ [y]) \<longleftrightarrow> is_path G xs \<and> (xs \<noteq> [] \<longrightarrow> y \<in> set (succs G (last xs)))"
  by (induction G xs rule: is_path.induct) auto

lemma is_path_drop: "is_path G xs \<Longrightarrow> is_path G (dropWhile P xs)"
  by (induction G xs rule: is_path.induct) auto

lemma is_path_trancl: "is_path G (x # xs) \<Longrightarrow> xs \<noteq> [] \<Longrightarrow> (x, last xs) \<in> (edges_of G)\<^sup>+"
proof (induction xs arbitrary: x)
  case (Cons y ys)
  then have xy: "(x, y) \<in> edges_of G" by (simp add: edges_of_def)
  show ?case
  proof (cases "ys = []")
    case False
    with Cons have "(y, last ys) \<in> (edges_of G)\<^sup>+" by simp
    with False xy show ?thesis by (simp add: trancl_into_trancl2)
  qed (use xy in auto)
qed simp

lemma closed_path_cyclic: "closed_path G c \<Longrightarrow> \<not> acyclic (edges_of G)"
proof -
  assume c: "closed_path G c"
  then obtain x xs where xs: "c = x # xs" "xs \<noteq> []" "x = last xs"
    by (cases c) (auto simp: closed_path_def split: if_splits)
  with c is_path_trancl [of G x xs] show ?thesis by (auto simp: closed_path_def acyclic_def)
qed

text \<open>
  The invariant: the stack is a path of the graph and holds exactly the gray nodes, the
  successors of a black node are black, and no cycle can be reached from a black node.
\<close>

definition dfs_inv :: "('a \<times> 'a list) list \<Rightarrow> 'a dfs \<Rightarrow> bool" where
  "dfs_inv G s \<longleftrightarrow> is_path G (df_stack s) \<and>
    (\<forall>x. df_color s x = Gray \<longleftrightarrow> x \<in> set (df_stack s)) \<and> distinct (df_stack s) \<and>
    (\<forall>x y. df_color s x = Black \<longrightarrow> (x, y) \<in> edges_of G \<longrightarrow> df_color s y = Black) \<and>
    (\<forall>x. df_color s x = Black \<longrightarrow> (x, x) \<notin> (edges_of G)\<^sup>+)"

definition dfs_post :: "('a \<times> 'a list) list \<Rightarrow> 'a list \<Rightarrow> 'a dfs \<Rightarrow> 'a list option \<times> 'a dfs \<Rightarrow> bool" where
  "dfs_post G ds s r \<longleftrightarrow>
    (case r of (Some c, _) \<Rightarrow> closed_path G c
     | (None, s') \<Rightarrow> dfs_inv G s' \<and> df_stack s' = df_stack s \<and>
         (\<forall>d \<in> set ds. df_color s' d = Black) \<and> (\<forall>x. df_color s x = Black \<longrightarrow> df_color s' x = Black))"

lemma dfs_inv_enter:
  assumes "dfs_inv G s" "df_color s d = White" "df_stack s \<noteq> [] \<Longrightarrow> d \<in> set (succs G (last (df_stack s)))"
  shows "dfs_inv G (enter d s)"
proof -
  have "d \<notin> set (df_stack s)" using assms(1,2) unfolding dfs_inv_def by (metis color.distinct(1))
  then show ?thesis using assms unfolding dfs_inv_def enter_def
    by (auto simp: is_path_snoc)
qed

lemma black_closed:
  assumes "(x, y) \<in> (edges_of G)\<^sup>*" "dfs_inv G s" "df_color s x = Black"
  shows "df_color s y = Black"
  using assms by (induction rule: rtrancl_induct) (auto simp: dfs_inv_def)

lemma dfs_inv_leave:
  assumes inv: "dfs_inv G s" and st: "df_stack s = st @ [d]" and bl: "\<forall>y \<in> set (succs G d). df_color s y = Black"
  shows "dfs_inv G (leave d s)"
proof -
  have gray: "df_color s d = Gray" "d \<notin> set st" using inv st by (auto simp: dfs_inv_def)
  have "(d, d) \<notin> (edges_of G)\<^sup>+"
  proof
    assume "(d, d) \<in> (edges_of G)\<^sup>+"
    then obtain y where "(d, y) \<in> edges_of G" "(y, d) \<in> (edges_of G)\<^sup>*" by (meson tranclD)
    with bl black_closed [OF _ inv] gray show False by (auto simp: edges_of_def)
  qed
  moreover have "is_path G st" using inv st by (simp add: dfs_inv_def is_path_snoc)
  ultimately show ?thesis
    using inv st bl gray unfolding dfs_inv_def leave_def by (auto simp: edges_of_def)
qed

lemma closed_path_back:
  assumes "dfs_inv G s" "d \<in> set (df_stack s)" "d \<in> set (succs G (last (df_stack s)))"
  shows "closed_path G (dropWhile ((\<noteq>) d) (df_stack s) @ [d])"
proof -
  let ?t = "dropWhile ((\<noteq>) d) (df_stack s)"
  have ne: "?t \<noteq> []" using assms(2) by simp
  have "hd ?t = d" using hd_dropWhile [OF ne] by simp
  moreover have "last ?t = last (df_stack s)"
    using ne by (metis last_appendR takeWhile_dropWhile_id)
  moreover have "is_path G ?t" using assms(1) by (simp add: dfs_inv_def is_path_drop)
  moreover have "1 \<le> length ?t" using ne by (cases ?t) auto
  ultimately show ?thesis using ne assms(3) by (simp add: closed_path_def is_path_snoc)
qed


lemma dfs_deps_post:
  "dfs_inv G s \<Longrightarrow> df_stack s \<noteq> [] \<Longrightarrow> set ds \<subseteq> set (succs G (last (df_stack s))) \<Longrightarrow>
   dfs_post G ds s (dfs_deps G ds s)"
proof (induction G ds s rule: dfs_deps.induct)
  case (1 G s)
  then show ?case by (simp add: dfs_post_def)
next
  case (2 G d ds s)
  note pre = "2.prems"
  show ?case
  proof (cases "df_color s d")
    case Gray
    then have "d \<in> set (df_stack s)" using pre(1) by (simp add: dfs_inv_def)
    with Gray pre show ?thesis by (simp add: dfs_post_def closed_path_back)
  next
    case Black
    with "2.IH"(4) pre show ?thesis by (auto simp: dfs_post_def split: prod.splits option.splits)
  next
    case White
    have inv: "dfs_inv G (enter d s)" by (rule dfs_inv_enter) (use White pre in auto)
    have post: "dfs_post G (succs G d) (enter d s) (dfs_deps G (succs G d) (enter d s))"
      by (rule "2.IH"(1) [OF White inv]) (simp_all add: enter_def)
    obtain r s' where r: "dfs_deps G (succs G d) (enter d s) = (r, s')" by fastforce
    show ?thesis
    proof (cases r)
      case (Some c)
      with White post r show ?thesis by (simp add: dfs_post_def)
    next
      case None
      from post r None have s': "dfs_inv G s'" "df_stack s' = df_stack s @ [d]"
        "\<forall>y \<in> set (succs G d). df_color s' y = Black"
        "\<forall>x. df_color (enter d s) x = Black \<longrightarrow> df_color s' x = Black"
        by (auto simp: dfs_post_def enter_def)
      have l: "dfs_inv G (leave d s')" by (rule dfs_inv_leave [OF s'(1-3)])
      have ls: "df_stack (leave d s') = df_stack s" using s'(2) by (simp add: leave_def)
      have bl: "df_color s x = Black \<longrightarrow> df_color (leave d s') x = Black" for x
        using s'(4) White by (auto simp: enter_def leave_def split: if_splits)
      have dl: "df_color (leave d s') d = Black" by (simp add: leave_def)
      have "dfs_post G ds (leave d s') (dfs_deps G ds (leave d s'))"
        by (rule "2.IH"(2) [OF White r [symmetric] None l]) (use pre ls in auto)
      with White r None bl dl ls show ?thesis
        by (auto simp: dfs_post_def split: prod.splits option.splits)
    qed
  qed
qed

lemma dfs_visit_post:
  assumes "dfs_inv G s" "df_stack s = []" "df_color s x = White"
  shows "case dfs_visit G x s of (Some c, _) \<Rightarrow> closed_path G c
    | (None, s') \<Rightarrow> dfs_inv G s' \<and> df_stack s' = [] \<and> df_color s' x = Black \<and>
        (\<forall>y. df_color s y = Black \<longrightarrow> df_color s' y = Black)"
proof -
  have inv: "dfs_inv G (enter x s)" by (rule dfs_inv_enter) (use assms in auto)
  have post: "dfs_post G (succs G x) (enter x s) (dfs_deps G (succs G x) (enter x s))"
    by (rule dfs_deps_post [OF inv]) (simp_all add: enter_def)
  obtain r s' where r: "dfs_deps G (succs G x) (enter x s) = (r, s')" by fastforce
  show ?thesis
  proof (cases r)
    case None
    from post r None assms(2) have s': "dfs_inv G s'" "df_stack s' = [] @ [x]"
      "\<forall>y \<in> set (succs G x). df_color s' y = Black"
      "\<forall>y. df_color (enter x s) y = Black \<longrightarrow> df_color s' y = Black"
      by (auto simp: dfs_post_def enter_def)
    with dfs_inv_leave [OF s'(1-3)] None r assms(3) show ?thesis
      by (auto simp: dfs_visit_def enter_def leave_def split: if_splits)
  qed (use post r in \<open>simp add: dfs_visit_def dfs_post_def\<close>)
qed

lemma find_from_sound:
  "find_from G xs s = Some c \<Longrightarrow> dfs_inv G s \<Longrightarrow> df_stack s = [] \<Longrightarrow> closed_path G c"
proof (induction xs arbitrary: s)
  case (Cons x xs)
  then show ?case using dfs_visit_post [of G s x]
    by (auto split: if_splits prod.splits option.splits)
qed simp

lemma find_from_complete:
  "find_from G xs s = None \<Longrightarrow> dfs_inv G s \<Longrightarrow> df_stack s = [] \<Longrightarrow>
   \<forall>x. x \<in> set xs \<or> df_color s x = Black \<longrightarrow> (x, x) \<notin> (edges_of G)\<^sup>+"
proof (induction xs arbitrary: s)
  case Nil
  then show ?case by (simp add: dfs_inv_def)
next
  case (Cons x xs)
  show ?case
  proof (cases "df_color s x = White")
    case True
    with Cons.prems obtain s' where s': "dfs_visit G x s = (None, s')" "find_from G xs s' = None"
      by (auto split: prod.splits option.splits)
    with dfs_visit_post [OF Cons.prems(2,3) True] Cons.IH [of s'] show ?thesis by auto
  next
    case False
    moreover have "df_color s x \<noteq> Gray" using Cons.prems(2,3) by (simp add: dfs_inv_def)
    ultimately have "df_color s x = Black" by (cases "df_color s x") auto
    with False Cons show ?thesis by auto
  qed
qed

lemma dfs_inv_start: "dfs_inv G dfs_start" "df_stack dfs_start = []"
  by (simp_all add: dfs_inv_def dfs_start_def)

lemma find_cycle_Some: "find_cycle G order = Some c \<Longrightarrow> closed_path G c"
  unfolding find_cycle_def by (rule find_from_sound [OF _ dfs_inv_start])

lemma find_cycle_None:
  assumes "set (map fst G) \<subseteq> set order" "find_cycle G order = None"
  shows "acyclic (edges_of G)"
proof (unfold acyclic_def, intro allI notI)
  fix x
  assume c: "(x, x) \<in> (edges_of G)\<^sup>+"
  then obtain y where "(x, y) \<in> edges_of G" by (meson tranclD)
  then have "x \<in> set (map fst G)"
    using map_of_eq_None_iff [of G x] by (force simp: edges_of_def succs_def split: option.splits)
  with assms(1) find_from_complete [OF assms(2) [unfolded find_cycle_def] dfs_inv_start] c
  show False by blast
qed

text \<open>The search decides acyclicity, whatever the order the keys are visited in.\<close>

lemma find_cycle_iff:
  assumes "set (map fst G) \<subseteq> set order"
  shows "find_cycle G order = None \<longleftrightarrow> acyclic (edges_of G)"
  using find_cycle_None [OF assms] find_cycle_Some [of G order] closed_path_cyclic [of G]
  by (cases "find_cycle G order") auto


section \<open>The interface\<close>

text \<open>
  What the validators and the engine need of a cycle search: the answer is right. From it
  follows that a scheduler over the graph never gets stuck: any finite set of unfinished nodes
  holds one that depends on none of the others.
\<close>

locale cycle_search =
  fixes search :: "('a \<times> 'a list) list \<Rightarrow> 'a list \<Rightarrow> 'a list option"
  assumes search_None: "set (map fst G) \<subseteq> set order \<Longrightarrow> search G order = None \<longleftrightarrow> acyclic (edges_of G)"
    and search_Some: "search G order = Some c \<Longrightarrow> closed_path G c"
begin

lemma not_stuck:
  assumes "set (map fst G) \<subseteq> set order" "search G order = None" "finite S" "S \<noteq> {}"
  shows "\<exists>x \<in> S. \<forall>y \<in> set (succs G x). y \<notin> S"
proof -
  define R where "R = {(y, x). x \<in> S \<and> y \<in> S \<and> (x, y) \<in> edges_of G}"
  have "R \<subseteq> (edges_of G)\<inverse>" by (auto simp: R_def)
  then have "acyclic R"
    using search_None [OF assms(1)] assms(2) by (meson acyclic_converse acyclic_subset)
  moreover have "finite R"
    by (rule finite_subset [of _ "S \<times> S"]) (use assms(3) in \<open>auto simp: R_def\<close>)
  ultimately have wf: "wf R" by (rule finite_acyclic_wf [rotated])
  obtain z where z: "z \<in> S" using assms(4) by blast
  obtain x where "x \<in> S" "\<forall>y. (y, x) \<in> R \<longrightarrow> y \<notin> S"
    using wfE_min [OF wf z] by blast
  moreover have "(y, x) \<in> R" if "y \<in> set (succs G x)" "y \<in> S" for y
    using that \<open>x \<in> S\<close> by (simp add: R_def edges_of_def)
  ultimately show ?thesis by blast
qed

end

interpretation dfs_search: cycle_search find_cycle
  by unfold_locales (rule find_cycle_iff, assumption, rule find_cycle_Some)


section \<open>Breadth-first reachability\<close>

text \<open>
  The queue loop with which the session validator collects what an entry node or a branch
  route reaches: the region in the order of discovery and the queue of nodes to expand.
\<close>

definition bfs_push :: "'a list \<times> 'a list \<Rightarrow> 'a \<Rightarrow> 'a list \<times> 'a list" where
  "bfs_push s x = (let (region, queue) = s in if x \<in> set region then s else (region @ [x], queue @ [x]))"

lemma bfs_push_simp:
  "bfs_push (region, queue) x = (if x \<in> set region then (region, queue) else (region @ [x], queue @ [x]))"
  by (simp add: bfs_push_def)

lemma bfs_push_all:
  "foldl bfs_push (region, queue) xs = (region', queue') \<Longrightarrow>
   \<exists>new. region' = region @ new \<and> queue' = queue @ new \<and> set new = set xs - set region \<and> distinct new"
proof (induction xs arbitrary: region queue)
  case (Cons x xs)
  show ?case
  proof (cases "x \<in> set region")
    case True
    with Cons.prems have "foldl bfs_push (region, queue) xs = (region', queue')" by (simp add: bfs_push_simp)
    with Cons.IH True show ?thesis by force
  next
    case False
    with Cons.prems have "foldl bfs_push (region @ [x], queue @ [x]) xs = (region', queue')"
      by (simp add: bfs_push_simp)
    with Cons.IH obtain new where "region' = (region @ [x]) @ new" "queue' = (queue @ [x]) @ new"
      "set new = set xs - set (region @ [x])" "distinct new" by blast
    with False show ?thesis by (intro exI [of _ "x # new"]) auto
  qed
qed simp

function bfs :: "('a \<times> 'a list) list \<Rightarrow> 'a list \<Rightarrow> 'a list \<Rightarrow> 'a list" where
  "bfs G region [] = region"
| "bfs G region (current # queue) =
    (case foldl bfs_push (region, queue) (succs G current) of (region', queue') \<Rightarrow> bfs G region' queue')"
  by pat_completeness auto

lemma finite_universe [simp]: "finite (universe G)"
  by (simp add: universe_def)

lemma succs_universe: "set (succs G x) \<subseteq> universe G"
proof (cases "map_of G x")
  case (Some ys)
  then have "(x, ys) \<in> set G" by (rule map_of_SomeD)
  with Some show ?thesis by (force simp: succs_def universe_def)
qed (simp add: succs_def)

termination bfs
proof (relation "measure (\<lambda>(G, region, queue). 2 * card (universe G - set region) + length queue)", goal_cases)
  case (2 G region current queue region' queue')
  then obtain new where new: "region' = region @ new" "queue' = queue @ new"
    "set new = set (succs G current) - set region" "distinct new"
    using bfs_push_all [of region queue "succs G current" region' queue'] by auto
  then have "set new \<subseteq> universe G - set region" using succs_universe by fastforce
  moreover have "card (set new) = length new" using new(4) by (rule distinct_card)
  moreover have "universe G - set region' = (universe G - set region) - set new" using new(1) by auto
  ultimately have "card (universe G - set region') + length new = card (universe G - set region)"
    by (metis card_Diff_subset card_mono finite_Diff finite_universe le_add_diff_inverse2 List.finite_set)
  with new(2) show ?case by simp
qed simp

declare bfs.simps(2) [simp del]

definition reach :: "('a \<times> 'a list) list \<Rightarrow> 'a \<Rightarrow> 'a list" where
  "reach G x = bfs G [x] [x]"

lemma bfs_reach:
  "set queue \<subseteq> set region \<Longrightarrow>
   \<forall>x \<in> set region - set queue. set (succs G x) \<subseteq> set region \<Longrightarrow>
   set (bfs G region queue) = {y. \<exists>x \<in> set region. (x, y) \<in> (edges_of G)\<^sup>*}"
proof (induction G region queue rule: bfs.induct)
  case (1 G region)
  have "y \<in> set region" if "x \<in> set region" "(x, y) \<in> (edges_of G)\<^sup>*" for x y
    using that(2,1) by (induction rule: rtrancl_induct) (use 1 in \<open>auto simp: edges_of_def\<close>)
  then show ?case by auto
next
  case (2 G region current queue)
  obtain region' queue' where f: "foldl bfs_push (region, queue) (succs G current) = (region', queue')"
    by fastforce
  then obtain new where new: "region' = region @ new" "queue' = queue @ new"
    "set new = set (succs G current) - set region"
    using bfs_push_all [OF f] by blast
  have "set (bfs G region' queue') = {y. \<exists>x \<in> set region'. (x, y) \<in> (edges_of G)\<^sup>*}"
    by (rule "2.IH" [OF f [symmetric]]) (use 2 new in auto)
  moreover have "(current, z) \<in> edges_of G" if "z \<in> set new" for z
    using that new(3) by (auto simp: edges_of_def)
  ultimately have "set (bfs G region' queue') = {y. \<exists>x \<in> set region. (x, y) \<in> (edges_of G)\<^sup>*}"
    using "2.prems"(1) new(1) by (auto intro: converse_rtrancl_into_rtrancl)
  with f show ?case by (simp add: bfs.simps(2))
qed

lemma reach_iff: "y \<in> set (reach G x) \<longleftrightarrow> (x, y) \<in> (edges_of G)\<^sup>*"
proof -
  have "set (bfs G [x] [x]) = {y. \<exists>z \<in> set [x]. (z, y) \<in> (edges_of G)\<^sup>*}"
    by (rule bfs_reach) auto
  then show ?thesis unfolding reach_def by simp
qed

end
