(* ===== verification/Workflow_Nodes.thy ===== *)
theory Workflow_Nodes
  imports Workflow_Cond Dfs
begin

text \<open>
  How the engine turns inputs into nodes and edges and what it checks before it stores them
  (\<open>workflowNodesFromInputs\<close>, \<open>workflowEdgesFromInputs\<close>, \<open>validateWorkflowDeps\<close>,
  \<open>validateWorkflowEdges\<close>, \<open>validateWorkflowID\<close> and \<open>create\<close> in
  \<open>src/internal/agent/workflow.go\<close>). A set of ids (\<open>map[string]struct{}\<close>) is a list without
  duplicates. The shared depth-first search stands for the closure \<open>visit\<close>: visiting is grey,
  visited is black, and the id the error names is the one that closes the path.
\<close>

section \<open>Nodes\<close>

definition node_id_of :: "string list \<Rightarrow> workflow_node_input \<Rightarrow> string" where
  "node_id_of seen i =
    (if blank (ni_ID i) then ''node_'' @ itoa (int (length seen) + 1) else trim_space (ni_ID i))"

abbreviation no_prompt_kinds :: "string list" where
  "no_prompt_kinds \<equiv> [''branch'', ''function'', ''service'']"

definition wrap_node_error :: "string \<Rightarrow> go_error \<Rightarrow> go_error" where
  "wrap_node_error i e = Wrapf ''node %s: %w'' [i] e"

definition node_decision :: "string \<Rightarrow> workflow_node_input \<Rightarrow> go_error + workflow_decision_spec option" where
  "node_decision kind i =
    (if kind = ''decision'' then map_sum id Some (normalizeWorkflowDecisionSpec (ni_Decision i)) else Inr None)"

definition node_branch :: "string \<Rightarrow> workflow_node_input \<Rightarrow> go_error + workflow_branch_spec option" where
  "node_branch kind i =
    (if kind = ''branch'' then map_sum id Some (normalizeWorkflowBranchSpec (ni_Branch i)) else Inr None)"

definition node_human :: "string \<Rightarrow> workflow_node_input \<Rightarrow> workflow_human_spec option" where
  "node_human kind i =
    (if kind = ''user_input'' then map_option (\<lambda>h.
       \<lparr>wh_Queue = trim_space (wh_Queue h), wh_AssigneePolicy = trim_space (wh_AssigneePolicy h),
        wh_Form = wh_Form h, wh_TimeoutMS = wh_TimeoutMS h, wh_OnTimeout = trim_space (wh_OnTimeout h),
        wh_ResultVar = trim_space (wh_ResultVar h)\<rparr>) (ni_Human i)
     else None)"

definition node_function :: "string \<Rightarrow> workflow_node_input \<Rightarrow> workflow_function_spec option" where
  "node_function kind i =
    (if kind = ''function'' then map_option (\<lambda>f.
       \<lparr>wf_Runtime = trim_space (wf_Runtime f), wf_Source = wf_Source f, wf_Ref = trim_space (wf_Ref f),
        wf_Handler = trim_space (wf_Handler f), wf_TimeoutSec = wf_TimeoutSec f,
        wf_InputSchema = wf_InputSchema f, wf_OutputSchema = wf_OutputSchema f, wf_Network = None\<rparr>) (ni_Function i)
     else None)"

definition node_prompt :: "string \<Rightarrow> workflow_decision_spec option \<Rightarrow> workflow_node_input \<Rightarrow> string" where
  "node_prompt kind decision i =
    (if kind = ''decision'' \<and> blank (ni_Prompt i)
     then (case decision of None \<Rightarrow> [] | Some d \<Rightarrow> wd_Question d)
     else trim_space (ni_Prompt i))"

definition build_node ::
  "int \<Rightarrow> string \<Rightarrow> string \<Rightarrow> string \<Rightarrow> workflow_decision_spec option \<Rightarrow> workflow_branch_spec option \<Rightarrow>
     workflow_node_input \<Rightarrow> workflow_node" where
  "build_node now nodeID kind prompt decision branch i =
    \<lparr>wn_ID = nodeID, wn_Kind = kind, wn_Title = trim_space (ni_Title i), wn_Prompt = prompt,
     wn_TimeoutSec = ni_TimeoutSec i, wn_DependsOn = normalizeWorkflowStrings (ni_DependsOn i),
     wn_HandoffPolicy = normalizeWorkflowHandoffPolicy (ni_HandoffPolicy i) (length (ni_DependsOn i) > 0),
     wn_HandoffFrom = normalizeWorkflowStrings (ni_HandoffFrom i),
     wn_HandoffMaxBytes = normalizeWorkflowHandoffMaxBytes (ni_HandoffMaxBytes i),
     wn_PreviewMerge = normalizeWorkflowPreviewMerge (ni_PreviewMerge i), wn_Status = ''pending'',
     wn_AgentType = trim_space (ni_AgentType i), wn_WriteScope = normalizeWorkflowStrings (ni_WriteScope i),
     wn_JobID = [], wn_Attempt = 0, wn_HandoffRef = [], wn_HandoffDigest = [], wn_Verdict = [],
     wn_ArtifactRefs = [], wn_ResultPreview = [], wn_Error = [],
     wn_Retry = normalizeWorkflowRetryPolicy (ni_Retry i), wn_DecisionSpec = decision, wn_Decision = None,
     wn_BranchSpec = branch, wn_HumanSpec = node_human kind i, wn_FunctionSpec = node_function kind i,
     wn_ServiceSpec = (if kind = ''service'' then ni_Service i else None),
     wn_PreScript = ni_PreScript i, wn_PostScript = ni_PostScript i, wn_ScriptOutput = [],
     wn_OutputSpec = ni_OutputSpec i, wn_HumanTaskID = [], wn_AgentRef = trim_space (ni_AgentRef i),
     wn_Outputs = [], wn_NextRetryAt = 0, wn_CreatedAt = now, wn_UpdatedAt = now, wn_StartedAt = 0,
     wn_FinishedAt = 0\<rparr>"

text \<open>One turn of the loop: the ids seen and the nodes built so far.\<close>

definition node_from_input ::
  "int \<Rightarrow> string list \<times> workflow_node list \<Rightarrow> workflow_node_input \<Rightarrow>
     go_error + string list \<times> workflow_node list" where
  "node_from_input now s i =
    (let (seen, nodes) = s; nodeID = node_id_of seen i; kind = normalizeWorkflowNodeKind (ni_Kind i) nodeID in
     if nodeID \<in> set seen then Inl (Errorf ''duplicate node id %q'' [nodeID])
     else (case node_decision kind i of
       Inl e \<Rightarrow> Inl (wrap_node_error nodeID e)
     | Inr decision \<Rightarrow>
         (case node_branch kind i of
            Inl e \<Rightarrow> Inl (wrap_node_error nodeID e)
          | Inr branch \<Rightarrow>
              let prompt = node_prompt kind decision i in
              if prompt = [] \<and> kind \<notin> set no_prompt_kinds
              then Inl (Errorf ''node %s missing prompt'' [nodeID])
              else Inr (seen @ [nodeID], nodes @ [build_node now nodeID kind prompt decision branch i]))))"

definition workflowNodesFromInputs ::
  "workflow_node_input list \<Rightarrow> string list \<Rightarrow> int \<Rightarrow> go_error + workflow_node list" where
  "workflowNodesFromInputs inputs existing now =
    map_sum id snd (each_st (node_from_input now) (existing, []) inputs)"

section \<open>Edges\<close>

definition edge_id_of :: "nat \<Rightarrow> workflow_edge_input \<Rightarrow> string" where
  "edge_id_of k i = (if blank (ei_ID i) then ''edge_'' @ itoa (int k + 1) else trim_space (ei_ID i))"

definition build_edge :: "string \<Rightarrow> workflow_edge_input \<Rightarrow> workflow_edge" where
  "build_edge edgeID i =
    \<lparr>we_ID = edgeID, we_From = trim_space (ei_From i), we_FromPrefix = trim_space (ei_FromPrefix i),
     we_FromKind = trim_space (ei_FromKind i), we_When = normalizeWorkflowEdgeCondition (ei_When i),
     we_Append = ei_Append i, we_MaxIterations = normalizeWorkflowEdgeMaxIterations (ei_MaxIterations i),
     we_IterationKey = (if blank (ei_IterationKey i) then edgeID else trim_space (ei_IterationKey i))\<rparr>"

definition sourceless :: "workflow_edge \<Rightarrow> bool" where
  "sourceless e \<longleftrightarrow> we_From e = [] \<and> we_FromPrefix e = [] \<and> we_FromKind e = []"

fun edges_from :: "nat \<Rightarrow> workflow_edge list \<Rightarrow> workflow_edge_input list \<Rightarrow> go_error + workflow_edge list" where
  "edges_from k out [] = Inr out"
| "edges_from k out (i # is) =
    (let edgeID = edge_id_of k i; edge = build_edge edgeID i;
         appendKind = normalizeWorkflowNodeKind (ni_Kind (we_Append edge)) (ni_ID (we_Append edge)) in
     if edgeID \<in> set (map we_ID out) then Inl (Errorf ''duplicate workflow edge id %q'' [edgeID])
     else if sourceless edge then Inl (Errorf ''workflow edge %s missing from or from_kind'' [edgeID])
     else if workflowConditionEmpty (we_When edge) then
       Inl (Errorf ''workflow edge %s missing when predicate (status/verdict/choice/confidence/output)'' [edgeID])
     else if blank (ni_Prompt (we_Append edge)) \<and> appendKind \<notin> set no_prompt_kinds
     then Inl (Errorf ''workflow edge %s append node missing prompt'' [edgeID])
     else edges_from (Suc k) (out @ [edge]) is)"

definition workflowEdgesFromInputs :: "workflow_edge_input list \<Rightarrow> go_error + workflow_edge list" where
  "workflowEdgesFromInputs inputs = edges_from 0 [] inputs"

section \<open>Checks\<close>

definition check_dep :: "string list \<Rightarrow> workflow_node \<Rightarrow> string \<Rightarrow> go_error option" where
  "check_dep ids node dep0 =
    (let dep = trim_space dep0 in
     if dep = [] then None
     else andthen (check (dep = wn_ID node) (Errorf ''workflow node %s depends on itself'' [wn_ID node]))
       (check (dep \<notin> set ids) (Errorf ''workflow node %s depends on unknown node %s'' [wn_ID node, dep])))"

definition wf_graph_of :: "workflow_node list \<Rightarrow> (string \<times> string list) list" where
  "wf_graph_of nodes = rev (map (\<lambda>n. (wn_ID n, wn_DependsOn n)) nodes)"

definition validateWorkflowDeps :: "workflow_node list \<Rightarrow> go_error option" where
  "validateWorkflowDeps nodes =
    andthen (each (\<lambda>n. each (check_dep (map wn_ID nodes) n) (wn_DependsOn n @ wn_HandoffFrom n)) nodes)
      (case find_cycle (wf_graph_of nodes) (map wn_ID nodes) of
         None \<Rightarrow> None
       | Some c \<Rightarrow> Some (Errorf ''workflow dependency cycle includes %s'' [last c]))"

definition append_ids :: "workflow_edge list \<Rightarrow> string list" where
  "append_ids edges = filter (\<lambda>i. i \<noteq> []) (map (\<lambda>e. trim_space (ni_ID (we_Append e))) edges)"

fun validate_edges_from :: "string list \<Rightarrow> string list \<Rightarrow> workflow_edge list \<Rightarrow> go_error option" where
  "validate_edges_from ids seen [] = None"
| "validate_edges_from ids seen (e # es) =
    andthen (check (blank (we_ID e)) (Errorf ''workflow edge missing id'' []))
     (andthen (check (we_ID e \<in> set seen) (Errorf ''duplicate workflow edge id %q'' [we_ID e]))
      (andthen (check (we_From e \<noteq> [] \<and> we_From e \<notin> set ids)
          (Errorf ''workflow edge %s references unknown from node %s'' [we_ID e, we_From e]))
       (andthen (check (sourceless e) (Errorf ''workflow edge %s missing from, from_prefix or from_kind'' [we_ID e]))
         (validate_edges_from ids (seen @ [we_ID e]) es))))"

definition validateWorkflowEdges :: "workflow_edge list \<Rightarrow> workflow_node list \<Rightarrow> go_error option" where
  "validateWorkflowEdges edges nodes =
    (if length edges = 0 then None
     else validate_edges_from (map wn_ID nodes @ append_ids edges) [] edges)"

definition id_char :: "char \<Rightarrow> bool" where
  "id_char c \<longleftrightarrow> char_in CHR ''a'' CHR ''z'' c \<or> char_in CHR ''A'' CHR ''Z'' c \<or> char_in CHR ''0'' CHR ''9'' c \<or>
     c \<in> set ''_-.''"

text \<open>A byte that is no ASCII character belongs to a rune that is not allowed either.\<close>

definition validateWorkflowID :: "string \<Rightarrow> go_error option" where
  "validateWorkflowID i =
    (if i = [] then Some (Errorf ''missing workflow_id'' [])
     else if i = ''.'' \<or> contains i ''..'' then Some (Errorf ''invalid workflow_id %q'' [i])
     else if \<not> list_all id_char i then Some (Errorf ''invalid workflow_id %q'' [i])
     else None)"

section \<open>Creating a run\<close>

text \<open>
  \<open>stat\<close> is the look at the directory of the id: \<open>Some None\<close> when it exists, \<open>Some (Some e)\<close>
  when the look failed with an error other than ``not found'', \<open>None\<close> when there is no such
  directory. \<open>saved\<close> is the error of writing the state, if any.
\<close>

definition new_summary :: "string \<Rightarrow> string \<Rightarrow> int \<Rightarrow> workflow_summary" where
  "new_summary i sessionID now =
    \<lparr>su_ID = i, su_SessionID = trim_space sessionID, su_Status = ''pending'', su_Error = [], su_RunInputs = [],
     su_RunOutputSpec = [], su_RunOutputs = [], su_RunOutputsResolved = False, su_RunTimeoutAt = 0,
     su_AutoSchedule = False, su_AppendKeys = [], su_EdgeIterations = [], su_ProcessedEdges = [],
     su_CreatedAt = now, su_UpdatedAt = now\<rparr>"

definition build_state ::
  "string \<Rightarrow> string \<Rightarrow> workflow_node_input list \<Rightarrow> workflow_edge_input list \<Rightarrow> int \<Rightarrow> go_error + workflow_state" where
  "build_state i sessionID inputs edgeInputs now =
    (case workflowNodesFromInputs inputs [] now of
       Inl e \<Rightarrow> Inl e
     | Inr nodes \<Rightarrow>
         (case validateWorkflowDeps nodes of
            Some e \<Rightarrow> Inl e
          | None \<Rightarrow>
              (case workflowEdgesFromInputs edgeInputs of
                 Inl e \<Rightarrow> Inl e
               | Inr edges \<Rightarrow>
                   (case validateWorkflowEdges edges nodes of
                      Some e \<Rightarrow> Inl e
                    | None \<Rightarrow> Inr \<lparr>ws_Summary = new_summary i sessionID now, ws_Nodes = nodes, ws_Edges = edges\<rparr>))))"

definition create ::
  "(string \<Rightarrow> go_error option option) \<Rightarrow> (workflow_state \<Rightarrow> go_error option) \<Rightarrow> string \<Rightarrow> string \<Rightarrow>
     workflow_node_input list \<Rightarrow> workflow_edge_input list \<Rightarrow> int \<Rightarrow> go_error + workflow_state" where
  "create stat saved sessionID workflowID inputs edgeInputs now =
    (let i = (if blank workflowID then ''wf_'' @ itoa now else trim_space workflowID) in
     if length inputs = 0 then Inl (Errorf ''missing workflow nodes'' [])
     else (case (if blank workflowID then None else validateWorkflowID i) of
       Some e \<Rightarrow> Inl e
     | None \<Rightarrow>
         (case stat i of
            Some None \<Rightarrow> Inl (Errorf ''workflow already exists: %s'' [i])
          | Some (Some e) \<Rightarrow> Inl e
          | None \<Rightarrow>
              (case build_state i sessionID inputs edgeInputs now of
                 Inl e \<Rightarrow> Inl e
               | Inr state \<Rightarrow> (case saved state of Some e \<Rightarrow> Inl e | None \<Rightarrow> Inr state)))))"


section \<open>What is stored is well formed\<close>

text \<open>The dependency relation of a run: a node and what it depends on.\<close>

definition depends :: "workflow_node list \<Rightarrow> (string \<times> string) set" where
  "depends nodes = {(wn_ID n, d) |n d. n \<in> set nodes \<and> d \<in> set (wn_DependsOn n)}"

definition clean_node :: "workflow_node \<Rightarrow> bool" where
  "clean_node n \<longleftrightarrow> Ball (set (wn_DependsOn n)) clean \<and> Ball (set (wn_HandoffFrom n)) clean"

definition deps_known :: "workflow_node list \<Rightarrow> bool" where
  "deps_known nodes \<longleftrightarrow> (\<forall>n \<in> set nodes. \<forall>d \<in> set (wn_DependsOn n) \<union> set (wn_HandoffFrom n).
     d \<noteq> wn_ID n \<and> d \<in> wn_ID ` set nodes)"

definition wf_nodes :: "workflow_node list \<Rightarrow> bool" where
  "wf_nodes nodes \<longleftrightarrow> distinct (map wn_ID nodes) \<and> Ball (set nodes) clean_node \<and>
     deps_known nodes \<and> acyclic (depends nodes)"

definition wf_edges :: "workflow_edge list \<Rightarrow> workflow_node list \<Rightarrow> bool" where
  "wf_edges edges nodes \<longleftrightarrow> distinct (map we_ID edges) \<and>
     (\<forall>e \<in> set edges. \<not> blank (we_ID e) \<and> \<not> sourceless e \<and>
        (we_From e = [] \<or> we_From e \<in> wn_ID ` set nodes \<or> we_From e \<in> set (append_ids edges)))"

lemma succs_graph_of:
  assumes "distinct (map wn_ID nodes)" "n \<in> set nodes"
  shows "succs (wf_graph_of nodes) (wn_ID n) = wn_DependsOn n"
proof -
  have "distinct (map fst (wf_graph_of nodes))"
    using assms(1) by (simp add: wf_graph_of_def rev_map [symmetric] comp_def)
  then have "map_of (wf_graph_of nodes) (wn_ID n) = Some (wn_DependsOn n)"
    using assms(2) by (auto simp: wf_graph_of_def intro!: map_of_is_SomeI)
  then show ?thesis by (simp add: succs_def)
qed

lemma edges_of_graph:
  assumes "distinct (map wn_ID nodes)"
  shows "edges_of (wf_graph_of nodes) = depends nodes"
proof -
  have "x \<in> wn_ID ` set nodes" if "y \<in> set (succs (wf_graph_of nodes) x)" for x y
    using that by (auto simp: succs_def wf_graph_of_def split: option.splits dest!: map_of_SomeD [OF sym])
  then show ?thesis
    using succs_graph_of [OF assms] by (force simp: edges_of_def depends_def)
qed

lemma graph_keys: "set (map fst (wf_graph_of nodes)) \<subseteq> set (map wn_ID nodes)"
  by (auto simp: wf_graph_of_def)

lemma check_dep_clean:
  "clean d \<Longrightarrow> check_dep ids n d = None \<longleftrightarrow> d \<noteq> wn_ID n \<and> d \<in> set ids"
  by (auto simp: check_dep_def clean_def noerr)

lemma validateWorkflowDeps_None:
  assumes "distinct (map wn_ID nodes)" "Ball (set nodes) clean_node"
  shows "validateWorkflowDeps nodes = None \<longleftrightarrow> wf_nodes nodes"
proof -
  have "each (check_dep (map wn_ID nodes) n) (wn_DependsOn n @ wn_HandoffFrom n) = None \<longleftrightarrow>
      (\<forall>d \<in> set (wn_DependsOn n) \<union> set (wn_HandoffFrom n). d \<noteq> wn_ID n \<and> d \<in> wn_ID ` set nodes)"
    if "n \<in> set nodes" for n
  proof -
    have "Ball (set (wn_DependsOn n) \<union> set (wn_HandoffFrom n)) clean"
      using assms(2) that by (auto simp: clean_node_def)
    then show ?thesis by (auto simp: noerr check_dep_clean)
  qed
  then have "each (\<lambda>n. each (check_dep (map wn_ID nodes) n) (wn_DependsOn n @ wn_HandoffFrom n)) nodes = None
      \<longleftrightarrow> deps_known nodes"
    by (simp add: each_None deps_known_def)
  moreover have "find_cycle (wf_graph_of nodes) (map wn_ID nodes) = None \<longleftrightarrow> acyclic (depends nodes)"
    using dfs_search.search_None [OF graph_keys] edges_of_graph [OF assms(1)] by simp
  ultimately show ?thesis
    using assms by (auto simp: validateWorkflowDeps_def andthen_None wf_nodes_def split: option.splits)
qed

lemma validate_edges_from_None:
  "validate_edges_from ids seen es = None \<longleftrightarrow>
     distinct (map we_ID es) \<and> set (map we_ID es) \<inter> set seen = {} \<and>
     (\<forall>e \<in> set es. \<not> blank (we_ID e) \<and> \<not> sourceless e \<and> (we_From e = [] \<or> we_From e \<in> set ids))"
  by (induction es arbitrary: seen) (auto simp: noerr)

lemma validateWorkflowEdges_None: "validateWorkflowEdges edges nodes = None \<longleftrightarrow> wf_edges edges nodes"
  by (auto simp: validateWorkflowEdges_def validate_edges_from_None wf_edges_def)


section \<open>What the builders establish\<close>

text \<open>
  A fresh node is pending, was never attempted, has clean dependencies and, when it is a code
  node, no network policy.
\<close>

definition fresh_node :: "workflow_node \<Rightarrow> bool" where
  "fresh_node n \<longleftrightarrow> wn_Status n = ''pending'' \<and> wn_Attempt n = 0 \<and> wn_FinishedAt n = 0 \<and> wn_Outputs n = [] \<and>
     wn_JobID n = [] \<and> wn_Decision n = None \<and> clean_node n"

lemma build_node_simps:
  "wn_ID (build_node now i kind prompt decision branch input) = i"
  "wn_Kind (build_node now i kind prompt decision branch input) = kind"
  "wn_DependsOn (build_node now i kind prompt decision branch input) = normalizeWorkflowStrings (ni_DependsOn input)"
  "wn_HandoffFrom (build_node now i kind prompt decision branch input) = normalizeWorkflowStrings (ni_HandoffFrom input)"
  "wn_FunctionSpec (build_node now i kind prompt decision branch input) = node_function kind input"
  "wn_Retry (build_node now i kind prompt decision branch input) = normalizeWorkflowRetryPolicy (ni_Retry input)"
  by (simp_all add: build_node_def)

lemma node_function_network: "node_function kind i = Some f \<Longrightarrow> wf_Network f = None"
  by (auto simp: node_function_def split: if_splits)

lemma fresh_build_node: "fresh_node (build_node now i kind prompt decision branch input)"
  using normalizeWorkflowStrings_props(2)
  by (simp add: fresh_node_def build_node_def clean_node_def)

text \<open>What a node takes over from the input it is built from.\<close>

definition built :: "workflow_node_input \<Rightarrow> workflow_node \<Rightarrow> bool" where
  "built i n \<longleftrightarrow> fresh_node n \<and> (\<not> blank (ni_ID i) \<longrightarrow> wn_ID n = trim_space (ni_ID i)) \<and>
     wn_Kind n = normalizeWorkflowNodeKind (ni_Kind i) (wn_ID n) \<and>
     wn_DependsOn n = normalizeWorkflowStrings (ni_DependsOn i) \<and>
     wn_HandoffFrom n = normalizeWorkflowStrings (ni_HandoffFrom i) \<and>
     wn_Retry n = normalizeWorkflowRetryPolicy (ni_Retry i) \<and>
     (\<forall>f. wn_FunctionSpec n = Some f \<longrightarrow> wf_Network f = None)"

lemma built_build_node:
  assumes "nodeID = node_id_of seen i" "kind = normalizeWorkflowNodeKind (ni_Kind i) nodeID"
  shows "built i (build_node now nodeID kind prompt decision branch i)"
  using assms by (simp add: built_def build_node_simps fresh_build_node node_function_network node_id_of_def)

lemma node_from_input_Inr:
  assumes "node_from_input now (seen, nodes) i = Inr (seen', nodes')"
  obtains n where "seen' = seen @ [wn_ID n]" "nodes' = nodes @ [n]" "wn_ID n \<notin> set seen" "built i n"
proof -
  define nodeID where "nodeID = node_id_of seen i"
  define kind where "kind = normalizeWorkflowNodeKind (ni_Kind i) nodeID"
  obtain decision branch where d: "node_decision kind i = Inr decision" "node_branch kind i = Inr branch"
    and n: "nodeID \<notin> set seen" "seen' = seen @ [nodeID]"
      "nodes' = nodes @ [build_node now nodeID kind (node_prompt kind decision i) decision branch i]"
    using assms by (auto simp: node_from_input_def Let_def nodeID_def kind_def split: if_splits sum.splits)
  show thesis
    by (rule that [of "build_node now nodeID kind (node_prompt kind decision i) decision branch i"])
       (simp_all add: n build_node_simps built_build_node [OF nodeID_def kind_def])
qed

lemma workflowNodesFromInputs_run:
  assumes "each_st (node_from_input now) (existing, nodes) inputs = Inr (seen, nodes')"
  shows "\<exists>new. nodes' = nodes @ new \<and> seen = existing @ map wn_ID new \<and>
     (distinct existing \<longrightarrow> distinct seen) \<and> list_all2 built inputs new"
  using assms
proof (induction inputs arbitrary: existing nodes)
  case (Cons i inputs)
  then obtain s1 n1 where step: "node_from_input now (existing, nodes) i = Inr (s1, n1)"
    and rest: "each_st (node_from_input now) (s1, n1) inputs = Inr (seen, nodes')"
    by (auto split: sum.splits)
  obtain n where n: "s1 = existing @ [wn_ID n]" "n1 = nodes @ [n]" "wn_ID n \<notin> set existing" "built i n"
    by (rule node_from_input_Inr [OF step])
  obtain new where "nodes' = n1 @ new" "seen = s1 @ map wn_ID new" "distinct s1 \<longrightarrow> distinct seen"
    "list_all2 built inputs new"
    using Cons.IH [OF rest] by blast
  with n show ?case by (intro exI [of _ "n # new"]) simp
qed simp

lemma workflowNodesFromInputs_Inr:
  assumes "workflowNodesFromInputs inputs existing now = Inr new"
  shows "list_all2 built inputs new" "length new = length inputs" "Ball (set new) fresh_node"
    "distinct existing \<Longrightarrow> distinct (existing @ map wn_ID new)"
    "\<And>n f. n \<in> set new \<Longrightarrow> wn_FunctionSpec n = Some f \<Longrightarrow> wf_Network f = None"
proof -
  obtain seen where run: "each_st (node_from_input now) (existing, []) inputs = Inr (seen, new)"
    using assms by (cases "each_st (node_from_input now) (existing, []) inputs") (auto simp: workflowNodesFromInputs_def)
  note facts = workflowNodesFromInputs_run [OF run, simplified]
  then show all: "list_all2 built inputs new" by simp
  then show "length new = length inputs" by (simp add: list_all2_lengthD)
  have b: "\<exists>i. built i n" if "n \<in> set new" for n
    using list_all2_origin [OF all that] by blast
  then show "Ball (set new) fresh_node" by (auto simp: built_def)
  from b show "\<And>n f. n \<in> set new \<Longrightarrow> wn_FunctionSpec n = Some f \<Longrightarrow> wf_Network f = None" by (auto simp: built_def)
  from facts show "distinct existing \<Longrightarrow> distinct (existing @ map wn_ID new)" by force
qed

lemma fresh_clean: "Ball (set new) fresh_node \<Longrightarrow> Ball (set new) clean_node"
  by (simp add: fresh_node_def)

text \<open>An edge that was accepted has a source, a predicate that is not empty, and a positive bound.\<close>

definition edge_ok :: "workflow_edge \<Rightarrow> bool" where
  "edge_ok e \<longleftrightarrow> \<not> sourceless e \<and> \<not> workflowConditionEmpty (we_When e) \<and> 0 < we_MaxIterations e"

lemma edges_from_Inr:
  assumes "edges_from k out is = Inr out'" "distinct (map we_ID out)" "Ball (set out) edge_ok"
  shows "distinct (map we_ID out') \<and> Ball (set out') edge_ok \<and> length out' = length out + length is"
  using assms
proof (induction k out "is" rule: edges_from.induct)
  case (2 k out i "is")
  let ?e = "build_edge (edge_id_of k i) i"
  have ok: "we_ID ?e \<notin> set (map we_ID out)" "edge_ok ?e"
    and rest: "edges_from (Suc k) (out @ [?e]) is = Inr out'"
    using "2.prems"(1) normalizeWorkflowEdgeMaxIterations_pos
    by (auto simp: Let_def edge_ok_def build_edge_def split: if_splits)
  have "distinct (map we_ID (out @ [?e]))" "Ball (set (out @ [?e])) edge_ok"
    using ok "2.prems"(2,3) by auto
  with "2.IH" rest show ?case
    using "2.prems"(1) by (simp add: Let_def split: if_splits)
qed auto

lemma workflowEdgesFromInputs_Inr:
  assumes "workflowEdgesFromInputs is = Inr edges"
  shows "distinct (map we_ID edges)" "Ball (set edges) edge_ok" "length edges = length is"
  using edges_from_Inr [of 0 "[]" "is" edges] assms by (auto simp: workflowEdgesFromInputs_def)

text \<open>The state of a run is well formed.\<close>

definition wf_state :: "workflow_state \<Rightarrow> bool" where
  "wf_state st \<longleftrightarrow> wf_nodes (ws_Nodes st) \<and> wf_edges (ws_Edges st) (ws_Nodes st) \<and> Ball (set (ws_Edges st)) edge_ok"

lemma build_state_Inr:
  assumes "build_state i sessionID inputs edgeInputs now = Inr st"
  shows "wf_state st" "Ball (set (ws_Nodes st)) fresh_node" "length (ws_Nodes st) = length inputs"
    "ws_Summary st = new_summary i sessionID now"
    "\<And>n f. n \<in> set (ws_Nodes st) \<Longrightarrow> wn_FunctionSpec n = Some f \<Longrightarrow> wf_Network f = None"
proof -
  obtain nodes edges where b: "workflowNodesFromInputs inputs [] now = Inr nodes" "validateWorkflowDeps nodes = None"
      "workflowEdgesFromInputs edgeInputs = Inr edges" "validateWorkflowEdges edges nodes = None"
      "st = \<lparr>ws_Summary = new_summary i sessionID now, ws_Nodes = nodes, ws_Edges = edges\<rparr>"
    using assms by (auto simp: build_state_def split: sum.splits option.splits)
  note nodes = workflowNodesFromInputs_Inr [OF b(1)]
  have "wf_nodes nodes"
    using validateWorkflowDeps_None [of nodes] nodes(4) fresh_clean [OF nodes(3)] b(2) by simp
  then show "wf_state st"
    using b workflowEdgesFromInputs_Inr [OF b(3)] validateWorkflowEdges_None by (simp add: wf_state_def)
  show "Ball (set (ws_Nodes st)) fresh_node" "length (ws_Nodes st) = length inputs"
    "ws_Summary st = new_summary i sessionID now"
    "\<And>n f. n \<in> set (ws_Nodes st) \<Longrightarrow> wn_FunctionSpec n = Some f \<Longrightarrow> wf_Network f = None"
    using b nodes by simp_all
qed

lemma create_Inr:
  assumes "create stat saved sessionID workflowID inputs edgeInputs now = Inr st"
  obtains i where "build_state i sessionID inputs edgeInputs now = Inr st" "stat i = None" "inputs \<noteq> []"
    "\<not> blank workflowID \<Longrightarrow> i = trim_space workflowID \<and> validateWorkflowID i = None"
  using assms by (auto simp: create_def Let_def split: if_splits option.splits sum.splits)

end
