(* ===== verification/Workflow_Exec.thy ===== *)
theory Workflow_Exec
  imports Workflow_Nodes
begin

text \<open>
  Starting one node of a run: \<open>startWorkflowNode\<close> and the synchronous executors
  (\<open>src/internal/agent/workflow.go\<close>, \<open>workflow_flow_branch.go\<close>, \<open>workflow_flow_decision.go\<close>,
  \<open>workflow_flow_function.go\<close>, \<open>workflow_flow_service.go\<close>, \<open>workflow_node_script.go\<close>).

  What a node does outside the engine is a field of \<open>engine_env\<close>: the decision model, the
  script interpreter, the function runtimes, the HTTP call, the subagent jobs, the files a
  handoff or a human task is written to. The clock is read once per operation. Events are
  written to a log that the engine never reads and are not part of the state.
\<close>

section \<open>The world outside\<close>

datatype script_result =
    ScriptEnvError string
  | ScriptRan string string int "string option"

record decision_answer =
  da_Choice :: string
  da_Confidence :: rat
  da_Calibrated :: bool
  da_Score :: rat
  da_Model :: string
  da_LatencyMS :: int
  da_Raw :: outputs

text \<open>A failed service call: its message and, when it is a \<open>workflowServiceFailure\<close>, the retry kind.\<close>

record service_failure =
  sf_Message :: string
  sf_RetryKind :: "string option"

record subagent_job =
  jb_Status :: string
  jb_Result :: string
  jb_Error :: string

text \<open>
  \<open>en_text\<close> renders an error (\<open>err.Error()\<close>), \<open>en_preview\<close> cuts a text to the preview length,
  \<open>en_json\<close> encodes a value, \<open>en_decode\<close> decodes a text, \<open>en_duration\<close> prints a duration
  rounded to seconds. \<open>en_handoff\<close> writes the handoff file
  of a node and returns its digest; \<open>en_start\<close> assembles the prompt, resolves the agent
  reference and starts the job of a node, and returns its id. \<open>en_save\<close> is the error of writing
  a state; \<open>en_done\<close> says whether the context of the caller is done by the time the run is in a
  state.
\<close>

record engine_env =
  en_float :: "rat \<Rightarrow> string"
  en_decode :: "string \<Rightarrow> json option"
  en_json :: "json \<Rightarrow> string"
  en_preview :: "string \<Rightarrow> string"
  en_text :: "go_error \<Rightarrow> string"
  en_duration :: "int \<Rightarrow> string"
  en_handoff :: "string \<Rightarrow> workflow_node \<Rightarrow> string \<Rightarrow> string + string"
  en_script :: "workflow_state \<Rightarrow> workflow_node \<Rightarrow> string \<Rightarrow> script_result"
  en_decide :: "workflow_node \<Rightarrow> (string + decision_answer) option"
  en_function :: "workflow_function_spec \<Rightarrow> json \<Rightarrow> string + json"
  en_service :: "workflow_state \<Rightarrow> workflow_service_spec \<Rightarrow> service_failure + outputs"
  en_human :: "workflow_state \<Rightarrow> workflow_node \<Rightarrow> string + string"
  en_start :: "workflow_state \<Rightarrow> workflow_node \<Rightarrow> string + string"
  en_job :: "string \<Rightarrow> subagent_job option"
  en_save :: "workflow_state \<Rightarrow> go_error option"
  en_done :: "workflow_state \<Rightarrow> bool"

section \<open>Shared steps\<close>

definition workflowNodeByID :: "workflow_node list \<Rightarrow> string \<Rightarrow> workflow_node option" where
  "workflowNodeByID nodes i = find (\<lambda>n. wn_ID n = trim_space i) nodes"

definition validateWorkflowOutputSpecs :: "workflow_var_def list \<Rightarrow> outputs \<Rightarrow> string \<Rightarrow> go_error option" where
  "validateWorkflowOutputSpecs specs values path =
    (if length specs = 0 then None
     else ValidateVariableValues (map (\<lambda>v. \<lparr>v_Name = wv_Name v, v_Type = wv_Type v, v_Desc = wv_Desc v,
            v_Required = wv_Required v, v_Source = [], v_Schema = wv_Schema v\<rparr>) specs) values path False)"

definition nextWorkflowAttempt :: "workflow_node \<Rightarrow> int" where
  "nextWorkflowAttempt node = (if wn_Attempt node > 0 then wn_Attempt node else 1)"

text \<open>
  \<open>filepath.Join\<close> cleans the path it builds; the text below is its result for a node id that is a
  plain file name. Writing a handoff copies the verdict and the artifact references of the node,
  which is why they do not change.
\<close>

definition workflowHandoffRef :: "string \<Rightarrow> int \<Rightarrow> string" where
  "workflowHandoffRef nodeID attempt =
    ''handoffs/'' @ nodeID @ ''/'' @ itoa (if attempt \<le> 0 then 1 else attempt) @ ''.json''"

definition finalizeWorkflowNodeHandoff ::
  "engine_env \<Rightarrow> workflow_state \<Rightarrow> workflow_node \<Rightarrow> string \<Rightarrow> workflow_node \<times> string option" where
  "finalizeWorkflowNodeHandoff env st node0 resultText =
    (if \<not> blank (wn_HandoffRef node0) then (node0, None)
     else
       let node1 = node0\<lparr>wn_Attempt := nextWorkflowAttempt node0\<rparr>;
           preset = normalizeWorkflowVerdict (wn_Verdict node1);
           node2 = node1\<lparr>wn_Verdict := (if preset \<noteq> [] then preset
             else workflowVerdictForTerminal (en_decode env) (wn_Status node1) resultText (wn_Error node1))\<rparr>
       in (case en_handoff env (su_ID (ws_Summary st)) node2 resultText of
             Inl e \<Rightarrow> (node2, Some e)
           | Inr digest \<Rightarrow>
               (node2\<lparr>wn_HandoffRef := workflowHandoffRef (wn_ID node2) (wn_Attempt node2),
                      wn_HandoffDigest := digest\<rparr>, None)))"

text \<open>The way every executor ends a node that failed or completed.\<close>

definition fail_node :: "engine_env \<Rightarrow> workflow_state \<Rightarrow> int \<Rightarrow> string \<Rightarrow> workflow_node \<Rightarrow> workflow_node" where
  "fail_node env st now message node =
    (let node1 = node\<lparr>wn_Status := ''error'', wn_Error := message, wn_UpdatedAt := now, wn_FinishedAt := now\<rparr>;
         (node2, err) = finalizeWorkflowNodeHandoff env st node1 []
     in (case err of None \<Rightarrow> node2 | Some e \<Rightarrow> node2\<lparr>wn_Error := e\<rparr>))"

definition failWorkflowNode :: "engine_env \<Rightarrow> workflow_state \<Rightarrow> int \<Rightarrow> string \<Rightarrow> workflow_node \<Rightarrow> workflow_node" where
  "failWorkflowNode env st now message node =
    fail_node env st now message (node\<lparr>wn_Attempt := nextWorkflowAttempt node, wn_JobID := []\<rparr>)"

definition complete_node ::
  "engine_env \<Rightarrow> workflow_state \<Rightarrow> int \<Rightarrow> outputs \<Rightarrow> string \<Rightarrow> workflow_node \<Rightarrow> workflow_node \<times> bool" where
  "complete_node env st now outs payload node =
    (let node1 = node\<lparr>wn_Status := ''completed'', wn_Outputs := outs,
           wn_Error := [], wn_JobID := [], wn_UpdatedAt := now, wn_FinishedAt := now,
           wn_ResultPreview := en_preview env payload\<rparr>;
         (node2, err) = finalizeWorkflowNodeHandoff env st node1 payload
     in (case err of None \<Rightarrow> (node2, True) | Some e \<Rightarrow> (node2\<lparr>wn_Status := ''error'', wn_Error := e\<rparr>, False)))"

definition contract_error :: "engine_env \<Rightarrow> go_error \<Rightarrow> string" where
  "contract_error env e = ''output contract violation: '' @ en_text env e"

definition outputs_path :: "workflow_node \<Rightarrow> string" where
  "outputs_path node = ''node '' @ wn_ID node @ '' outputs''"

text \<open>A map write: the key keeps its place when it is there.\<close>

definition put :: "string \<Rightarrow> 'v \<Rightarrow> (string \<times> 'v) list \<Rightarrow> (string \<times> 'v) list" where
  "put k v m = (if map_of m k = None then m @ [(k, v)] else map (\<lambda>(k', v'). if k' = k then (k, v) else (k', v')) m)"

definition put_all :: "(string \<times> 'v) list \<Rightarrow> (string \<times> 'v) list \<Rightarrow> (string \<times> 'v) list" where
  "put_all kvs m = foldl (\<lambda>m (k, v). put k v m) m kvs"

section \<open>Scripts\<close>

definition runPreScript :: "engine_env \<Rightarrow> workflow_state \<Rightarrow> workflow_node \<Rightarrow> workflow_node \<times> string option" where
  "runPreScript env st node =
    (if blank (wn_PreScript node) then (node, None)
     else (case en_script env st node (wn_PreScript node) of
       ScriptEnvError e \<Rightarrow> (node, Some (''pre_script env: '' @ e))
     | ScriptRan stdout stderr code err \<Rightarrow>
         (node\<lparr>wn_ScriptOutput := put_all [(''pre_stdout'', JStr stdout), (''pre_stderr'', JStr stderr),
             (''pre_exit'', JNum (of_int code))] (wn_ScriptOutput node)\<rparr>,
          (case err of None \<Rightarrow> None
           | Some _ \<Rightarrow> Some (''pre_script failed (exit '' @ itoa code @ ''): '' @ trim_space stderr)))))"

definition runPostScript :: "engine_env \<Rightarrow> workflow_state \<Rightarrow> workflow_node \<Rightarrow> workflow_node" where
  "runPostScript env st node =
    (if blank (wn_PostScript node) then node
     else node\<lparr>wn_ScriptOutput := put_all
       (case en_script env st node (wn_PostScript node) of
          ScriptEnvError e \<Rightarrow> [(''post_error'', JStr e)]
        | ScriptRan stdout stderr code err \<Rightarrow>
            [(''post_stdout'', JStr stdout), (''post_stderr'', JStr stderr), (''post_exit'', JNum (of_int code))] @
            (case err of None \<Rightarrow> [] | Some e \<Rightarrow> [(''post_error'', JStr e)])) (wn_ScriptOutput node)\<rparr>)"

section \<open>Branch gateways\<close>

definition branch_route :: "engine_env \<Rightarrow> workflow_branch_spec \<Rightarrow> workflow_node \<Rightarrow> string" where
  "branch_route env spec src =
    (case find (\<lambda>c. workflowConditionMatchesNode (en_float env) (wbc_Condition c) src) (wb_Cases spec) of
       None \<Rightarrow> ''default'' | Some c \<Rightarrow> wbc_Name c)"

definition completeWorkflowBranch ::
  "engine_env \<Rightarrow> workflow_state \<Rightarrow> int \<Rightarrow> string \<Rightarrow> workflow_node \<Rightarrow> workflow_node" where
  "completeWorkflowBranch env st now route node =
    (let outs = [(''choice'', JStr route)] in
     case validateWorkflowOutputSpecs (wn_OutputSpec node) outs (outputs_path node) of
       Some e \<Rightarrow> failWorkflowNode env st now (contract_error env e) node
     | None \<Rightarrow> fst (complete_node env st now outs (en_json env (JObj outs))
         (node\<lparr>wn_Attempt := nextWorkflowAttempt node\<rparr>)))"

definition executeWorkflowBranch :: "engine_env \<Rightarrow> workflow_state \<Rightarrow> int \<Rightarrow> workflow_node \<Rightarrow> workflow_node" where
  "executeWorkflowBranch env st now node =
    (case wn_BranchSpec node of
       None \<Rightarrow> failWorkflowNode env st now ''branch node missing spec'' node
     | Some spec \<Rightarrow>
         (case workflowNodeByID (ws_Nodes st) (wb_Source spec) of
            None \<Rightarrow> failWorkflowNode env st now (en_text env (Errorf ''branch source node %q not found'' [wb_Source spec])) node
          | Some src \<Rightarrow> completeWorkflowBranch env st now (branch_route env spec src) node))"

section \<open>Decisions\<close>

definition decision_outputs :: "decision_answer \<Rightarrow> outputs" where
  "decision_outputs r =
    [(''choice'', JStr (da_Choice r)), (''confidence'', JNum (da_Confidence r)), (''calibrated'', JBool (da_Calibrated r))] @
    (if da_Score r \<noteq> 0 then [(''score'', JNum (da_Score r))] else []) @
    (if da_Model r \<noteq> [] then [(''model'', JStr (da_Model r))] else []) @
    [(''latency_ms'', JNum (of_int (da_LatencyMS r)))]"

definition decision_result :: "decision_answer \<Rightarrow> string \<Rightarrow> workflow_decision_result" where
  "decision_result r errText = \<lparr>wdr_Choice = da_Choice r, wdr_Confidence = da_Confidence r,
     wdr_Calibrated = da_Calibrated r, wdr_Score = da_Score r, wdr_Model = da_Model r,
     wdr_LatencyMS = da_LatencyMS r, wdr_Error = errText, wdr_Raw = da_Raw r\<rparr>"

text \<open>The JSON of a result as \<open>json.Marshal\<close> writes it, with its \<open>omitempty\<close> fields.\<close>

definition result_json :: "workflow_decision_result \<Rightarrow> json" where
  "result_json r = JObj ([(''choice'', JStr (wdr_Choice r)), (''confidence'', JNum (wdr_Confidence r)),
     (''calibrated'', JBool (wdr_Calibrated r))] @
     (if wdr_Score r \<noteq> 0 then [(''score'', JNum (wdr_Score r))] else []) @
     (if wdr_Model r \<noteq> [] then [(''model'', JStr (wdr_Model r))] else []) @
     [(''latency_ms'', JNum (of_int (wdr_LatencyMS r)))] @
     (if wdr_Error r \<noteq> [] then [(''error'', JStr (wdr_Error r))] else []) @
     (if wdr_Raw r \<noteq> [] then [(''raw'', JObj (wdr_Raw r))] else []))"

definition completeWorkflowDecision ::
  "engine_env \<Rightarrow> workflow_state \<Rightarrow> int \<Rightarrow> decision_answer \<Rightarrow> string \<Rightarrow> workflow_node \<Rightarrow> workflow_node" where
  "completeWorkflowDecision env st now r errText node =
    (let result = decision_result r errText;
         outs = decision_outputs r @ (if errText \<noteq> [] then [(''error'', JStr errText)] else []);
         node1 = node\<lparr>wn_Status := ''completed'', wn_Attempt := nextWorkflowAttempt node, wn_Decision := Some result\<rparr> in
     case validateWorkflowOutputSpecs (wn_OutputSpec node) outs (outputs_path node) of
       Some e \<Rightarrow> failWorkflowNode env st now (contract_error env e) node1
     | None \<Rightarrow> fst (complete_node env st now outs (en_json env (result_json result))
         (node1\<lparr>wn_Verdict := (if da_Choice r = ''__decision_error__'' then ''blocked'' else wn_Verdict node1)\<rparr>)))"

definition scheduleWorkflowNodeRetry :: "int \<Rightarrow> int \<Rightarrow> int \<Rightarrow> workflow_node \<Rightarrow> workflow_node" where
  "scheduleWorkflowNodeRetry now executedAttempts delay node =
    node\<lparr>wn_Status := ''pending'', wn_JobID := [], wn_Error := [], wn_Verdict := [], wn_HandoffRef := [],
      wn_HandoffDigest := [], wn_ArtifactRefs := [], wn_FinishedAt := 0, wn_Attempt := executedAttempts,
      wn_NextRetryAt := now + delay, wn_UpdatedAt := now\<rparr>"

definition fallback_answer :: "string \<Rightarrow> decision_answer" where
  "fallback_answer choice = \<lparr>da_Choice = choice, da_Confidence = 0, da_Calibrated = False, da_Score = 0,
     da_Model = [], da_LatencyMS = 0, da_Raw = []\<rparr>"

definition handleWorkflowDecisionFailure ::
  "engine_env \<Rightarrow> workflow_state \<Rightarrow> int \<Rightarrow> string \<Rightarrow> workflow_node \<Rightarrow> workflow_node" where
  "handleWorkflowDecisionFailure env st now errText node =
    (let executedAttempts = nextWorkflowAttempt node;
         (retry, delay) = shouldWorkflowRetry (wn_Retry node) executedAttempts (classifyDecisionFailure (Some errText));
         mode = (case wn_DecisionSpec node of
                   Some spec \<Rightarrow> if wd_OnError spec \<noteq> [] then wd_OnError spec else ''fail_closed''
                 | None \<Rightarrow> ''fail_closed'') in
     if retry then scheduleWorkflowNodeRetry now executedAttempts delay node
     else if mode = ''fail_open'' then
       completeWorkflowDecision env st now
         (fallback_answer (case wn_DecisionSpec node of None \<Rightarrow> [] | Some spec \<Rightarrow> wd_DefaultChoice spec)) errText node
     else if mode = ''fail'' then failWorkflowNode env st now errText node
     else completeWorkflowDecision env st now (fallback_answer ''__decision_error__'') errText node)"

text \<open>\<open>decision.ErrNoCaller\<close>.\<close>

abbreviation err_no_caller :: string where
  "err_no_caller \<equiv> ''decision: no decision caller configured; enable agent.decision.enabled (+ agent.decision.provider) to use the structured decision model''"

definition executeWorkflowDecision :: "engine_env \<Rightarrow> workflow_state \<Rightarrow> int \<Rightarrow> workflow_node \<Rightarrow> workflow_node" where
  "executeWorkflowDecision env st now node =
    (case wn_DecisionSpec node of
       None \<Rightarrow> failWorkflowNode env st now ''decision node missing spec'' node
     | Some spec \<Rightarrow>
         (case en_decide env node of
            None \<Rightarrow> handleWorkflowDecisionFailure env st now err_no_caller node
          | Some (Inl e) \<Rightarrow> handleWorkflowDecisionFailure env st now e node
          | Some (Inr r) \<Rightarrow> completeWorkflowDecision env st now r [] node))"

section \<open>Code nodes\<close>

definition workflowFunctionContext :: "workflow_state \<Rightarrow> workflow_node \<Rightarrow> json" where
  "workflowFunctionContext st node =
    JObj [(''node'', JObj [(''id'', JStr (wn_ID node)), (''title'', JStr (wn_Title node))]),
          (''inputs'', JObj (su_RunInputs (ws_Summary st))),
          (''outputs'', JObj (put_all (map (\<lambda>n. (wn_ID n, JObj (wn_Outputs n)))
             (filter (\<lambda>n. wn_ID n \<noteq> wn_ID node \<and> length (wn_Outputs n) > 0) (ws_Nodes st))) []))]"

definition completeWorkflowFunction ::
  "engine_env \<Rightarrow> workflow_state \<Rightarrow> int \<Rightarrow> outputs \<Rightarrow> workflow_node \<Rightarrow> workflow_node" where
  "completeWorkflowFunction env st now result node =
    (case validateWorkflowOutputSpecs (wn_OutputSpec node) result (outputs_path node) of
       Some e \<Rightarrow> failWorkflowNode env st now (contract_error env e) node
     | None \<Rightarrow>
         let (node1, ok) = complete_node env st now result (en_json env (JObj result))
               (node\<lparr>wn_Attempt := nextWorkflowAttempt node\<rparr>)
         in if ok then runPostScript env st node1 else node1)"

text \<open>A handler that returns an array: the objects among its elements, their number, and the fields of the last one.\<close>

fun json_objects :: "json list \<Rightarrow> outputs list" where
  "json_objects [] = []"
| "json_objects (JObj m # js) = m # json_objects js"
| "json_objects (j # js) = json_objects js"

definition function_outputs :: "json \<Rightarrow> outputs" where
  "function_outputs raw =
    (case raw of
       JArr items \<Rightarrow>
         let events = json_objects items;
             outs = [(''events'', JMaps (map JObj events)), (''count'', JNum (of_int (int (length events))))]
         in if length events > 0 then put_all (last events) outs else outs
     | JObj m \<Rightarrow> m
     | _ \<Rightarrow> [(''result'', raw)])"

definition executeWorkflowFunction :: "engine_env \<Rightarrow> workflow_state \<Rightarrow> int \<Rightarrow> workflow_node \<Rightarrow> workflow_node" where
  "executeWorkflowFunction env st now node =
    (case wn_FunctionSpec node of
       None \<Rightarrow> failWorkflowNode env st now ''function node missing spec'' node
     | Some spec \<Rightarrow>
         let handlerCtx = workflowFunctionContext st node in
         (case ValidateJSONSchemaValue handlerCtx (wf_InputSchema spec) ''function input'' of
            Some e \<Rightarrow> failWorkflowNode env st now (''input contract violation: '' @ en_text env e) node
          | None \<Rightarrow>
              (case en_function env spec handlerCtx of
                 Inl e \<Rightarrow> failWorkflowNode env st now e node
               | Inr raw \<Rightarrow>
                   (case ValidateJSONSchemaValue raw (wf_OutputSchema spec) ''function output'' of
                      Some e \<Rightarrow> failWorkflowNode env st now (contract_error env e) node
                    | None \<Rightarrow> completeWorkflowFunction env st now (function_outputs raw) node))))"

section \<open>Service calls and human tasks\<close>

definition failWorkflowServiceNode :: "engine_env \<Rightarrow> workflow_state \<Rightarrow> int \<Rightarrow> string \<Rightarrow> workflow_node \<Rightarrow> workflow_node" where
  "failWorkflowServiceNode env st now message node = fail_node env st now message (node\<lparr>wn_JobID := []\<rparr>)"

definition completeWorkflowService ::
  "engine_env \<Rightarrow> workflow_state \<Rightarrow> int \<Rightarrow> outputs \<Rightarrow> workflow_node \<Rightarrow> workflow_node" where
  "completeWorkflowService env st now result node =
    (case validateWorkflowOutputSpecs (wn_OutputSpec node) result (outputs_path node) of
       Some e \<Rightarrow> failWorkflowServiceNode env st now (contract_error env e) node
     | None \<Rightarrow>
         let (node1, ok) = complete_node env st now result (en_json env (JObj result)) node
         in if ok then runPostScript env st node1 else node1)"

definition executeWorkflowService :: "engine_env \<Rightarrow> workflow_state \<Rightarrow> int \<Rightarrow> workflow_node \<Rightarrow> workflow_node" where
  "executeWorkflowService env st now node =
    (case wn_ServiceSpec node of
       None \<Rightarrow> failWorkflowServiceNode env st now ''service node missing spec'' node
     | Some spec \<Rightarrow>
         (case en_service env st spec of
            Inr outs \<Rightarrow> completeWorkflowService env st now outs node
          | Inl failure \<Rightarrow>
              (case sf_RetryKind failure of
                 None \<Rightarrow> failWorkflowServiceNode env st now ''service request failed'' node
               | Some kind \<Rightarrow>
                   let (retry, delay) = shouldWorkflowRetry (wn_Retry node) (wn_Attempt node) kind in
                   if retry then scheduleWorkflowNodeRetry now (wn_Attempt node) delay node
                   else failWorkflowServiceNode env st now (sf_Message failure) node)))"

definition registerWorkflowHumanTask :: "engine_env \<Rightarrow> workflow_state \<Rightarrow> workflow_node \<Rightarrow> workflow_node \<times> string option" where
  "registerWorkflowHumanTask env st node =
    (if wn_HumanSpec node = None \<or> \<not> blank (wn_HumanTaskID node) then (node, None)
     else (case en_human env st node of
       Inl e \<Rightarrow> (node, Some e)
     | Inr taskID \<Rightarrow> (node\<lparr>wn_HumanTaskID := taskID\<rparr>, None)))"

section \<open>Starting a node\<close>

definition start_user_input :: "engine_env \<Rightarrow> workflow_state \<Rightarrow> int \<Rightarrow> workflow_node \<Rightarrow> workflow_node" where
  "start_user_input env st now node =
    (let (node1, err) = registerWorkflowHumanTask env st node in
     case err of
       Some e \<Rightarrow> node1\<lparr>wn_Status := ''error'', wn_Error := e, wn_FinishedAt := now, wn_UpdatedAt := now\<rparr>
     | None \<Rightarrow> node1\<lparr>wn_Status := ''waiting_human'', wn_UpdatedAt := now\<rparr>)"

definition start_job :: "engine_env \<Rightarrow> workflow_state \<Rightarrow> int \<Rightarrow> workflow_node \<Rightarrow> workflow_node" where
  "start_job env st now node =
    (case en_start env st node of
       Inl e \<Rightarrow> fail_node env st now e node
     | Inr jobID \<Rightarrow> node\<lparr>wn_Status := ''running'', wn_JobID := jobID, wn_UpdatedAt := now\<rparr>)"

text \<open>
  The node as \<open>startWorkflowNode\<close> leaves it. The executors read the state with the node as it
  is when they are called, so the counted attempt is written back first.
\<close>

definition store_node :: "nat \<Rightarrow> workflow_node \<Rightarrow> workflow_state \<Rightarrow> workflow_state" where
  "store_node k node st = st\<lparr>ws_Nodes := (ws_Nodes st)[k := node]\<rparr>"

definition run_node :: "engine_env \<Rightarrow> workflow_state \<Rightarrow> int \<Rightarrow> workflow_node \<Rightarrow> workflow_node" where
  "run_node env st now node =
    (let kind = normalizeWorkflowNodeKind (wn_Kind node) (wn_ID node) in
     if kind = ''decision'' then executeWorkflowDecision env st now node
     else if kind = ''branch'' then executeWorkflowBranch env st now node
     else if kind = ''user_input'' then start_user_input env st now node
     else if kind = ''function'' then executeWorkflowFunction env st now node
     else if kind = ''service'' then executeWorkflowService env st now node
     else start_job env st now node)"

definition startWorkflowNode :: "engine_env \<Rightarrow> int \<Rightarrow> nat \<Rightarrow> workflow_state \<Rightarrow> workflow_state" where
  "startWorkflowNode env now k st =
    (let node = ws_Nodes st ! k in
     if wn_Status node \<noteq> ''pending'' then st
     else
       let node1 = node\<lparr>wn_Attempt := wrap64 (wn_Attempt node + 1),
             wn_StartedAt := (if wn_StartedAt node = 0 then now else wn_StartedAt node)\<rparr>;
           (node2, err) = runPreScript env (store_node k node1 st) node1;
           st2 = store_node k node2 st
       in store_node k (case err of Some e \<Rightarrow> fail_node env st2 now e node2 | None \<Rightarrow> run_node env st2 now node2) st)"

end
