(* ===== verification/Workflow_Engine.thy ===== *)
theory Workflow_Engine
  imports Workflow_Exec
begin

text \<open>
  The scheduler of the durable workflow engine (\<open>src/internal/agent/workflow.go\<close>): control
  edges, run status, deadlines, run outputs, and the operations the tool and the flow API call.

  \<open>expandWorkflowEdgeAppend\<close> copies the template struct but not its slices, so expanding a
  template rewrites the \<open>depends_on\<close>, \<open>handoff_from\<close> and \<open>write_scope\<close> entries of the edge the
  template belongs to. The model returns the rewritten template and stores it back in the edge.
\<close>

section \<open>Control edges\<close>

definition has_source :: "workflow_edge \<Rightarrow> workflow_node \<Rightarrow> bool" where
  "has_source e node \<longleftrightarrow> we_From e \<noteq> [] \<or> we_FromPrefix e \<noteq> [] \<or> we_FromKind e \<noteq> []"

text \<open>\<open>strconv.Atoi\<close>: an optional sign and decimal digits, an error outside the range of \<open>int\<close>.\<close>

definition digit_value :: "char \<Rightarrow> int option" where
  "digit_value c = (if char_in CHR ''0'' CHR ''9'' c then Some (int (of_char c) - 48) else None)"

fun digits_value :: "int \<Rightarrow> string \<Rightarrow> int option" where
  "digits_value acc [] = Some acc"
| "digits_value acc (c # s) =
    (case digit_value c of None \<Rightarrow> None | Some d \<Rightarrow> digits_value (10 * acc + d) s)"

definition atoi :: "string \<Rightarrow> int option" where
  "atoi s =
    (let (sign, ds) = (case s of c # r \<Rightarrow> if c = CHR ''-'' then (-1, r) else if c = CHR ''+'' then (1, r) else (1, s)
                       | [] \<Rightarrow> (1, s))
     in if ds = [] then None
        else (case digits_value 0 ds of
          None \<Rightarrow> None
        | Some v \<Rightarrow> if - (2 ^ 63) \<le> sign * v \<and> sign * v < 2 ^ 63 then Some (sign * v) else None))"

definition workflowEdgeMatchesSource :: "workflow_edge \<Rightarrow> workflow_node \<Rightarrow> bool" where
  "workflowEdgeMatchesSource e node =
    (if we_From e \<noteq> [] \<and> we_From e \<noteq> wn_ID node then False
     else if we_FromPrefix e \<noteq> [] \<and>
         (\<not> has_prefix (wn_ID node) (we_FromPrefix e) \<or>
          (case atoi (trim_prefix (wn_ID node) (we_FromPrefix e)) of None \<Rightarrow> True | Some k \<Rightarrow> k < 1)) then False
     else if we_FromKind e \<noteq> [] \<and> we_FromKind e \<noteq> normalizeWorkflowNodeKind (wn_Kind node) (wn_ID node) then False
     else has_source e node)"

definition workflowProcessedEdgeKey :: "string \<Rightarrow> string \<Rightarrow> string" where
  "workflowProcessedEdgeKey edgeID nodeID = trim_space edgeID @ ''|'' @ trim_space nodeID"

definition expand_text :: "string \<Rightarrow> int \<Rightarrow> string \<Rightarrow> string" where
  "expand_text sourceID iteration s = replace_all (replace_all s ''{source}'' sourceID) ''{iteration}'' (itoa iteration)"

text \<open>The expanded input and the template as the expansion leaves it.\<close>

definition expandWorkflowEdgeAppend ::
  "workflow_node_input \<Rightarrow> string \<Rightarrow> int \<Rightarrow> workflow_node_input \<times> workflow_node_input" where
  "expandWorkflowEdgeAppend input sourceID iteration =
    (let r = expand_text sourceID iteration;
         template = input\<lparr>ni_DependsOn := map r (ni_DependsOn input), ni_HandoffFrom := map r (ni_HandoffFrom input),
           ni_WriteScope := map r (ni_WriteScope input)\<rparr>
     in (template\<lparr>ni_ID := r (ni_ID input), ni_Kind := r (ni_Kind input), ni_Title := r (ni_Title input),
           ni_Prompt := r (ni_Prompt input), ni_AgentType := r (ni_AgentType input)\<rparr>, template))"

definition set_summary :: "(workflow_summary \<Rightarrow> workflow_summary) \<Rightarrow> workflow_state \<Rightarrow> workflow_state" where
  "set_summary f st = st\<lparr>ws_Summary := f (ws_Summary st)\<rparr>"

fun mark_error :: "int \<Rightarrow> string \<Rightarrow> string \<Rightarrow> workflow_node list \<Rightarrow> workflow_node list" where
  "mark_error now nodeID message [] = []"
| "mark_error now nodeID message (n # ns) =
    (if wn_ID n \<noteq> nodeID then n # mark_error now nodeID message ns
     else n\<lparr>wn_Status := ''error'', wn_Error := trim_space message, wn_UpdatedAt := now,
            wn_FinishedAt := (if wn_FinishedAt n = 0 then now else wn_FinishedAt n)\<rparr> # ns)"

definition markWorkflowNodeError :: "int \<Rightarrow> string \<Rightarrow> string \<Rightarrow> workflow_state \<Rightarrow> workflow_state" where
  "markWorkflowNodeError now nodeID message st = st\<lparr>ws_Nodes := mark_error now nodeID message (ws_Nodes st)\<rparr>"

definition appendWorkflowNodesFromEdge ::
  "int \<Rightarrow> workflow_state \<Rightarrow> workflow_node_input list \<Rightarrow> go_error + workflow_state" where
  "appendWorkflowNodesFromEdge now st inputs =
    (if length (ws_Nodes st) + length inputs > workflowMaxNodes
     then Inl (Errorf ''workflow node limit is %d'' [itoa (int workflowMaxNodes)])
     else (case workflowNodesFromInputs inputs (remdups (map wn_ID (ws_Nodes st))) now of
       Inl e \<Rightarrow> Inl e
     | Inr new \<Rightarrow>
         let combined = ws_Nodes st @ new in
         (case andthen (validateWorkflowDeps combined) (validateWorkflowEdges (ws_Edges st) combined) of
            Some e \<Rightarrow> Inl e
          | None \<Rightarrow> Inr (st\<lparr>ws_Nodes := combined\<rparr>))))"

definition iteration_key :: "workflow_edge \<Rightarrow> string" where
  "iteration_key e = (if blank (we_IterationKey e) then we_ID e else trim_space (we_IterationKey e))"

definition iterations :: "workflow_state \<Rightarrow> string \<Rightarrow> int" where
  "iterations st key = (case map_of (su_EdgeIterations (ws_Summary st)) key of None \<Rightarrow> 0 | Some k \<Rightarrow> k)"

definition processed :: "workflow_state \<Rightarrow> string \<Rightarrow> bool" where
  "processed st key \<longleftrightarrow> key \<in> set (su_ProcessedEdges (ws_Summary st))"

text \<open>The edge fires: the iteration cap, or one more node.\<close>

definition fire_edge :: "int \<Rightarrow> nat \<Rightarrow> workflow_node \<Rightarrow> workflow_state \<Rightarrow> go_error + workflow_state" where
  "fire_edge now k node st =
    (let e = ws_Edges st ! k; key = iteration_key e; current = iterations st key;
         maxIterations = normalizeWorkflowEdgeMaxIterations (we_MaxIterations e) in
     if current \<ge> maxIterations then
       Inr (set_summary (\<lambda>s. s\<lparr>su_Status := ''error'', su_UpdatedAt := now\<rparr>)
         (markWorkflowNodeError now (wn_ID node)
           (''workflow edge '' @ we_ID e @ '' reached iteration cap '' @ itoa maxIterations) st))
     else
       let iteration = wrap64 (current + 1);
           (input, template) = expandWorkflowEdgeAppend (we_Append e) (wn_ID node) iteration;
           input = (if blank (ni_ID input) then input\<lparr>ni_ID := wn_ID node @ ''_'' @ itoa iteration\<rparr> else input);
           st1 = st\<lparr>ws_Edges := (ws_Edges st)[k := e\<lparr>we_Append := template\<rparr>]\<rparr>
       in (case appendWorkflowNodesFromEdge now st1 [input] of
             Inl err \<Rightarrow> Inl err
           | Inr st2 \<Rightarrow> Inr (set_summary (\<lambda>s. s\<lparr>su_EdgeIterations := put key iteration (su_EdgeIterations s)\<rparr>) st2)))"

text \<open>One turn of the inner loop; the flag is the source's \<open>changed\<close>.\<close>

definition process_edge ::
  "engine_env \<Rightarrow> int \<Rightarrow> workflow_node \<Rightarrow> bool \<times> workflow_state \<Rightarrow> nat \<Rightarrow> go_error + bool \<times> workflow_state" where
  "process_edge env now node s k =
    (let (changed, st) = s; e = ws_Edges st ! k; key = workflowProcessedEdgeKey (we_ID e) (wn_ID node) in
     if \<not> workflowEdgeMatchesSource e node then Inr (changed, st)
     else if processed st key then Inr (changed, st)
     else
       let st1 = set_summary (\<lambda>s. s\<lparr>su_ProcessedEdges := su_ProcessedEdges s @ [key]\<rparr>) st in
       if \<not> workflowEdgeConditionMatchesState (en_float env) (ws_Nodes st1) (we_When e) node then Inr (True, st1)
       else map_sum id (Pair True) (fire_edge now k node st1))"

definition process_node ::
  "engine_env \<Rightarrow> int \<Rightarrow> bool \<times> workflow_state \<Rightarrow> workflow_node \<Rightarrow> go_error + bool \<times> workflow_state" where
  "process_node env now s node =
    (if \<not> workflowNodeTerminal (wn_Status node) then Inr s
     else each_st (process_edge env now node) s [0..<length (ws_Edges (snd s))])"

section \<open>Run status\<close>

definition count_status :: "string \<Rightarrow> workflow_node list \<Rightarrow> nat" where
  "count_status status nodes = length (filter (\<lambda>n. wn_Status n = status) nodes)"

definition refreshWorkflowStatus :: "workflow_state \<Rightarrow> workflow_state" where
  "refreshWorkflowStatus st =
    (let s = ws_Summary st; nodes = ws_Nodes st; completed = count_status ''completed'' nodes;
         canceled = count_status ''canceled'' nodes in
     if \<not> blank (su_Error s) then set_summary (\<lambda>s. s\<lparr>su_Status := ''error''\<rparr>) st
     else if length nodes = 0 then set_summary (\<lambda>s. s\<lparr>su_Status := ''pending''\<rparr>) st
     else if count_status ''error'' nodes > 0 then
       set_summary (\<lambda>s. s\<lparr>su_Status := ''error'',
         su_Error := (case find (\<lambda>n. wn_Status n = ''error'') nodes of
           None \<Rightarrow> su_Error s | Some n \<Rightarrow> ''node '' @ wn_ID n @ '': '' @ wn_Error n)\<rparr>) st
     else if completed = length nodes then set_summary (\<lambda>s. s\<lparr>su_Status := ''completed''\<rparr>) st
     else if canceled > 0 \<and> completed + canceled = length nodes then set_summary (\<lambda>s. s\<lparr>su_Status := ''canceled''\<rparr>) st
     else if count_status ''running'' nodes > 0 \<or> completed > 0 \<or> count_status ''waiting_human'' nodes > 0
     then set_summary (\<lambda>s. s\<lparr>su_Status := ''running''\<rparr>) st
     else set_summary (\<lambda>s. s\<lparr>su_Status := ''pending''\<rparr>) st)"

definition processWorkflowEdges :: "engine_env \<Rightarrow> int \<Rightarrow> workflow_state \<Rightarrow> go_error + bool \<times> workflow_state" where
  "processWorkflowEdges env now st =
    (if length (ws_Edges st) = 0 then Inr (False, st)
     else (case each_st (process_node env now) (False, st) (ws_Nodes st) of
       Inl e \<Rightarrow> Inl e
     | Inr (changed, st1) \<Rightarrow>
         if changed then
           let st2 = set_summary (\<lambda>s. s\<lparr>su_UpdatedAt := now\<rparr>) st1
           in Inr (True, if su_Status (ws_Summary st2) \<noteq> ''error'' then refreshWorkflowStatus st2 else st2)
         else Inr (False, st1)))"

definition workflowDepsCompleted :: "workflow_node list \<Rightarrow> string list \<Rightarrow> bool" where
  "workflowDepsCompleted nodes deps \<longleftrightarrow>
    list_all (\<lambda>dep. map_of (rev (map (\<lambda>n. (wn_ID n, wn_Status n)) nodes)) (trim_space dep) = Some ''completed'') deps"

definition workflowNodeRetryDue :: "workflow_node \<Rightarrow> int \<Rightarrow> bool" where
  "workflowNodeRetryDue node now \<longleftrightarrow> wn_NextRetryAt node = 0 \<or> \<not> now < wn_NextRetryAt node"

definition node_ready :: "workflow_state \<Rightarrow> int \<Rightarrow> workflow_node \<Rightarrow> bool" where
  "node_ready st now node \<longleftrightarrow> wn_Status node = ''pending'' \<and> workflowDepsCompleted (ws_Nodes st) (wn_DependsOn node) \<and>
     workflowNodeRetryDue node now"


section \<open>Finished jobs\<close>

text \<open>What a finished subagent job makes of its node; \<^const>\<open>None\<close> when the node is left alone.\<close>

definition subagentStatusTerminal :: "string \<Rightarrow> bool" where
  "subagentStatusTerminal status \<longleftrightarrow> status \<in> set [''completed'', ''canceled'', ''interrupted'', ''timeout'', ''error'']"

definition job_outputs :: "engine_env \<Rightarrow> workflow_node \<Rightarrow> string \<Rightarrow> go_error + outputs" where
  "job_outputs env node result =
    (case en_decode env result of
       Some (JObj outs) \<Rightarrow>
         (case validateWorkflowOutputSpecs (wn_OutputSpec node) outs (outputs_path node) of
            Some e \<Rightarrow> Inl e | None \<Rightarrow> Inr outs)
     | Some JNull \<Rightarrow> Inl (Errorf ''expected a non-null JSON object'' [])
     | _ \<Rightarrow> Inl (Errorf ''expected a JSON object: %w'' []))"

text \<open>The node with the status of the job, and the output contract error.\<close>

definition job_status_node :: "engine_env \<Rightarrow> subagent_job \<Rightarrow> workflow_node \<Rightarrow> workflow_node \<times> go_error option" where
  "job_status_node env job node =
    (if jb_Status job = ''completed'' then
       (if length (wn_OutputSpec node) > 0 then
          (case job_outputs env node (jb_Result job) of
             Inl e \<Rightarrow> (node\<lparr>wn_Status := ''error''\<rparr>, Some e)
           | Inr outs \<Rightarrow> (node\<lparr>wn_Status := ''completed'', wn_Outputs := outs\<rparr>, None))
        else (node\<lparr>wn_Status := ''completed''\<rparr>, None))
     else if jb_Status job = ''canceled'' \<or> jb_Status job = ''interrupted'' then (node\<lparr>wn_Status := ''canceled''\<rparr>, None)
     else (node\<lparr>wn_Status := ''error''\<rparr>, None))"

definition finish_job :: "engine_env \<Rightarrow> int \<Rightarrow> workflow_state \<Rightarrow> subagent_job \<Rightarrow> workflow_node \<Rightarrow> workflow_node" where
  "finish_job env now st job node =
    (let (node1, contract) = job_status_node env job node;
         node2 = node1\<lparr>wn_Attempt := nextWorkflowAttempt node1, wn_ResultPreview := en_preview env (jb_Result job),
           wn_Error := (case contract of None \<Rightarrow> jb_Error job | Some e \<Rightarrow> contract_error env e),
           wn_UpdatedAt := now, wn_FinishedAt := now\<rparr>;
         (node3, err) = finalizeWorkflowNodeHandoff env st node2 (jb_Result job);
         node4 = (case err of None \<Rightarrow> node3 | Some e \<Rightarrow> node3\<lparr>wn_Error := e, wn_Status := ''error''\<rparr>)
     in if wn_Status node4 = ''completed'' then runPostScript env st node4 else node4)"

definition refresh_node :: "engine_env \<Rightarrow> int \<Rightarrow> workflow_state \<Rightarrow> workflow_node \<Rightarrow> workflow_node option" where
  "refresh_node env now st node =
    (if wn_Status node \<noteq> ''running'' \<or> blank (wn_JobID node) then None
     else (case en_job env (wn_JobID node) of
       None \<Rightarrow> None
     | Some job \<Rightarrow>
         if \<not> subagentStatusTerminal (jb_Status job) then None
         else
           let (retry, delay) = shouldWorkflowRetry (wn_Retry node) (wn_Attempt node)
                 (classifyWorkflowFailure (jb_Status job) (jb_Error job)) in
           if jb_Status job \<notin> set [''completed'', ''canceled'', ''interrupted''] \<and> retry
           then Some (scheduleWorkflowNodeRetry now (wn_Attempt node) delay node)
           else Some (finish_job env now st job node)))"

definition refresh_at :: "engine_env \<Rightarrow> int \<Rightarrow> bool \<times> workflow_state \<Rightarrow> nat \<Rightarrow> bool \<times> workflow_state" where
  "refresh_at env now s k =
    (let (changed, st) = s in
     case refresh_node env now st (ws_Nodes st ! k) of
       None \<Rightarrow> (changed, st) | Some node \<Rightarrow> (True, store_node k node st))"

definition refreshWorkflowNodes :: "engine_env \<Rightarrow> int \<Rightarrow> workflow_state \<Rightarrow> bool \<times> workflow_state" where
  "refreshWorkflowNodes env now st =
    (let (changed, st1) = foldl (refresh_at env now) (False, st) [0..<length (ws_Nodes st)] in
     if changed then (True, refreshWorkflowStatus (set_summary (\<lambda>s. s\<lparr>su_UpdatedAt := now\<rparr>) st1))
     else (False, st1))"

section \<open>Deadlines and run outputs\<close>

abbreviation timeout_prefix :: string where
  "timeout_prefix \<equiv> ''flow run timed out after ''"

definition timeout_error :: "engine_env \<Rightarrow> workflow_summary \<Rightarrow> string" where
  "timeout_error env s = timeout_prefix @ en_duration env (su_RunTimeoutAt s - su_CreatedAt s)"

definition expire_summary :: "engine_env \<Rightarrow> int \<Rightarrow> workflow_summary \<Rightarrow> workflow_summary" where
  "expire_summary env now s = s\<lparr>su_Error := timeout_error env s, su_Status := ''error'', su_UpdatedAt := now\<rparr>"

definition unfinished :: "string \<Rightarrow> bool" where
  "unfinished status \<longleftrightarrow> status \<in> set [''pending'', ''running'', ''waiting_human'']"

definition expire_node :: "int \<Rightarrow> workflow_node \<Rightarrow> workflow_node" where
  "expire_node now n = (if unfinished (wn_Status n)
     then n\<lparr>wn_Status := ''canceled'', wn_Error := ''flow run deadline exceeded'', wn_FinishedAt := now, wn_UpdatedAt := now\<rparr>
     else n)"

definition expireWorkflowRun :: "engine_env \<Rightarrow> int \<Rightarrow> workflow_state \<Rightarrow> bool \<times> workflow_state" where
  "expireWorkflowRun env now st =
    (let s = ws_Summary st in
     if su_RunTimeoutAt s = 0 \<or> now < su_RunTimeoutAt s then (False, st)
     else if workflowTerminalStatus (su_Status s) then
       (if has_prefix (trim_space (su_Error s)) timeout_prefix then (False, st)
        else if list_ex (\<lambda>n. wn_FinishedAt n \<noteq> 0 \<and> wn_FinishedAt n > su_RunTimeoutAt s) (ws_Nodes st)
        then (True, set_summary (expire_summary env now) st)
        else (False, st))
     else (True, set_summary (expire_summary env now) (st\<lparr>ws_Nodes := map (expire_node now) (ws_Nodes st)\<rparr>)))"

definition run_output :: "workflow_node list \<Rightarrow> outputs \<Rightarrow> var_def \<Rightarrow> go_error + outputs" where
  "run_output nodes values spec =
    (if blank (v_Source spec) then Inr values
     else (case ParseOutputSource (v_Source spec) of
       None \<Rightarrow> Inl (Errorf ''invalid flow output source %q'' [v_Source spec])
     | Some (nodeID, field) \<Rightarrow>
         (case workflowNodeByID nodes nodeID of
            None \<Rightarrow> Inl (Errorf ''flow output %q source node %q was not executed'' [v_Name spec, nodeID])
          | Some node \<Rightarrow>
              (case map_of (wn_Outputs node) field of
                 Some v \<Rightarrow> Inr (put (v_Name spec) v values)
               | None \<Rightarrow>
                   if v_Required spec
                   then Inl (Errorf ''flow output %q is required but source %s has no value'' [v_Name spec, v_Source spec])
                   else Inr values))))"

definition fail_run :: "string \<Rightarrow> workflow_state \<Rightarrow> workflow_state" where
  "fail_run message st = set_summary (\<lambda>s. s\<lparr>su_Error := message, su_Status := ''error''\<rparr>) st"

definition finalizeWorkflowRunOutputs :: "engine_env \<Rightarrow> workflow_state \<Rightarrow> bool \<times> workflow_state" where
  "finalizeWorkflowRunOutputs env st =
    (let s = ws_Summary st in
     if su_Status s \<noteq> ''completed'' \<or> length (su_RunOutputSpec s) = 0 then (False, st)
     else if su_RunOutputsResolved s then (False, st)
     else (case each_st (run_output (ws_Nodes st)) [] (su_RunOutputSpec s) of
       Inl e \<Rightarrow> (True, fail_run (en_text env e) st)
     | Inr values \<Rightarrow>
         (case ValidateVariableValues (su_RunOutputSpec s) values ''outputs'' False of
            Some e \<Rightarrow> (True, fail_run (''flow output contract violation: '' @ en_text env e) st)
          | None \<Rightarrow> (True, set_summary (\<lambda>s. s\<lparr>su_RunOutputs := values, su_RunOutputsResolved := True\<rparr>) st))))"

end
