(* ===== verification/Workflow_Ops.thy ===== *)
theory Workflow_Ops
  imports Workflow_Engine
begin

text \<open>
  The operations of the workflow engine on a stored run (\<open>src/internal/agent/workflow.go\<close>):
  loading, refreshing, advancing, single-stepping, appending, cancelling and completing. Each
  holds the per-run lock from load to save, so an operation is one step from a stored state to a
  stored state; its result is the state that is stored afterwards and what the caller gets.
\<close>

section \<open>Load and save\<close>

text \<open>A value that was encoded and decoded again.\<close>

fun decoded :: "json \<Rightarrow> json" where
  "decoded (JArr vs) = JArr (map decoded vs)"
| "decoded (JMaps vs) = JArr (map decoded vs)"
| "decoded (JObj kvs) = JObj (map (\<lambda>(k, v). (k, decoded v)) kvs)"
| "decoded (JNumber x) = JNum x"
| "decoded j = j"

definition decoded_outputs :: "outputs \<Rightarrow> outputs" where
  "decoded_outputs outs = map (\<lambda>(k, v). (k, decoded v)) outs"

definition load_node :: "workflow_node \<Rightarrow> workflow_node" where
  "load_node n =
    (let policy = normalizeWorkflowHandoffPolicy (wn_HandoffPolicy n) (length (wn_DependsOn n) > 0)
     in n\<lparr>wn_Kind := normalizeWorkflowNodeKind (wn_Kind n) (wn_ID n), wn_HandoffPolicy := policy,
          wn_HandoffFrom := normalizeWorkflowStrings (wn_HandoffFrom n),
          wn_HandoffMaxBytes := normalizeWorkflowHandoffMaxBytes (wn_HandoffMaxBytes n),
          wn_PreviewMerge := (wn_PreviewMerge n \<or> length (wn_DependsOn n) > 0 \<and> policy \<noteq> ''none''),
          wn_Outputs := decoded_outputs (wn_Outputs n), wn_ScriptOutput := decoded_outputs (wn_ScriptOutput n)\<rparr>)"

definition load :: "workflow_state \<Rightarrow> workflow_state" where
  "load st = st\<lparr>ws_Nodes := map load_node (ws_Nodes st)\<rparr>"

type_synonym 'a op_result = "workflow_state \<times> (go_error + 'a)"

definition save :: "engine_env \<Rightarrow> workflow_state \<Rightarrow> workflow_state \<Rightarrow> 'a \<Rightarrow> 'a op_result" where
  "save env stored st result = (case en_save env st of Some e \<Rightarrow> (stored, Inl e) | None \<Rightarrow> (st, Inr result))"

section \<open>Refreshing a run\<close>

definition sync :: "engine_env \<Rightarrow> int \<Rightarrow> workflow_state \<Rightarrow> go_error + bool \<times> workflow_state" where
  "sync env now st =
    (let (c1, st1) = refreshWorkflowNodes env now st in
     case processWorkflowEdges env now st1 of
       Inl e \<Rightarrow> Inl e
     | Inr (c2, st2) \<Rightarrow>
         let (c3, st3) = expireWorkflowRun env now st2; (c4, st4) = finalizeWorkflowRunOutputs env st3
         in Inr (c1 \<or> c2 \<or> c3 \<or> c4, st4))"

definition workflowStateUnlocked :: "engine_env \<Rightarrow> int \<Rightarrow> workflow_state \<Rightarrow> workflow_state op_result" where
  "workflowStateUnlocked env now stored =
    (case sync env now (load stored) of
       Inl e \<Rightarrow> (stored, Inl e)
     | Inr (changed, st) \<Rightarrow> if changed then save env stored st st else (stored, Inr st))"

text \<open>An operation that goes on from the refreshed state.\<close>

definition refreshed ::
  "engine_env \<Rightarrow> int \<Rightarrow> (workflow_state \<Rightarrow> workflow_state \<Rightarrow> 'a op_result) \<Rightarrow> workflow_state \<Rightarrow> 'a op_result" where
  "refreshed env now k stored =
    (case workflowStateUnlocked env now stored of
       (stored1, Inl e) \<Rightarrow> (stored1, Inl e)
     | (stored1, Inr st) \<Rightarrow> k stored1 st)"

section \<open>Views\<close>

record workflow_view =
  vw_WorkflowID :: string
  vw_Status :: string
  vw_Total :: nat
  vw_Pending :: nat
  vw_Running :: nat
  vw_Completed :: nat
  vw_Failed :: nat
  vw_Nodes :: "workflow_node list"
  vw_Started :: "string list"
  vw_Appended :: "string list"
  vw_Edges :: "workflow_edge list"
  vw_runOutputs :: outputs
  vw_runError :: string
  vw_runUpdated :: int

definition workflowNodeIDs :: "workflow_node list \<Rightarrow> string list" where
  "workflowNodeIDs nodes = map wn_ID nodes"

definition workflowViewFromState :: "workflow_state \<Rightarrow> workflow_view" where
  "workflowViewFromState st =
    (let s = ws_Summary st; nodes = ws_Nodes st in
     \<lparr>vw_WorkflowID = su_ID s, vw_Status = su_Status s, vw_Total = length nodes,
      vw_Pending = count_status ''pending'' nodes,
      vw_Running = count_status ''running'' nodes + count_status ''waiting_human'' nodes,
      vw_Completed = count_status ''completed'' nodes, vw_Failed = count_status ''error'' nodes,
      vw_Nodes = nodes, vw_Started = [], vw_Appended = [], vw_Edges = ws_Edges st,
      vw_runOutputs = su_RunOutputs s, vw_runError = su_Error s, vw_runUpdated = su_UpdatedAt s\<rparr>)"

section \<open>Advancing\<close>

text \<open>
  One pass over the nodes: the flag \<open>advanced\<close> and the ids of the nodes whose job was started.
  The pass stops when the context is done.
\<close>

fun start_ready ::
  "engine_env \<Rightarrow> int \<Rightarrow> nat list \<Rightarrow> bool \<times> string list \<times> workflow_state \<Rightarrow> bool \<times> string list \<times> workflow_state" where
  "start_ready env now [] s = s"
| "start_ready env now (k # ks) (advanced, started, st) =
    (if \<not> node_ready st now (ws_Nodes st ! k) then start_ready env now ks (advanced, started, st)
     else
       let st1 = startWorkflowNode env now k st;
           started1 = (if wn_Status (ws_Nodes st1 ! k) = ''running'' then started @ [wn_ID (ws_Nodes st1 ! k)] else started)
       in if en_done env st1 then (True, started1, st1) else start_ready env now ks (True, started1, st1))"

partial_function (option) advance_loop ::
  "engine_env \<Rightarrow> int \<Rightarrow> bool \<Rightarrow> string list \<Rightarrow> workflow_state \<Rightarrow>
     (go_error + bool \<times> string list \<times> workflow_state) option" where
  "advance_loop env now changed started st =
    (if workflowTerminalStatus (su_Status (ws_Summary st)) \<or> en_done env st then Some (Inr (changed, started, st))
     else
       let (advanced, started1, st1) = start_ready env now [0..<length (ws_Nodes st)] (False, started, st) in
       (case processWorkflowEdges env now st1 of
          Inl e \<Rightarrow> Some (Inl e)
        | Inr (edgeChanged, st2) \<Rightarrow>
            if \<not> advanced \<and> \<not> edgeChanged then Some (Inr (changed, started1, st2))
            else advance_loop env now True started1 st2))"

definition touch :: "int \<Rightarrow> workflow_state \<Rightarrow> workflow_state" where
  "touch now st = set_summary (\<lambda>s. s\<lparr>su_UpdatedAt := now\<rparr>) st"

definition settle :: "engine_env \<Rightarrow> int \<Rightarrow> bool \<Rightarrow> workflow_state \<Rightarrow> bool \<times> workflow_state" where
  "settle env now changed st =
    (let (c1, st1) = expireWorkflowRun env now st;
         changed1 = (changed \<or> c1);
         st2 = refreshWorkflowStatus (if changed1 then touch now st1 else st1);
         (c2, st3) = finalizeWorkflowRunOutputs env st2
     in (changed1 \<or> c2, if c2 then touch now st3 else st3))"

text \<open>\<open>now\<close> is the clock when the pass starts and \<open>later\<close> when it is over.\<close>

definition advanceWorkflowReadyNodes ::
  "engine_env \<Rightarrow> int \<Rightarrow> int \<Rightarrow> bool \<Rightarrow> workflow_state \<Rightarrow> workflow_view op_result option" where
  "advanceWorkflowReadyNodes env now later enableAutoSchedule stored =
    (case workflowStateUnlocked env now stored of
       (stored1, Inl e) \<Rightarrow> Some (stored1, Inl e)
     | (stored1, Inr st) \<Rightarrow>
         if workflowTerminalStatus (su_Status (ws_Summary st)) then Some (stored1, Inr (workflowViewFromState st))
         else
           let flip = (enableAutoSchedule \<and> \<not> su_AutoSchedule (ws_Summary st));
               st1 = (if flip then set_summary (\<lambda>s. s\<lparr>su_AutoSchedule := True\<rparr>) st else st)
           in map_option (\<lambda>r. case r of
                Inl e \<Rightarrow> (stored1, Inl e)
              | Inr (changed, started, st2) \<Rightarrow>
                  let (changed1, st3) = settle env later changed st2;
                      view = (workflowViewFromState st3)\<lparr>vw_Started := started\<rparr>
                  in if changed1 then save env stored1 st3 view else (stored1, Inr view))
              (advance_loop env now flip [] st1))"

text \<open>The part of \<open>stepWorkflow\<close> that changes the run; it then waits for the job and refreshes.\<close>

definition stepWorkflow :: "engine_env \<Rightarrow> int \<Rightarrow> workflow_state \<Rightarrow> workflow_state op_result" where
  "stepWorkflow env now = refreshed env now (\<lambda>stored st.
    let st1 = (case find (\<lambda>k. node_ready st now (ws_Nodes st ! k)) [0..<length (ws_Nodes st)] of
                 None \<Rightarrow> st | Some k \<Rightarrow> startWorkflowNode env now k st)
    in case processWorkflowEdges env now (refreshWorkflowStatus (touch now st1)) of
         Inl e \<Rightarrow> (stored, Inl e)
       | Inr (_, st2) \<Rightarrow> save env stored st2 st2)"

section \<open>Appending, cancelling, completing\<close>

definition appendWorkflowNodes ::
  "engine_env \<Rightarrow> int \<Rightarrow> workflow_node_input list \<Rightarrow> workflow_edge_input list \<Rightarrow> string \<Rightarrow> workflow_state \<Rightarrow>
     workflow_view op_result" where
  "appendWorkflowNodes env now inputs edgeInputs idempotencyKey = refreshed env now (\<lambda>stored st.
    let key = trim_space idempotencyKey;
        known = (case map_of (su_AppendKeys (ws_Summary st)) key of None \<Rightarrow> [] | Some ids \<Rightarrow> ids) in
    if key \<noteq> [] \<and> length known > 0 then (stored, Inr ((workflowViewFromState st)\<lparr>vw_Appended := known\<rparr>))
    else if length inputs = 0 \<and> length edgeInputs = 0 then (stored, Inl (Errorf ''missing workflow nodes or edges'' []))
    else if length (ws_Nodes st) + length inputs > workflowMaxNodes
    then (stored, Inl (Errorf ''workflow node limit is %d'' [itoa (int workflowMaxNodes)]))
    else (case workflowNodesFromInputs inputs (remdups (map wn_ID (ws_Nodes st))) now of
      Inl e \<Rightarrow> (stored, Inl e)
    | Inr newNodes \<Rightarrow>
        let combined = ws_Nodes st @ newNodes in
        (case validateWorkflowDeps combined of
           Some e \<Rightarrow> (stored, Inl e)
         | None \<Rightarrow>
             (case workflowEdgesFromInputs edgeInputs of
                Inl e \<Rightarrow> (stored, Inl e)
              | Inr newEdges \<Rightarrow>
                  let combinedEdges = ws_Edges st @ newEdges in
                  (case validateWorkflowEdges combinedEdges combined of
                     Some e \<Rightarrow> (stored, Inl e)
                   | None \<Rightarrow>
                       let st1 = touch now (st\<lparr>ws_Nodes := combined, ws_Edges := combinedEdges\<rparr>);
                           st2 = (if key \<noteq> [] then set_summary (\<lambda>s. s\<lparr>su_AppendKeys :=
                                    put key (workflowNodeIDs newNodes) (su_AppendKeys s)\<rparr>) st1 else st1)
                       in (case processWorkflowEdges env now (refreshWorkflowStatus st2) of
                             Inl e \<Rightarrow> (stored, Inl e)
                           | Inr (_, st3) \<Rightarrow> save env stored st3
                               ((workflowViewFromState st3)\<lparr>vw_Appended := workflowNodeIDs newNodes\<rparr>)))))))"

definition cancel_node :: "int \<Rightarrow> string \<Rightarrow> workflow_node \<Rightarrow> workflow_node" where
  "cancel_node now nodeID n =
    (if \<not> blank nodeID \<and> wn_ID n \<noteq> trim_space nodeID then n
     else if unfinished (wn_Status n) then n\<lparr>wn_Status := ''canceled'', wn_FinishedAt := now, wn_UpdatedAt := now\<rparr>
     else n\<lparr>wn_UpdatedAt := now\<rparr>)"

definition cancelWorkflowNode :: "engine_env \<Rightarrow> int \<Rightarrow> string \<Rightarrow> workflow_state \<Rightarrow> workflow_state op_result" where
  "cancelWorkflowNode env now nodeID = refreshed env now (\<lambda>stored st.
    case processWorkflowEdges env now (refreshWorkflowStatus
           (touch now (st\<lparr>ws_Nodes := map (cancel_node now nodeID) (ws_Nodes st)\<rparr>))) of
      Inl e \<Rightarrow> (stored, Inl e)
    | Inr (_, st1) \<Rightarrow> save env stored st1 st1)"

definition complete_by_hand ::
  "engine_env \<Rightarrow> int \<Rightarrow> workflow_state \<Rightarrow> string \<Rightarrow> outputs \<Rightarrow> workflow_node \<Rightarrow> go_error + workflow_node" where
  "complete_by_hand env now st result outs node =
    (let node1 = node\<lparr>wn_Outputs := put_all outs (wn_Outputs node)\<rparr> in
     case validateWorkflowOutputSpecs (wn_OutputSpec node1) (wn_Outputs node1) (outputs_path node1) of
       Some e \<Rightarrow> Inl (Wrapf ''output contract violation: %w'' [] e)
     | None \<Rightarrow>
         let node2 = node1\<lparr>wn_Status := ''completed'', wn_Attempt := nextWorkflowAttempt node1,
               wn_ResultPreview := en_preview env result, wn_Error := [], wn_UpdatedAt := now, wn_FinishedAt := now\<rparr>;
             (node3, err) = finalizeWorkflowNodeHandoff env st node2 result
         in (case err of Some e \<Rightarrow> Inl (Errorf ''%s'' [e]) | None \<Rightarrow> Inr (runPostScript env st node3)))"

definition complete_at ::
  "engine_env \<Rightarrow> int \<Rightarrow> string \<Rightarrow> string \<Rightarrow> outputs \<Rightarrow> bool \<times> workflow_state \<Rightarrow> nat \<Rightarrow> go_error + bool \<times> workflow_state" where
  "complete_at env now nodeID result outs s k =
    (let (found, st) = s; node = ws_Nodes st ! k in
     if wn_ID node \<noteq> nodeID then Inr (found, st)
     else map_sum id (\<lambda>node1. (True, store_node k node1 st)) (complete_by_hand env now st result outs node))"

definition completeWorkflowNodeWithOutputs ::
  "engine_env \<Rightarrow> int \<Rightarrow> string \<Rightarrow> string \<Rightarrow> outputs \<Rightarrow> workflow_state \<Rightarrow> workflow_state op_result" where
  "completeWorkflowNodeWithOutputs env now nodeID0 result outs = refreshed env now (\<lambda>stored st.
    let nodeID = trim_space nodeID0 in
    if nodeID = [] then (stored, Inl (Errorf ''missing node_id'' []))
    else (case each_st (complete_at env now nodeID result outs) (False, st) [0..<length (ws_Nodes st)] of
      Inl e \<Rightarrow> (stored, Inl e)
    | Inr (found, st1) \<Rightarrow>
        if \<not> found then (stored, Inl (Errorf ''workflow node not found: %s'' [nodeID]))
        else (case processWorkflowEdges env now (refreshWorkflowStatus (touch now st1)) of
          Inl e \<Rightarrow> (stored, Inl e)
        | Inr (_, st2) \<Rightarrow> save env stored st2 st2)))"

end
