(* ===== verification/Workflow_Inv.thy ===== *)
theory Workflow_Inv
  imports Workflow_Ops
begin

text \<open>
  What every operation of the engine keeps: the ids, dependencies and retry policies of the
  nodes, the shape of the edges, the bounds on attempts, iterations and nodes, and the status a
  node may move to. The facts about single nodes are stated with the predicate \<open>ran\<close>, the facts
  about whole states with \<open>engine_inv\<close>.
\<close>

named_theorems exec

section \<open>What running a node keeps\<close>

definition static_of :: "workflow_node \<Rightarrow> string \<times> string list \<times> string set \<times> workflow_retry_policy option" where
  "static_of n = (wn_ID n, wn_DependsOn n, set (wn_HandoffFrom n), wn_Retry n)"

definition may_retry :: "workflow_node \<Rightarrow> bool" where
  "may_retry n \<longleftrightarrow> (case wn_Retry n of None \<Rightarrow> False | Some p \<Rightarrow> wn_Attempt n < wr_MaxAttempts p)"

definition ran :: "workflow_node \<Rightarrow> workflow_node \<Rightarrow> bool" where
  "ran n n' \<longleftrightarrow> static_of n' = static_of n \<and> wn_Attempt n' = wn_Attempt n \<and>
     wn_Status n' \<in> set [''pending'', ''running'', ''waiting_human'', ''completed'', ''error''] \<and>
     (wn_Status n' = ''pending'' \<longrightarrow> may_retry n)"

lemma static_of_eq:
  "static_of n = static_of m \<longleftrightarrow> wn_ID n = wn_ID m \<and> wn_DependsOn n = wn_DependsOn m \<and>
     set (wn_HandoffFrom n) = set (wn_HandoffFrom m) \<and> wn_Retry n = wn_Retry m"
  by (simp add: static_of_def)

lemma nextWorkflowAttempt_pos [exec]: "0 < wn_Attempt n \<Longrightarrow> nextWorkflowAttempt n = wn_Attempt n"
  by (simp add: nextWorkflowAttempt_def)

lemma ran_via:
  assumes "ran m n'" "static_of m = static_of n" "wn_Attempt m = wn_Attempt n"
  shows "ran n n'"
  using assms by (simp add: ran_def may_retry_def static_of_def split: option.splits)

lemma finalize_keeps:
  assumes "finalizeWorkflowNodeHandoff env st n t = (n', err)"
  shows "static_of n' = static_of n" "wn_Status n' = wn_Status n" "wn_Outputs n' = wn_Outputs n"
    "0 < wn_Attempt n \<Longrightarrow> wn_Attempt n' = wn_Attempt n" "wn_Decision n' = wn_Decision n"
    "0 \<le> wn_Attempt n \<Longrightarrow> 0 \<le> wn_Attempt n' \<and> wn_Attempt n' \<le> nextWorkflowAttempt n"
  using assms
  by (auto simp: finalizeWorkflowNodeHandoff_def static_of_def Let_def nextWorkflowAttempt_def split: if_splits sum.splits)

lemma fail_node_ran [exec]: "0 < wn_Attempt n \<Longrightarrow> ran n (fail_node env st now msg n)"
proof -
  assume pos: "0 < wn_Attempt n"
  let ?n1 = "n\<lparr>wn_Status := ''error'', wn_Error := msg, wn_UpdatedAt := now, wn_FinishedAt := now\<rparr>"
  obtain n' err where f: "finalizeWorkflowNodeHandoff env st ?n1 [] = (n', err)" by fastforce
  from finalize_keeps(1,2,4) [OF f] pos f show ?thesis
    by (simp add: fail_node_def ran_def static_of_def split: option.splits)
qed

lemma failWorkflowNode_ran [exec]: "0 < wn_Attempt n \<Longrightarrow> ran n (failWorkflowNode env st now msg n)"
  unfolding failWorkflowNode_def
  by (rule ran_via [OF fail_node_ran]) (simp_all add: static_of_def nextWorkflowAttempt_pos)

lemma failWorkflowServiceNode_ran [exec]: "0 < wn_Attempt n \<Longrightarrow> ran n (failWorkflowServiceNode env st now msg n)"
  unfolding failWorkflowServiceNode_def by (rule ran_via [OF fail_node_ran]) (simp_all add: static_of_def)

lemma complete_node_ran [exec]:
  assumes "0 < wn_Attempt n" "complete_node env st now outs payload n = (n', ok)"
  shows "ran n n'"
proof -
  let ?n1 = "n\<lparr>wn_Status := ''completed'', wn_Outputs := outs, wn_Error := [], wn_JobID := [], wn_UpdatedAt := now,
     wn_FinishedAt := now, wn_ResultPreview := en_preview env payload\<rparr>"
  obtain n2 err where f: "finalizeWorkflowNodeHandoff env st ?n1 payload = (n2, err)" by fastforce
  have n2: "static_of n2 = static_of n" "wn_Status n2 = ''completed''" "wn_Attempt n2 = wn_Attempt n"
    using finalize_keeps(1,2,4) [OF f] assms(1) by (simp_all add: static_of_def)
  have "n' = (case err of None \<Rightarrow> n2 | Some e \<Rightarrow> n2\<lparr>wn_Status := ''error'', wn_Error := e\<rparr>)"
    using assms(2) f by (simp add: complete_node_def split: option.splits)
  then show ?thesis using n2 by (cases err) (simp_all add: ran_def static_of_def)
qed

lemma runPostScript_keeps [simp]:
  "static_of (runPostScript env st n) = static_of n" "wn_Attempt (runPostScript env st n) = wn_Attempt n"
  "wn_Status (runPostScript env st n) = wn_Status n" "wn_ID (runPostScript env st n) = wn_ID n"
  "wn_Outputs (runPostScript env st n) = wn_Outputs n" "wn_DependsOn (runPostScript env st n) = wn_DependsOn n"
  by (simp_all add: runPostScript_def static_of_def)

lemma runPreScript_keeps:
  assumes "runPreScript env st n = (n', err)"
  shows "static_of n' = static_of n" "wn_Attempt n' = wn_Attempt n" "wn_Status n' = wn_Status n"
  using assms by (auto simp: runPreScript_def static_of_def split: if_splits script_result.splits)

lemma scheduleWorkflowNodeRetry_ran:
  assumes "shouldWorkflowRetry (wn_Retry n) (wn_Attempt n) kind = (True, delay)"
  shows "ran n (scheduleWorkflowNodeRetry now (wn_Attempt n) delay n)"
  using assms
  by (auto simp: shouldWorkflowRetry_def scheduleWorkflowNodeRetry_def ran_def static_of_def may_retry_def
      split: option.splits if_splits)

section \<open>Every executor runs its node\<close>

lemma complete_node_fst: "0 < wn_Attempt n \<Longrightarrow> ran n (fst (complete_node env st now outs payload n))"
  using complete_node_ran by (metis prod.collapse)

lemma attempt_id: "0 < wn_Attempt n \<Longrightarrow> n\<lparr>wn_Attempt := nextWorkflowAttempt n\<rparr> = n"
  by (simp add: nextWorkflowAttempt_pos)

lemma completeWorkflowBranch_ran [exec]: "0 < wn_Attempt n \<Longrightarrow> ran n (completeWorkflowBranch env st now route n)"
  by (simp add: completeWorkflowBranch_def Let_def attempt_id complete_node_fst failWorkflowNode_ran split: option.splits)

lemma executeWorkflowBranch_ran [exec]: "0 < wn_Attempt n \<Longrightarrow> ran n (executeWorkflowBranch env st now n)"
  by (simp add: executeWorkflowBranch_def exec split: option.splits)

lemma completeWorkflowDecision_ran [exec]:
  assumes "0 < wn_Attempt n"
  shows "ran n (completeWorkflowDecision env st now r t n)"
proof -
  let ?n1 = "n\<lparr>wn_Status := ''completed'', wn_Attempt := nextWorkflowAttempt n, wn_Decision := Some (decision_result r t)\<rparr>"
  have n1: "static_of ?n1 = static_of n" "wn_Attempt ?n1 = wn_Attempt n" "0 < wn_Attempt ?n1"
    using assms by (simp_all add: static_of_def nextWorkflowAttempt_pos)
  have n2: "static_of (?n1\<lparr>wn_Verdict := v\<rparr>) = static_of n" "wn_Attempt (?n1\<lparr>wn_Verdict := v\<rparr>) = wn_Attempt n" for v
    using n1 by (simp_all add: static_of_def)
  show ?thesis
  proof (cases "validateWorkflowOutputSpecs (wn_OutputSpec n)
      (decision_outputs r @ (if t \<noteq> [] then [(''error'', JStr t)] else [])) (outputs_path n)")
    case None
    then show ?thesis
      using ran_via [OF complete_node_fst n2] n1(3) by (simp add: completeWorkflowDecision_def Let_def)
  next
    case (Some e)
    then show ?thesis
      using ran_via [OF failWorkflowNode_ran [OF n1(3)] n1(1,2)]
      by (simp add: completeWorkflowDecision_def Let_def)
  qed
qed

lemma handleWorkflowDecisionFailure_ran [exec]:
  assumes "0 < wn_Attempt n"
  shows "ran n (handleWorkflowDecisionFailure env st now t n)"
  using assms scheduleWorkflowNodeRetry_ran [of n]
  by (auto simp: handleWorkflowDecisionFailure_def exec Let_def split: prod.splits)

lemma executeWorkflowDecision_ran [exec]: "0 < wn_Attempt n \<Longrightarrow> ran n (executeWorkflowDecision env st now n)"
  by (simp add: executeWorkflowDecision_def exec split: option.splits sum.splits)

lemma completeWorkflowFunction_ran [exec]: "0 < wn_Attempt n \<Longrightarrow> ran n (completeWorkflowFunction env st now outs n)"
proof -
  assume pos: "0 < wn_Attempt n"
  obtain n1 ok where c: "complete_node env st now outs (en_json env (JObj outs)) n = (n1, ok)" by fastforce
  have "ran n (runPostScript env st n1)"
    using complete_node_ran [OF pos c] by (simp add: ran_def)
  with complete_node_ran [OF pos c] failWorkflowNode_ran [OF pos] c show ?thesis
    by (simp add: completeWorkflowFunction_def attempt_id [OF pos] split: option.splits)
qed

lemma executeWorkflowFunction_ran [exec]: "0 < wn_Attempt n \<Longrightarrow> ran n (executeWorkflowFunction env st now n)"
  by (simp add: executeWorkflowFunction_def exec Let_def split: option.splits sum.splits)

lemma completeWorkflowService_ran [exec]: "0 < wn_Attempt n \<Longrightarrow> ran n (completeWorkflowService env st now outs n)"
proof -
  assume pos: "0 < wn_Attempt n"
  obtain n1 ok where c: "complete_node env st now outs (en_json env (JObj outs)) n = (n1, ok)" by fastforce
  have "ran n (runPostScript env st n1)"
    using complete_node_ran [OF pos c] by (simp add: ran_def)
  with complete_node_ran [OF pos c] failWorkflowServiceNode_ran [OF pos] c show ?thesis
    by (simp add: completeWorkflowService_def split: option.splits)
qed

lemma executeWorkflowService_ran [exec]: "0 < wn_Attempt n \<Longrightarrow> ran n (executeWorkflowService env st now n)"
  using scheduleWorkflowNodeRetry_ran [of n]
  by (auto simp: executeWorkflowService_def exec Let_def split: option.splits sum.splits prod.splits)

lemma start_user_input_ran [exec]: "ran n (start_user_input env st now n)"
  by (auto simp: start_user_input_def registerWorkflowHumanTask_def ran_def static_of_def
      split: prod.splits option.splits sum.splits if_splits)

lemma start_job_ran [exec]: "0 < wn_Attempt n \<Longrightarrow> ran n (start_job env st now n)"
  by (auto simp: start_job_def exec split: sum.splits) (simp add: ran_def static_of_def)

lemma run_node_ran [exec]: "0 < wn_Attempt n \<Longrightarrow> ran n (run_node env st now n)"
  by (simp add: run_node_def exec Let_def)


section \<open>The invariant of a node and what starting it costs\<close>

definition attempt_cap :: "workflow_retry_policy option \<Rightarrow> int" where
  "attempt_cap r = (case r of None \<Rightarrow> 1 | Some p \<Rightarrow> max 1 (wr_MaxAttempts p))"

definition known_statuses :: "string list" where
  "known_statuses = [''pending'', ''running'', ''waiting_human'', ''completed'', ''error'', ''canceled'']"

text \<open>
  A node was attempted at most as often as its policy allows, and a pending node was never
  attempted or may be attempted again. \<open>MaxAttempts\<close> is a 64-bit integer.
\<close>

definition node_inv :: "workflow_node \<Rightarrow> bool" where
  "node_inv n \<longleftrightarrow> 0 \<le> wn_Attempt n \<and> wn_Attempt n \<le> attempt_cap (wn_Retry n) \<and>
     attempt_cap (wn_Retry n) \<le> max_int64 \<and> wn_Status n \<in> set known_statuses \<and>
     (wn_Status n = ''pending'' \<longrightarrow> wn_Attempt n = 0 \<or> may_retry n)"

definition potential :: "workflow_node \<Rightarrow> nat" where
  "potential n = (if wn_Status n = ''pending'' then Suc (nat (attempt_cap (wn_Retry n) - wn_Attempt n)) else 0)"

lemma attempt_cap_pos: "1 \<le> attempt_cap r"
  by (simp add: attempt_cap_def split: option.splits)

lemma may_retry_cap: "may_retry n \<Longrightarrow> wn_Attempt n < attempt_cap (wn_Retry n)"
  by (auto simp: may_retry_def attempt_cap_def split: option.splits)

lemma node_inv_pending: "node_inv n \<Longrightarrow> wn_Status n = ''pending'' \<Longrightarrow> wn_Attempt n < attempt_cap (wn_Retry n)"
  using may_retry_cap [of n] attempt_cap_pos [of "wn_Retry n"] by (auto simp: node_inv_def)

lemma ran_inv:
  assumes "ran n n'" "0 \<le> wn_Attempt n" "wn_Attempt n \<le> attempt_cap (wn_Retry n)" "attempt_cap (wn_Retry n) \<le> max_int64"
  shows "node_inv n'"
proof -
  have same: "wn_Retry n' = wn_Retry n" "wn_Attempt n' = wn_Attempt n"
    using assms(1) by (simp_all add: ran_def static_of_def)
  have "set [''pending'', ''running'', ''waiting_human'', ''completed'', ''error''] \<subseteq> set known_statuses"
    by code_simp
  then have "wn_Status n' \<in> set known_statuses" using assms(1) unfolding ran_def by blast
  moreover have "wn_Status n' = ''pending'' \<Longrightarrow> may_retry n'"
    using assms(1) same by (simp add: ran_def may_retry_def split: option.splits)
  ultimately show ?thesis using assms(2-4) same by (simp add: node_inv_def)
qed

lemma started_node:
  assumes inv: "node_inv n" and pend: "wn_Status n = ''pending''"
    and pre: "runPreScript env st1 (n\<lparr>wn_Attempt := wrap64 (wn_Attempt n + 1), wn_StartedAt := t\<rparr>) = (n2, err)"
    and n': "n' = (case err of Some e \<Rightarrow> fail_node env st2 now e n2 | None \<Rightarrow> run_node env st2 now n2)"
  shows "static_of n' = static_of n" "node_inv n'" "potential n' < potential n" "wn_Attempt n' = wn_Attempt n + 1"
proof -
  have lt: "wn_Attempt n < attempt_cap (wn_Retry n)" using node_inv_pending inv pend by simp
  then have w: "wrap64 (wn_Attempt n + 1) = wn_Attempt n + 1"
    using inv by (intro wrap64_id) (simp_all add: node_inv_def)
  have n2: "static_of n2 = static_of n" "wn_Attempt n2 = wn_Attempt n + 1"
    using runPreScript_keeps [OF pre] w by (simp_all add: static_of_def)
  then have r: "wn_Retry n2 = wn_Retry n" by (simp add: static_of_def)
  have pos: "0 < wn_Attempt n2" using n2(2) inv by (simp add: node_inv_def)
  then have run: "ran n2 n'"
    by (simp add: n' fail_node_ran run_node_ran split: option.splits)
  show "static_of n' = static_of n" and a: "wn_Attempt n' = wn_Attempt n + 1"
    using run n2 by (simp_all add: ran_def)
  then have r': "wn_Retry n' = wn_Retry n" by (simp add: static_of_def)
  show inv': "node_inv n'"
    using ran_inv [OF run] n2 r lt inv pos by (simp add: node_inv_def)
  show "potential n' < potential n"
    using pend a r' lt inv node_inv_pending [OF inv'] by (simp add: potential_def)
qed

lemma nth_store_node [simp]:
  "ws_Nodes (store_node k n st) = (ws_Nodes st)[k := n]" "ws_Edges (store_node k n st) = ws_Edges st"
  "ws_Summary (store_node k n st) = ws_Summary st"
  by (simp_all add: store_node_def)

text \<open>Starting the node at \<open>k\<close> changes that node only.\<close>

lemma startWorkflowNode_started:
  assumes "k < length (ws_Nodes st)" "node_inv (ws_Nodes st ! k)" "wn_Status (ws_Nodes st ! k) = ''pending''"
  obtains n' where "startWorkflowNode env now k st = store_node k n' st"
    "static_of n' = static_of (ws_Nodes st ! k)" "node_inv n'" "potential n' < potential (ws_Nodes st ! k)"
    "wn_Attempt n' = wn_Attempt (ws_Nodes st ! k) + 1"
proof -
  let ?n = "ws_Nodes st ! k"
  let ?n1 = "?n\<lparr>wn_Attempt := wrap64 (wn_Attempt ?n + 1), wn_StartedAt := (if wn_StartedAt ?n = 0 then now else wn_StartedAt ?n)\<rparr>"
  obtain n2 err where pre: "runPreScript env (store_node k ?n1 st) ?n1 = (n2, err)" by fastforce
  show thesis
    by (rule that [OF _ started_node [OF assms(2,3) pre refl, of "store_node k n2 st" now]])
       (use assms pre in \<open>simp add: startWorkflowNode_def Let_def\<close>)
qed

section \<open>The invariant of a run\<close>

definition edge_static :: "workflow_edge \<Rightarrow> workflow_edge" where
  "edge_static e = e\<lparr>we_Append := (we_Append e)\<lparr>ni_DependsOn := [], ni_HandoffFrom := [], ni_WriteScope := []\<rparr>\<rparr>"

definition edge_typed :: "workflow_edge \<Rightarrow> bool" where
  "edge_typed e \<longleftrightarrow> we_MaxIterations e \<le> max_int64 \<and>
     attempt_cap (normalizeWorkflowRetryPolicy (ni_Retry (we_Append e))) \<le> max_int64"

definition counters_inv :: "workflow_state \<Rightarrow> bool" where
  "counters_inv st \<longleftrightarrow> distinct (map fst (su_EdgeIterations (ws_Summary st))) \<and>
     (\<forall>(key, k) \<in> set (su_EdgeIterations (ws_Summary st)).
        0 < k \<and> (\<exists>e \<in> set (ws_Edges st). iteration_key e = key \<and> k \<le> we_MaxIterations e)) \<and>
     distinct (su_ProcessedEdges (ws_Summary st))"

definition engine_inv :: "workflow_state \<Rightarrow> bool" where
  "engine_inv st \<longleftrightarrow> wf_state st \<and> Ball (set (ws_Nodes st)) node_inv \<and> Ball (set (ws_Edges st)) edge_typed \<and>
     counters_inv st"

text \<open>The ids recorded for an idempotency key.\<close>

definition append_ids_of :: "workflow_state \<Rightarrow> string \<Rightarrow> string list" where
  "append_ids_of st key = (case map_of (su_AppendKeys (ws_Summary st)) key of None \<Rightarrow> [] | Some ids \<Rightarrow> ids)"

text \<open>
  A run only grows: nodes keep their place, id, dependencies and policy, edges keep everything
  but what a template expansion rewrites, nodes are only added up to the limit, and what is
  recorded for a processed edge or an idempotency key stays.
\<close>

definition grows :: "workflow_state \<Rightarrow> workflow_state \<Rightarrow> bool" where
  "grows st st' \<longleftrightarrow>
     (\<exists>new. map static_of (ws_Nodes st') = map static_of (ws_Nodes st) @ new) \<and>
     (\<exists>new. map edge_static (ws_Edges st') = map edge_static (ws_Edges st) @ new) \<and>
     length (ws_Nodes st') \<le> max workflowMaxNodes (length (ws_Nodes st)) \<and>
     set (su_ProcessedEdges (ws_Summary st)) \<subseteq> set (su_ProcessedEdges (ws_Summary st')) \<and>
     (\<forall>key. append_ids_of st key \<noteq> [] \<longrightarrow> append_ids_of st' key = append_ids_of st key)"

definition keeps :: "workflow_state \<Rightarrow> workflow_state \<Rightarrow> bool" where
  "keeps st st' \<longleftrightarrow> (engine_inv st \<longrightarrow> engine_inv st' \<and> grows st st')"

lemma grows_refl [simp]: "grows st st"
  by (simp add: grows_def)

lemma grows_trans: "grows a b \<Longrightarrow> grows b c \<Longrightarrow> grows a c"
  by (fastforce simp: grows_def)

lemma keeps_refl [simp]: "keeps st st"
  by (simp add: keeps_def)

lemma keeps_trans: "keeps a b \<Longrightarrow> keeps b c \<Longrightarrow> keeps a c"
  using grows_trans by (auto simp: keeps_def)

text \<open>Well-formedness of the nodes is a property of what they keep.\<close>

definition wf_static :: "(string \<times> string list \<times> string set \<times> workflow_retry_policy option) list \<Rightarrow> bool" where
  "wf_static ss \<longleftrightarrow> distinct (map fst ss) \<and>
     (\<forall>(i, ds, hs, r) \<in> set ss. Ball (set ds \<union> hs) clean \<and> (\<forall>d \<in> set ds \<union> hs. d \<noteq> i \<and> d \<in> fst ` set ss)) \<and>
     acyclic {(i, d). \<exists>ds hs r. (i, ds, hs, r) \<in> set ss \<and> d \<in> set ds}"

lemma fst_static [simp]: "fst \<circ> static_of = wn_ID" "fst (static_of n) = wn_ID n"
  by (auto simp: static_of_def)

lemma wf_nodes_wf_static: "wf_nodes ns \<longleftrightarrow> wf_static (map static_of ns)"
proof -
  have 1: "depends ns = {(i, d). \<exists>ds hs r. (i, ds, hs, r) \<in> set (map static_of ns) \<and> d \<in> set ds}"
    by (force simp: depends_def static_of_def)
  have ids: "fst ` set (map static_of ns) = wn_ID ` set ns" by (simp add: image_image)
  have 2: "(\<forall>(i, ds, hs, r) \<in> set (map static_of ns). Ball (set ds \<union> hs) clean \<and>
      (\<forall>d \<in> set ds \<union> hs. d \<noteq> i \<and> d \<in> fst ` set (map static_of ns))) \<longleftrightarrow>
      Ball (set ns) clean_node \<and> deps_known ns"
    unfolding ids by (auto simp: deps_known_def clean_node_def static_of_def)
  show ?thesis unfolding wf_nodes_def wf_static_def 2 1 by (simp only: map_map fst_static conj_assoc)
qed

lemma wf_nodes_static: "map static_of ns' = map static_of ns \<Longrightarrow> wf_nodes ns' \<longleftrightarrow> wf_nodes ns"
  by (simp add: wf_nodes_wf_static)

lemma static_ids: "map static_of ns' = map static_of ns @ new \<Longrightarrow> map wn_ID ns' = map wn_ID ns @ map fst new"
  by (drule arg_cong [of _ _ "map fst"]) simp

lemma edge_static_fields:
  assumes "edge_static e' = edge_static e"
  shows "we_ID e' = we_ID e" "we_From e' = we_From e" "we_FromPrefix e' = we_FromPrefix e"
    "we_FromKind e' = we_FromKind e" "we_When e' = we_When e" "we_MaxIterations e' = we_MaxIterations e"
    "we_IterationKey e' = we_IterationKey e" "ni_ID (we_Append e') = ni_ID (we_Append e)"
    "ni_Retry (we_Append e') = ni_Retry (we_Append e)"
  using arg_cong [OF assms, of we_ID] arg_cong [OF assms, of we_From] arg_cong [OF assms, of we_FromPrefix]
    arg_cong [OF assms, of we_FromKind] arg_cong [OF assms, of we_When] arg_cong [OF assms, of we_MaxIterations]
    arg_cong [OF assms, of we_IterationKey] arg_cong [OF assms, of "ni_ID \<circ> we_Append"]
    arg_cong [OF assms, of "ni_Retry \<circ> we_Append"]
  by (simp_all add: edge_static_def)

lemma edge_static_preds:
  assumes "edge_static e' = edge_static e"
  shows "edge_ok e' \<longleftrightarrow> edge_ok e" "edge_typed e' \<longleftrightarrow> edge_typed e" "iteration_key e' = iteration_key e"
    "sourceless e' \<longleftrightarrow> sourceless e" "workflowEdgeMatchesSource e' = workflowEdgeMatchesSource e"
  using edge_static_fields [OF assms]
  by (auto simp: edge_ok_def edge_typed_def iteration_key_def sourceless_def workflowEdgeMatchesSource_def
      has_source_def fun_eq_iff split: option.splits)


lemma edge_static_sel [simp]:
  "we_ID (edge_static e) = we_ID e" "we_From (edge_static e) = we_From e"
  "we_MaxIterations (edge_static e) = we_MaxIterations e" "ni_ID (we_Append (edge_static e)) = ni_ID (we_Append e)"
  "sourceless (edge_static e) = sourceless e" "edge_ok (edge_static e) = edge_ok e"
  "edge_typed (edge_static e) = edge_typed e" "iteration_key (edge_static e) = iteration_key e"
  by (simp_all add: edge_static_def sourceless_def edge_ok_def edge_typed_def iteration_key_def)

lemma edges_static_set:
  assumes "map edge_static es' = map edge_static es" "\<And>e. P (edge_static e) = P e"
  shows "(\<forall>e \<in> set es'. P e) \<longleftrightarrow> (\<forall>e \<in> set es. P e)" "(\<exists>e \<in> set es'. P e) \<longleftrightarrow> (\<exists>e \<in> set es. P e)"
proof -
  have "edge_static ` set es' = edge_static ` set es" using arg_cong [OF assms(1), of set] by simp
  then have "(\<forall>x \<in> edge_static ` set es'. P x) = (\<forall>x \<in> edge_static ` set es. P x)"
    "(\<exists>x \<in> edge_static ` set es'. P x) = (\<exists>x \<in> edge_static ` set es. P x)" by simp_all
  then show "(\<forall>e \<in> set es'. P e) \<longleftrightarrow> (\<forall>e \<in> set es. P e)" "(\<exists>e \<in> set es'. P e) \<longleftrightarrow> (\<exists>e \<in> set es. P e)"
    by (simp_all add: assms(2))
qed

lemma wf_edges_static: "wf_edges (map edge_static es) ns \<longleftrightarrow> wf_edges es ns"
  by (simp add: wf_edges_def append_ids_def comp_def)

lemma wf_edges_cong:
  assumes "map edge_static es' = map edge_static es"
  shows "wf_edges es' ns \<longleftrightarrow> wf_edges es ns"
  by (metis assms wf_edges_static)

lemma wf_edges_mono: "wf_edges es ns \<Longrightarrow> wn_ID ` set ns \<subseteq> wn_ID ` set ns' \<Longrightarrow> wf_edges es ns'"
  by (auto simp: wf_edges_def)

section \<open>Steps that keep the invariant\<close>

abbreviation same_counters :: "workflow_state \<Rightarrow> workflow_state \<Rightarrow> bool" where
  "same_counters st st' \<equiv> su_EdgeIterations (ws_Summary st') = su_EdgeIterations (ws_Summary st) \<and>
     su_ProcessedEdges (ws_Summary st') = su_ProcessedEdges (ws_Summary st) \<and>
     su_AppendKeys (ws_Summary st') = su_AppendKeys (ws_Summary st)"

lemma keeps_static:
  assumes "map static_of (ws_Nodes st') = map static_of (ws_Nodes st)"
    and "map edge_static (ws_Edges st') = map edge_static (ws_Edges st)"
    and "same_counters st st'"
    and "Ball (set (ws_Nodes st)) node_inv \<Longrightarrow> Ball (set (ws_Nodes st')) node_inv"
  shows "keeps st st'"
proof -
  have ids: "wn_ID ` set (ws_Nodes st') = wn_ID ` set (ws_Nodes st)"
    using static_ids [of "ws_Nodes st'" "ws_Nodes st" "[]"] assms(1) by (metis append_Nil2 list.set_map map_is_Nil_conv)
  have "wf_state st \<Longrightarrow> wf_state st'"
    using wf_nodes_static [OF assms(1)] wf_edges_cong [OF assms(2), of "ws_Nodes st"] ids
      edges_static_set(1) [OF assms(2), of edge_ok] wf_edges_mono [of "ws_Edges st'" "ws_Nodes st" "ws_Nodes st'"]
    by (simp add: wf_state_def)
  moreover have "counters_inv st \<Longrightarrow> counters_inv st'"
    using assms(3) edges_static_set(2) [OF assms(2), of "\<lambda>e. iteration_key e = key \<and> k \<le> we_MaxIterations e" for key k]
    by (simp add: counters_inv_def)
  moreover have "length (ws_Nodes st') = length (ws_Nodes st)" using assms(1) by (metis length_map)
  ultimately show ?thesis
    using assms edges_static_set(1) [OF assms(2), of edge_typed] by (simp add: keeps_def engine_inv_def grows_def append_ids_of_def)
qed

lemma keeps_summary:
  "ws_Nodes st' = ws_Nodes st \<Longrightarrow> ws_Edges st' = ws_Edges st \<Longrightarrow> same_counters st st' \<Longrightarrow> keeps st st'"
  by (rule keeps_static) simp_all

lemma keeps_map_nodes:
  assumes "ws_Nodes st' = map f (ws_Nodes st)" "ws_Edges st' = ws_Edges st" "same_counters st st'"
    and "\<And>n. static_of (f n) = static_of n" "\<And>n. node_inv n \<Longrightarrow> node_inv (f n)"
  shows "keeps st st'"
  by (rule keeps_static) (use assms in \<open>auto simp: comp_def\<close>)

lemma keeps_store_node:
  assumes "k < length (ws_Nodes st)" "static_of n' = static_of (ws_Nodes st ! k)"
    "node_inv (ws_Nodes st ! k) \<Longrightarrow> node_inv n'"
  shows "keeps st (store_node k n' st)"
proof (rule keeps_static)
  show "map static_of (ws_Nodes (store_node k n' st)) = map static_of (ws_Nodes st)"
    using assms by (simp add: map_update list_update_same_conv)
  show "Ball (set (ws_Nodes st)) node_inv \<Longrightarrow> Ball (set (ws_Nodes (store_node k n' st))) node_inv"
    using assms by (auto dest!: set_update_subset_insert [THEN subsetD])
qed simp_all

lemma set_summary_simps [simp]:
  "ws_Nodes (set_summary f st) = ws_Nodes st" "ws_Edges (set_summary f st) = ws_Edges st"
  "ws_Summary (set_summary f st) = f (ws_Summary st)"
  by (simp_all add: set_summary_def)

lemma refreshWorkflowStatus_keeps [exec]: "keeps st (refreshWorkflowStatus st)"
  by (rule keeps_summary) (simp_all add: refreshWorkflowStatus_def Let_def)

lemma touch_keeps [exec]: "keeps st (touch now st)"
  by (rule keeps_summary) (simp_all add: touch_def)

lemma mark_error_static [simp]: "map static_of (mark_error now i msg ns) = map static_of ns"
  by (induction ns) (auto simp: static_of_def)

lemma node_inv_status:
  assumes "node_inv n" "static_of n' = static_of n" "wn_Attempt n' = wn_Attempt n"
    "wn_Status n' = wn_Status n \<or> wn_Status n' \<in> set [''error'', ''canceled'']"
  shows "node_inv n'"
  using assms by (auto simp: node_inv_def static_of_def may_retry_def known_statuses_def split: option.splits)

lemma mark_error_inv: "Ball (set ns) node_inv \<Longrightarrow> Ball (set (mark_error now i msg ns)) node_inv"
proof (induction ns)
  case (Cons n ns)
  have "node_inv (n\<lparr>wn_Status := ''error'', wn_Error := trim_space msg, wn_UpdatedAt := now, wn_FinishedAt := t\<rparr>)" for t
    by (rule node_inv_status [of n]) (use Cons.prems in \<open>simp_all add: static_of_def\<close>)
  with Cons show ?case by simp
qed simp

lemma markWorkflowNodeError_keeps [exec]: "keeps st (markWorkflowNodeError now i msg st)"
  by (rule keeps_static) (simp_all add: markWorkflowNodeError_def mark_error_inv)

lemma expireWorkflowRun_keeps [exec]: "keeps st (snd (expireWorkflowRun env now st))"
proof -
  have "static_of (expire_node now n) = static_of n" for n by (simp add: expire_node_def static_of_def)
  moreover have "node_inv n \<Longrightarrow> node_inv (expire_node now n)" for n
    by (erule node_inv_status) (simp_all add: expire_node_def static_of_def)
  ultimately have "keeps st (set_summary (expire_summary env now) (st\<lparr>ws_Nodes := map (expire_node now) (ws_Nodes st)\<rparr>))"
    by (intro keeps_map_nodes [where f = "expire_node now"]) (simp_all add: expire_summary_def)
  moreover have "keeps st (set_summary (expire_summary env now) st)"
    by (rule keeps_summary) (simp_all add: expire_summary_def)
  ultimately show ?thesis by (simp add: expireWorkflowRun_def Let_def)
qed

lemma finalizeWorkflowRunOutputs_keeps [exec]: "keeps st (snd (finalizeWorkflowRunOutputs env st))"
  by (rule keeps_summary)
     (auto simp: finalizeWorkflowRunOutputs_def fail_run_def Let_def split: sum.splits option.splits)


lemma clean_normalize: "Ball (set xs) clean \<Longrightarrow> set (normalizeWorkflowStrings xs) = set xs"
  unfolding normalizeWorkflowStrings_props(3) by (force simp: clean_def)

lemma load_keeps [exec]: "keeps st (load st)"
proof -
  have "node_inv n \<Longrightarrow> node_inv (load_node n)" for n
    by (simp add: node_inv_def load_node_def may_retry_def Let_def split: option.splits)
  moreover have "static_of (load_node n) = static_of n" if "clean_node n" for n
    using that by (simp add: load_node_def static_of_def clean_node_def clean_normalize Let_def)
  ultimately have "keeps st (load st)" if "engine_inv st"
    by (intro keeps_static)
       (use that in \<open>auto simp: load_def engine_inv_def wf_state_def wf_nodes_def\<close>)
  then show ?thesis by (simp add: keeps_def)
qed

lemma finish_job_keeps:
  assumes "node_inv n"
  shows "node_inv (finish_job env now st job n)" "static_of (finish_job env now st job n) = static_of n"
    "wn_Status (finish_job env now st job n) \<in> set [''completed'', ''canceled'', ''error'']"
proof -
  obtain n1 contract where j: "job_status_node env job n = (n1, contract)" by fastforce
  have n1: "static_of n1 = static_of n" "wn_Attempt n1 = wn_Attempt n"
    "wn_Status n1 \<in> set [''completed'', ''canceled'', ''error'']"
    using j by (auto simp: job_status_node_def static_of_def split: if_splits sum.splits)
  let ?n2 = "n1\<lparr>wn_Attempt := nextWorkflowAttempt n1, wn_ResultPreview := en_preview env (jb_Result job),
     wn_Error := (case contract of None \<Rightarrow> jb_Error job | Some e \<Rightarrow> contract_error env e),
     wn_UpdatedAt := now, wn_FinishedAt := now\<rparr>"
  have a2: "0 < wn_Attempt ?n2" "wn_Attempt ?n2 \<le> attempt_cap (wn_Retry n)"
    using assms n1(2) attempt_cap_pos [of "wn_Retry n"] by (auto simp: nextWorkflowAttempt_def node_inv_def)
  obtain n3 err where f: "finalizeWorkflowNodeHandoff env st ?n2 (jb_Result job) = (n3, err)" by fastforce
  have n3: "static_of n3 = static_of n" "wn_Attempt n3 = wn_Attempt ?n2" "wn_Status n3 = wn_Status n1"
    using finalize_keeps(1,2,4) [OF f] n1(1) a2(1) by (simp_all add: static_of_def)
  define n4 where "n4 = (case err of None \<Rightarrow> n3 | Some e \<Rightarrow> n3\<lparr>wn_Error := e, wn_Status := ''error''\<rparr>)"
  have n4: "static_of n4 = static_of n" "wn_Attempt n4 = wn_Attempt ?n2"
    "wn_Status n4 \<in> set [''completed'', ''canceled'', ''error'']"
    using n3 n1(3) by (auto simp: n4_def static_of_def split: option.splits)
  have fin: "finish_job env now st job n = (if wn_Status n4 = ''completed'' then runPostScript env st n4 else n4)"
    using j f by (simp add: finish_job_def n4_def)
  show "static_of (finish_job env now st job n) = static_of n"
    and st: "wn_Status (finish_job env now st job n) \<in> set [''completed'', ''canceled'', ''error'']"
    using n4 by (auto simp: fin)
  have "wn_Attempt (finish_job env now st job n) = wn_Attempt ?n2" "wn_Retry (finish_job env now st job n) = wn_Retry n"
    using n4 \<open>static_of (finish_job env now st job n) = static_of n\<close> by (simp_all add: fin static_of_def)
  then show "node_inv (finish_job env now st job n)"
    using a2 st assms unfolding node_inv_def known_statuses_def by auto
qed

lemma refresh_node_cases:
  assumes "refresh_node env now st n = Some n'"
  obtains (retry) kind delay where "shouldWorkflowRetry (wn_Retry n) (wn_Attempt n) kind = (True, delay)"
      "n' = scheduleWorkflowNodeRetry now (wn_Attempt n) delay n"
  | (finish) job where "n' = finish_job env now st job n"
  using assms by (auto simp: refresh_node_def Let_def split: if_splits option.splits prod.splits)

lemma refresh_node_keeps:
  assumes "node_inv n" "refresh_node env now st n = Some n'"
  shows "node_inv n'" "static_of n' = static_of n"
proof -
  from assms(2) have "node_inv n' \<and> static_of n' = static_of n"
  proof (cases rule: refresh_node_cases)
    case (retry kind delay)
    then have "ran n n'" by (simp add: scheduleWorkflowNodeRetry_ran)
    with ran_inv [of n n'] assms(1) show ?thesis by (simp add: node_inv_def ran_def)
  next
    case (finish job)
    with finish_job_keeps [OF assms(1)] show ?thesis by simp
  qed
  then show "node_inv n'" "static_of n' = static_of n" by simp_all
qed

lemma refresh_at_keeps:
  assumes "engine_inv st" "k < length (ws_Nodes st)"
  shows "keeps st (snd (refresh_at env now (c, st) k))"
    "length (ws_Nodes (snd (refresh_at env now (c, st) k))) = length (ws_Nodes st)"
proof -
  have inv: "node_inv (ws_Nodes st ! k)" using assms by (simp add: engine_inv_def)
  show "keeps st (snd (refresh_at env now (c, st) k))"
    using keeps_store_node [OF assms(2)] refresh_node_keeps [OF inv]
    by (auto simp: refresh_at_def split: option.splits)
  show "length (ws_Nodes (snd (refresh_at env now (c, st) k))) = length (ws_Nodes st)"
    by (simp add: refresh_at_def split: option.splits)
qed

lemma refresh_all_keeps:
  assumes "Ball (set ks) (\<lambda>k. k < length (ws_Nodes st))"
  shows "keeps st (snd (foldl (refresh_at env now) (c, st) ks))"
  using assms
proof (induction ks arbitrary: c st)
  case (Cons k ks)
  obtain c1 st1 where r: "refresh_at env now (c, st) k = (c1, st1)" by fastforce
  show ?case
  proof (cases "engine_inv st")
    case True
    with refresh_at_keeps [OF True, of k env now c] Cons.prems r
    have "keeps st st1" "length (ws_Nodes st1) = length (ws_Nodes st)" by simp_all
    moreover from this Cons have "keeps st1 (snd (foldl (refresh_at env now) (c1, st1) ks))" by simp
    ultimately show ?thesis using r keeps_trans by simp
  qed (simp add: keeps_def)
qed simp

lemma refreshWorkflowNodes_keeps [exec]: "keeps st (snd (refreshWorkflowNodes env now st))"
proof -
  obtain c st1 where f: "foldl (refresh_at env now) (False, st) [0..<length (ws_Nodes st)] = (c, st1)" by fastforce
  with refresh_all_keeps [of "[0..<length (ws_Nodes st)]" st env now False] have "keeps st st1" by simp
  moreover have "keeps st1 (refreshWorkflowStatus (set_summary (\<lambda>s. s\<lparr>su_UpdatedAt := now\<rparr>) st1))"
    by (rule keeps_trans [OF _ refreshWorkflowStatus_keeps]) (simp add: keeps_summary)
  ultimately show ?thesis using f keeps_trans by (auto simp: refreshWorkflowNodes_def)
qed

section \<open>Starting the ready nodes\<close>

lemma startWorkflowNode_keeps [exec]:
  assumes "k < length (ws_Nodes st)"
  shows "keeps st (startWorkflowNode env now k st)"
proof (cases "engine_inv st \<and> wn_Status (ws_Nodes st ! k) = ''pending''")
  case True
  then have "node_inv (ws_Nodes st ! k)" using assms by (simp add: engine_inv_def)
  then obtain n' where "startWorkflowNode env now k st = store_node k n' st"
    "static_of n' = static_of (ws_Nodes st ! k)" "node_inv n'"
    using startWorkflowNode_started [OF assms, of env now] True by blast
  with keeps_store_node [OF assms] show ?thesis by simp
next
  case False
  then show ?thesis by (auto simp: keeps_def startWorkflowNode_def Let_def)
qed

lemma start_length [simp]: "length (ws_Nodes (startWorkflowNode env now k st)) = length (ws_Nodes st)"
  by (simp add: startWorkflowNode_def Let_def split: prod.splits)

lemma start_ready_keeps [exec]:
  assumes "Ball (set ks) (\<lambda>k. k < length (ws_Nodes st))"
  shows "keeps st (snd (snd (start_ready env now ks (a, started, st))))"
  using assms
proof (induction ks arbitrary: a started st)
  case (Cons k ks)
  have k: "keeps st (startWorkflowNode env now k st)" using Cons.prems by (simp add: startWorkflowNode_keeps)
  then show ?case
    using Cons.IH [of "startWorkflowNode env now k st"] Cons.IH [of st] Cons.prems keeps_trans [OF k]
    by (simp add: Let_def)
qed simp

end
