(* ===== verification/Workflow_Edges.thy ===== *)
theory Workflow_Edges
  imports Workflow_Inv
begin

text \<open>
  Control edges keep the invariant of a run, fire at most once for a node and at most as often
  as their bound allows, and use up a budget: the places left below the node limit, the pairs of
  edge and node that were not looked at, and the attempts the pending nodes have left. The budget
  bounds the scheduler's loop.
\<close>

section \<open>Map writes\<close>

lemma map_of_replace:
  "map_of (map (\<lambda>(k', v'). if k' = k then (k, v) else (k', v')) m) j =
     (if j = k \<and> k \<in> fst ` set m then Some v else map_of m j)"
proof (induction m)
  case (Cons p m)
  obtain a b where "p = (a, b)" by fastforce
  with Cons show ?case by (cases "a = k"; cases "j = a") simp_all
qed simp

lemma put_map_of: "map_of (put k v m) j = (if j = k then Some v else map_of m j)"
proof (cases "map_of m k")
  case None
  then show ?thesis by (simp add: put_def map_add_def split: option.splits)
next
  case (Some y)
  then have "k \<in> fst ` set m" by (metis map_of_eq_None_iff option.distinct(1))
  with Some show ?thesis by (simp add: put_def map_of_replace)
qed

lemma put_keys: "distinct (map fst m) \<Longrightarrow> distinct (map fst (put k v m))"
proof -
  have "map fst (map (\<lambda>(k', v'). if k' = k then (k, v) else (k', v')) m) = map fst m" by auto
  then show "distinct (map fst m) \<Longrightarrow> distinct (map fst (put k v m))"
    by (auto simp: put_def map_of_eq_None_iff simp del: map_map)
qed

lemma put_set: "set (put k v m) \<subseteq> insert (k, v) (set m)"
  by (auto simp: put_def split: if_splits)

section \<open>Appending one node\<close>

lemma fresh_node_inv:
  assumes "built i n" "attempt_cap (normalizeWorkflowRetryPolicy (ni_Retry i)) \<le> max_int64"
  shows "node_inv n"
proof -
  have "''pending'' \<in> set known_statuses" by code_simp
  with assms attempt_cap_pos [of "wn_Retry n"] show ?thesis
    by (simp add: node_inv_def built_def fresh_node_def)
qed

lemma appended_nodes:
  assumes inv: "engine_inv st"
    and new: "workflowNodesFromInputs inputs (remdups (map wn_ID (ws_Nodes st))) now = Inr new"
    and typed: "\<forall>i \<in> set inputs. attempt_cap (normalizeWorkflowRetryPolicy (ni_Retry i)) \<le> max_int64"
    and deps: "validateWorkflowDeps (ws_Nodes st @ new) = None"
  shows "wf_nodes (ws_Nodes st @ new)" "Ball (set (ws_Nodes st @ new)) node_inv"
proof -
  have wf: "wf_nodes (ws_Nodes st)" using inv by (simp add: engine_inv_def wf_state_def)
  then have "distinct (map wn_ID (ws_Nodes st @ new))"
    using workflowNodesFromInputs_Inr(4) [OF new] by (simp add: wf_nodes_def distinct_remdups_id)
  moreover have "Ball (set (ws_Nodes st @ new)) clean_node"
    using wf workflowNodesFromInputs_Inr(3) [OF new] by (auto simp: wf_nodes_def fresh_node_def)
  ultimately show "wf_nodes (ws_Nodes st @ new)" using validateWorkflowDeps_None deps by blast
  have "node_inv n" if mem: "n \<in> set new" for n
  proof -
    obtain i where "i \<in> set inputs" "built i n"
      using list_all2_origin [OF workflowNodesFromInputs_Inr(1) [OF new] mem] by blast
    with typed fresh_node_inv show ?thesis by blast
  qed
  with inv show "Ball (set (ws_Nodes st @ new)) node_inv" by (auto simp: engine_inv_def)
qed

lemma appendWorkflowNodesFromEdge_Inr:
  assumes "appendWorkflowNodesFromEdge now st [i] = Inr st'" "engine_inv st"
    and "attempt_cap (normalizeWorkflowRetryPolicy (ni_Retry i)) \<le> max_int64"
  obtains n where "st' = st\<lparr>ws_Nodes := ws_Nodes st @ [n]\<rparr>" "built i n" "length (ws_Nodes st) < workflowMaxNodes"
    "engine_inv st'" "grows st st'"
proof -
  obtain new where new: "workflowNodesFromInputs [i] (remdups (map wn_ID (ws_Nodes st))) now = Inr new"
      "validateWorkflowDeps (ws_Nodes st @ new) = None" "validateWorkflowEdges (ws_Edges st) (ws_Nodes st @ new) = None"
      "st' = st\<lparr>ws_Nodes := ws_Nodes st @ new\<rparr>" "length (ws_Nodes st) < workflowMaxNodes"
    using assms(1)
    by (auto simp: appendWorkflowNodesFromEdge_def Let_def andthen_None andthen_Some split: if_splits sum.splits option.splits)
  obtain n where n: "new = [n]" "built i n"
    using workflowNodesFromInputs_Inr(1) [OF new(1)] by (auto simp: list_all2_Cons1)
  have "engine_inv st'"
    using appended_nodes [OF assms(2) new(1) _ new(2)] assms(2,3) new(3,4) validateWorkflowEdges_None
    by (simp add: engine_inv_def wf_state_def counters_inv_def)
  moreover have "grows st st'" using new(4,5) n(1) by (simp add: grows_def append_ids_of_def)
  ultimately show thesis using that new(4,5) n by simp
qed

section \<open>Firing an edge\<close>

lemma expand_static: "expandWorkflowEdgeAppend i src k = (i', t) \<Longrightarrow>
   t\<lparr>ni_DependsOn := [], ni_HandoffFrom := [], ni_WriteScope := []\<rparr> =
   i\<lparr>ni_DependsOn := [], ni_HandoffFrom := [], ni_WriteScope := []\<rparr> \<and> ni_Retry i' = ni_Retry i"
  by (auto simp: expandWorkflowEdgeAppend_def Let_def)

lemma template_static:
  assumes "k < length es" "expandWorkflowEdgeAppend (we_Append (es ! k)) src j = (i', t)"
  shows "map edge_static (es[k := (es ! k)\<lparr>we_Append := t\<rparr>]) = map edge_static es"
  using assms expand_static [OF assms(2)] by (simp add: map_update list_update_same_conv edge_static_def)

lemma counters_iterations:
  assumes "counters_inv st"
  shows "0 \<le> iterations st key"
  using assms by (fastforce simp: counters_inv_def iterations_def split: option.splits dest!: map_of_SomeD)

text \<open>Either the edge hit its bound and its source is marked, or one node was appended and the counter went up.\<close>

lemma fire_edge_cases:
  assumes "fire_edge now k node st = Inr st'" "engine_inv st" "k < length (ws_Edges st)"
  defines "e \<equiv> ws_Edges st ! k"
  obtains (cap) "we_MaxIterations e \<le> iterations st (iteration_key e)" "engine_inv st'" "grows st st'"
      "ws_Edges st' = ws_Edges st" "same_counters st st'"
      "\<exists>msg. ws_Nodes st' = mark_error now (wn_ID node) msg (ws_Nodes st)"
  | (append) n where "iterations st (iteration_key e) < we_MaxIterations e" "engine_inv st'" "grows st st'"
      "map edge_static (ws_Edges st') = map edge_static (ws_Edges st)" "ws_Nodes st' = ws_Nodes st @ [n]"
      "length (ws_Nodes st) < workflowMaxNodes" "fresh_node n"
      "wn_Retry n = normalizeWorkflowRetryPolicy (ni_Retry (we_Append e))"
      "su_ProcessedEdges (ws_Summary st') = su_ProcessedEdges (ws_Summary st)"
      "su_EdgeIterations (ws_Summary st') =
         put (iteration_key e) (iterations st (iteration_key e) + 1) (su_EdgeIterations (ws_Summary st))"
proof -
  have e: "e \<in> set (ws_Edges st)" using assms(3) by (simp add: e_def)
  then have ok: "edge_ok e" "edge_typed e" using assms(2) by (auto simp: engine_inv_def wf_state_def)
  then have mx: "normalizeWorkflowEdgeMaxIterations (we_MaxIterations e) = we_MaxIterations e"
    by (simp add: edge_ok_def normalizeWorkflowEdgeMaxIterations_def)
  let ?key = "iteration_key e" let ?cur = "iterations st (iteration_key e)"
  show thesis
  proof (cases "we_MaxIterations e \<le> ?cur")
    case True
    define st1 where "st1 = markWorkflowNodeError now (wn_ID node)
      (''workflow edge '' @ we_ID e @ '' reached iteration cap '' @ itoa (we_MaxIterations e)) st"
    have st': "st' = set_summary (\<lambda>s. s\<lparr>su_Status := ''error'', su_UpdatedAt := now\<rparr>) st1"
      using assms(1) True mx by (simp add: fire_edge_def Let_def st1_def e_def)
    have "keeps st st1" by (simp add: st1_def markWorkflowNodeError_keeps)
    moreover have "keeps st1 st'" unfolding st' by (rule keeps_summary) simp_all
    ultimately have "engine_inv st'" "grows st st'" using keeps_trans assms(2) keeps_def by blast+
    then show thesis
      using True by (intro cap) (auto simp: st' st1_def markWorkflowNodeError_def)
  next
    case False
    have cur: "0 \<le> ?cur" using counters_iterations assms(2) by (simp add: engine_inv_def)
    then have w: "wrap64 (?cur + 1) = ?cur + 1"
      using False ok(2) by (intro wrap64_id) (simp_all add: edge_typed_def)
    obtain i t where ex: "expandWorkflowEdgeAppend (we_Append e) (wn_ID node) (?cur + 1) = (i, t)" by fastforce
    define i' where "i' = (if blank (ni_ID i) then i\<lparr>ni_ID := wn_ID node @ ''_'' @ itoa (?cur + 1)\<rparr> else i)"
    define st1 where "st1 = st\<lparr>ws_Edges := (ws_Edges st)[k := e\<lparr>we_Append := t\<rparr>]\<rparr>"
    have same: "map edge_static (ws_Edges st1) = map edge_static (ws_Edges st)"
      using template_static [OF assms(3), of "wn_ID node" "?cur + 1" i t] ex by (simp add: st1_def e_def)
    have "keeps st st1" by (rule keeps_static) (simp_all add: same, simp_all add: st1_def)
    then have inv1: "engine_inv st1" "grows st st1" using assms(2) by (simp_all add: keeps_def)
    obtain st2 where st2: "appendWorkflowNodesFromEdge now st1 [i'] = Inr st2"
      "st' = set_summary (\<lambda>s. s\<lparr>su_EdgeIterations := put ?key (?cur + 1) (su_EdgeIterations s)\<rparr>) st2"
      using assms(1) False mx w ex
      by (cases "appendWorkflowNodesFromEdge now st1 [i']")
         (simp_all add: fire_edge_def Let_def e_def [symmetric] i'_def [symmetric] st1_def [symmetric])
    have r: "ni_Retry i' = ni_Retry (we_Append e)"
      using expand_static [OF ex] by (simp add: i'_def)
    then have "attempt_cap (normalizeWorkflowRetryPolicy (ni_Retry i')) \<le> max_int64"
      using ok(2) by (simp add: edge_typed_def)
    then obtain n where n: "st2 = st1\<lparr>ws_Nodes := ws_Nodes st1 @ [n]\<rparr>" "built i' n"
        "length (ws_Nodes st1) < workflowMaxNodes" "engine_inv st2" "grows st1 st2"
      by (rule appendWorkflowNodesFromEdge_Inr [OF st2(1) inv1(1)])
    have "\<exists>e' \<in> set (ws_Edges st). iteration_key e' = ?key \<and> ?cur + 1 \<le> we_MaxIterations e'"
      using e False by (intro bexI [of _ e]) simp_all
    then have e2: "\<exists>e' \<in> set (ws_Edges st2). iteration_key e' = ?key \<and> ?cur + 1 \<le> we_MaxIterations e'"
      using edges_static_set(2) [OF same, of "\<lambda>e'. iteration_key e' = ?key \<and> ?cur + 1 \<le> we_MaxIterations e'"] n(1)
      by simp
    have "counters_inv st'"
      using n(4) e2 put_keys put_set [of ?key "?cur + 1" "su_EdgeIterations (ws_Summary st2)"] cur
      by (fastforce simp: engine_inv_def counters_inv_def st2(2))
    then have "engine_inv st'" using n(4) by (simp add: engine_inv_def wf_state_def st2(2))
    moreover have "grows st st'" using grows_trans [OF inv1(2) n(5)] by (simp add: grows_def append_ids_of_def st2(2))
    ultimately show thesis
      using False n same r by (intro append [of n]) (simp_all add: st2(2) st1_def built_def)
  qed
qed


section \<open>The budget\<close>

definition edge_keys :: "workflow_state \<Rightarrow> string list" where
  "edge_keys st = concat (map (\<lambda>e. map (workflowProcessedEdgeKey e) (map wn_ID (ws_Nodes st))) (map we_ID (ws_Edges st)))"

definition unprocessed :: "workflow_state \<Rightarrow> nat" where
  "unprocessed st = length (filter (\<lambda>k. \<not> processed st k) (edge_keys st))"

definition template_cost :: "workflow_edge \<Rightarrow> nat" where
  "template_cost e = Suc (nat (attempt_cap (normalizeWorkflowRetryPolicy (ni_Retry (we_Append e)))))"

definition node_cost :: "workflow_state \<Rightarrow> nat" where
  "node_cost st = length (ws_Edges st) + sum_list (map template_cost (ws_Edges st))"

definition potentials :: "workflow_state \<Rightarrow> nat" where
  "potentials st = sum_list (map potential (ws_Nodes st))"

definition budget :: "workflow_state \<Rightarrow> nat" where
  "budget st = (workflowMaxNodes - length (ws_Nodes st)) * node_cost st + unprocessed st + potentials st"

lemma edge_static_cong:
  assumes "map edge_static es' = map edge_static es"
  shows "map we_ID es' = map we_ID es" "map template_cost es' = map template_cost es" "length es' = length es"
proof -
  have "template_cost (edge_static e) = template_cost e" for e by (simp add: edge_static_def template_cost_def)
  then have t: "map template_cost (map edge_static xs) = map template_cost xs" for xs by simp
  have w: "map we_ID (map edge_static xs) = map we_ID xs" for xs by simp
  show "map we_ID es' = map we_ID es" "map template_cost es' = map template_cost es" "length es' = length es"
    using assms t w by (metis length_map)+
qed

lemma node_cost_cong: "map edge_static (ws_Edges st') = map edge_static (ws_Edges st) \<Longrightarrow> node_cost st' = node_cost st"
  unfolding node_cost_def by (simp only: edge_static_cong(2,3) [of "ws_Edges st'" "ws_Edges st"])

lemma sum_list_member: "x \<in> set xs \<Longrightarrow> f x \<le> sum_list (map f xs)" for f :: "'a \<Rightarrow> nat"
  by (induction xs) auto

lemma template_cost_le: "e \<in> set (ws_Edges st) \<Longrightarrow> length (ws_Edges st) + template_cost e \<le> node_cost st"
  unfolding node_cost_def by (intro add_left_mono sum_list_member)

lemma unprocessed_append:
  assumes "ws_Nodes st' = ws_Nodes st @ [n]" "map we_ID (ws_Edges st') = map we_ID (ws_Edges st)"
    "su_ProcessedEdges (ws_Summary st') = su_ProcessedEdges (ws_Summary st)"
  shows "unprocessed st' \<le> unprocessed st + length (ws_Edges st)"
proof -
  have "length (filter P (concat (map (\<lambda>e. f e @ [g e]) es))) \<le> length (filter P (concat (map f es))) + length es"
    for P and f :: "string \<Rightarrow> string list" and g es
    by (induction es) auto
  from this [of "\<lambda>k. \<not> processed st k" "\<lambda>e. map (workflowProcessedEdgeKey e) (map wn_ID (ws_Nodes st))"
      "\<lambda>e. workflowProcessedEdgeKey e (wn_ID n)" "map we_ID (ws_Edges st)"]
  show ?thesis using assms by (simp add: unprocessed_def edge_keys_def processed_def comp_def)
qed

lemma unprocessed_mark:
  assumes "ws_Nodes st' = ws_Nodes st" "ws_Edges st' = ws_Edges st" "\<not> processed st key" "key \<in> set (edge_keys st)"
    "su_ProcessedEdges (ws_Summary st') = su_ProcessedEdges (ws_Summary st) @ [key]"
  shows "unprocessed st' < unprocessed st"
proof -
  have "length (filter (\<lambda>k. \<not> (P k \<or> k = key)) ks) < length (filter (\<lambda>k. \<not> P k) ks)" if "key \<in> set ks" "\<not> P key" for P ks
    using that
  proof (induction ks)
    case (Cons k ks)
    have "length (filter (\<lambda>k. \<not> (P k \<or> k = key)) ks) \<le> length (filter (\<lambda>k. \<not> P k) ks)"
      by (induction ks) auto
    with Cons show ?case by (cases "k = key") auto
  qed simp
  from this [of "edge_keys st" "processed st"] assms show ?thesis
    by (simp add: unprocessed_def edge_keys_def processed_def comp_def conj_commute disj_commute)
qed

lemma mark_error_potential: "sum_list (map potential (mark_error now i msg ns)) \<le> sum_list (map potential ns)"
  by (induction ns) (auto simp: potential_def)

lemma mark_error_ids [simp]: "map wn_ID (mark_error now i msg ns) = map wn_ID ns" "length (mark_error now i msg ns) = length ns"
  by (induction ns) auto

lemma fire_edge_budget:
  assumes "fire_edge now k node st = Inr st'" "engine_inv st" "k < length (ws_Edges st)"
  shows "engine_inv st'" "grows st st'" "map edge_static (ws_Edges st') = map edge_static (ws_Edges st)"
    "budget st' \<le> budget st"
proof -
  from assms have "engine_inv st' \<and> grows st st' \<and> map edge_static (ws_Edges st') = map edge_static (ws_Edges st) \<and>
      budget st' \<le> budget st"
  proof (cases rule: fire_edge_cases)
    case cap
    then obtain msg where n: "ws_Nodes st' = mark_error now (wn_ID node) msg (ws_Nodes st)" by blast
    have "unprocessed st' = unprocessed st" "node_cost st' = node_cost st"
      using cap n by (simp_all add: unprocessed_def edge_keys_def processed_def node_cost_def)
    then have "budget st' \<le> budget st"
      using mark_error_potential n by (simp add: budget_def potentials_def)
    with cap show ?thesis by simp
  next
    case (append n)
    let ?e = "ws_Edges st ! k"
    have u: "unprocessed st' \<le> unprocessed st + length (ws_Edges st)"
      using unprocessed_append append edge_static_cong(1) by blast
    have "potential n \<le> template_cost ?e"
      using append by (simp add: potential_def template_cost_def fresh_node_def)
    then have p: "length (ws_Edges st) + potential n \<le> node_cost st"
      using template_cost_le [of ?e st] assms(3) by simp
    obtain m where m: "workflowMaxNodes - length (ws_Nodes st) = Suc m" "workflowMaxNodes - length (ws_Nodes st') = m"
      using append by (metis Suc_diff_Suc length_append_singleton)
    have "budget st' = m * node_cost st + unprocessed st' + (potentials st + potential n)"
      unfolding budget_def m node_cost_cong [OF append(4)] by (simp add: potentials_def append(5))
    also have "\<dots> \<le> m * node_cost st + (unprocessed st + length (ws_Edges st)) + (potentials st + potential n)"
      using u by simp
    also have "\<dots> \<le> budget st" unfolding budget_def m using p by simp
    finally show ?thesis using append by simp
  qed
  then show "engine_inv st'" "grows st st'" "map edge_static (ws_Edges st') = map edge_static (ws_Edges st)"
    "budget st' \<le> budget st" by simp_all
qed

lemma mark_processed:
  assumes "engine_inv st" "\<not> processed st key" "key \<in> set (edge_keys st)"
  defines "st1 \<equiv> set_summary (\<lambda>s. s\<lparr>su_ProcessedEdges := su_ProcessedEdges s @ [key]\<rparr>) st"
  shows "engine_inv st1" "grows st st1" "budget st1 < budget st"
proof -
  show "engine_inv st1"
    using assms by (auto simp: engine_inv_def wf_state_def counters_inv_def processed_def st1_def)
  show "grows st st1" by (auto simp: grows_def append_ids_of_def st1_def)
  have "unprocessed st1 < unprocessed st"
    by (rule unprocessed_mark [OF _ _ assms(2,3)]) (simp_all add: st1_def)
  then show "budget st1 < budget st"
    by (simp add: budget_def node_cost_def potentials_def st1_def)
qed


section \<open>Processing the edges\<close>

text \<open>
  A turn over an edge changes nothing, or marks the pair of edge and node as processed and
  costs budget.
\<close>

definition step_ok :: "bool \<times> workflow_state \<Rightarrow> bool \<times> workflow_state \<Rightarrow> bool" where
  "step_ok s s' \<longleftrightarrow> (engine_inv (snd s) \<longrightarrow> engine_inv (snd s') \<and> grows (snd s) (snd s') \<and>
     map edge_static (ws_Edges (snd s')) = map edge_static (ws_Edges (snd s)) \<and>
     (s' = s \<or> fst s' \<and> budget (snd s') < budget (snd s)))"

lemma step_ok_refl [simp]: "step_ok s s"
  by (simp add: step_ok_def)

lemma step_ok_trans: "step_ok a b \<Longrightarrow> step_ok b c \<Longrightarrow> step_ok a c"
  using grows_trans by (auto simp: step_ok_def)

lemma key_member:
  assumes "k < length (ws_Edges st)" "wn_ID node \<in> wn_ID ` set (ws_Nodes st)"
  shows "workflowProcessedEdgeKey (we_ID (ws_Edges st ! k)) (wn_ID node) \<in> set (edge_keys st)"
  using assms by (force simp: edge_keys_def)

lemma process_edge_ok:
  assumes "process_edge env now node (c, st) k = Inr s'" "k < length (ws_Edges st)"
    "wn_ID node \<in> wn_ID ` set (ws_Nodes st)"
  shows "step_ok (c, st) s'"
proof (cases "s' = (c, st) \<or> \<not> engine_inv st")
  case False
  define e where "e = ws_Edges st ! k"
  define key where "key = workflowProcessedEdgeKey (we_ID e) (wn_ID node)"
  define st1 where "st1 = set_summary (\<lambda>s. s\<lparr>su_ProcessedEdges := su_ProcessedEdges s @ [key]\<rparr>) st"
  have new: "\<not> processed st key" and inv: "engine_inv st"
    using assms(1) False by (auto simp: process_edge_def Let_def e_def key_def split: if_splits)
  have key: "key \<in> set (edge_keys st)" using key_member [OF assms(2,3)] by (simp add: key_def e_def)
  note m = mark_processed [OF inv new key, folded st1_def]
  have edges: "ws_Edges st1 = ws_Edges st" by (simp add: st1_def)
  have "s' = (True, st1) \<or> (\<exists>st2. fire_edge now k node st1 = Inr st2 \<and> s' = (True, st2))"
    using assms(1) False new
    by (cases "fire_edge now k node st1")
       (auto simp: process_edge_def Let_def e_def [symmetric] key_def [symmetric] st1_def [symmetric] split: if_splits)
  then show ?thesis
  proof
    assume "s' = (True, st1)"
    with m edges show ?thesis by (simp add: step_ok_def)
  next
    assume "\<exists>st2. fire_edge now k node st1 = Inr st2 \<and> s' = (True, st2)"
    then obtain st2 where st2: "fire_edge now k node st1 = Inr st2" "s' = (True, st2)" by blast
    have "k < length (ws_Edges st1)" using assms(2) edges by simp
    note f = fire_edge_budget [OF st2(1) m(1) this]
    show ?thesis using f m edges grows_trans [OF m(2) f(2)] by (simp add: step_ok_def st2(2))
  qed
qed (auto simp: step_ok_def)

lemma grows_ids: "grows st st' \<Longrightarrow> wn_ID ` set (ws_Nodes st) \<subseteq> wn_ID ` set (ws_Nodes st')"
proof -
  assume "grows st st'"
  then obtain new where "map static_of (ws_Nodes st') = map static_of (ws_Nodes st) @ new" by (auto simp: grows_def)
  from arg_cong [OF static_ids [OF this], of set] show ?thesis by auto
qed

lemma process_edges_ok:
  assumes "each_st (process_edge env now node) (c, st) ks = Inr s'" "\<forall>k \<in> set ks. k < length (ws_Edges st)"
    "wn_ID node \<in> wn_ID ` set (ws_Nodes st)"
  shows "step_ok (c, st) s'"
  using assms
proof (induction ks arbitrary: c st)
  case (Cons k ks)
  then obtain c1 st1 where one: "process_edge env now node (c, st) k = Inr (c1, st1)"
    and rest: "each_st (process_edge env now node) (c1, st1) ks = Inr s'"
    by (auto split: sum.splits)
  have ok: "step_ok (c, st) (c1, st1)" using process_edge_ok [OF one] Cons.prems by simp
  show ?case
  proof (cases "engine_inv st")
    case True
    with ok have "grows st st1" "map edge_static (ws_Edges st1) = map edge_static (ws_Edges st)"
      by (auto simp: step_ok_def)
    then have "wn_ID node \<in> wn_ID ` set (ws_Nodes st1)" "length (ws_Edges st1) = length (ws_Edges st)"
      using grows_ids Cons.prems(3) edge_static_cong(3) by blast+
    then have "step_ok (c1, st1) s'" using Cons.IH [OF rest] Cons.prems(2) by simp
    with ok step_ok_trans show ?thesis by blast
  qed (simp add: step_ok_def)
qed simp

lemma process_nodes_ok:
  assumes "each_st (process_node env now) (c, st) ns = Inr s'" "\<forall>n \<in> set ns. wn_ID n \<in> wn_ID ` set (ws_Nodes st)"
  shows "step_ok (c, st) s'"
  using assms
proof (induction ns arbitrary: c st)
  case (Cons n ns)
  then obtain c1 st1 where one: "process_node env now (c, st) n = Inr (c1, st1)"
    and rest: "each_st (process_node env now) (c1, st1) ns = Inr s'"
    by (auto split: sum.splits)
  have ok: "step_ok (c, st) (c1, st1)"
    using one process_edges_ok [of env now n c st "[0..<length (ws_Edges st)]" "(c1, st1)"] Cons.prems
    by (auto simp: process_node_def split: if_splits)
  show ?case
  proof (cases "engine_inv st")
    case True
    with ok have "grows st st1" by (auto simp: step_ok_def)
    then have "\<forall>n \<in> set ns. wn_ID n \<in> wn_ID ` set (ws_Nodes st1)" using grows_ids Cons.prems(2) by fastforce
    then show ?thesis using Cons.IH [OF rest] ok step_ok_trans by blast
  qed (simp add: step_ok_def)
qed simp

lemma budget_summary:
  "ws_Nodes st' = ws_Nodes st \<Longrightarrow> ws_Edges st' = ws_Edges st \<Longrightarrow> same_counters st st' \<Longrightarrow> budget st' = budget st"
  by (simp add: budget_def node_cost_def unprocessed_def edge_keys_def processed_def potentials_def)

lemma refreshWorkflowStatus_simps [simp]:
  "ws_Nodes (refreshWorkflowStatus st) = ws_Nodes st" "ws_Edges (refreshWorkflowStatus st) = ws_Edges st"
  "su_EdgeIterations (ws_Summary (refreshWorkflowStatus st)) = su_EdgeIterations (ws_Summary st)"
  "su_ProcessedEdges (ws_Summary (refreshWorkflowStatus st)) = su_ProcessedEdges (ws_Summary st)"
  "su_AppendKeys (ws_Summary (refreshWorkflowStatus st)) = su_AppendKeys (ws_Summary st)"
  by (simp_all add: refreshWorkflowStatus_def Let_def)

lemma processWorkflowEdges_ok:
  assumes "processWorkflowEdges env now st = Inr (changed, st')"
  shows "step_ok (False, st) (changed, st')"
proof (cases "ws_Edges st = []")
  case False
  obtain c1 st1 where run: "each_st (process_node env now) (False, st) (ws_Nodes st) = Inr (c1, st1)"
    using assms False by (auto simp: processWorkflowEdges_def split: sum.splits)
  have ok: "step_ok (False, st) (c1, st1)" using process_nodes_ok [OF run] by simp
  define st2 where "st2 = set_summary (\<lambda>s. s\<lparr>su_UpdatedAt := now\<rparr>) st1"
  have res: "(changed, st') = (if c1 then (True, if su_Status (ws_Summary st2) \<noteq> ''error'' then refreshWorkflowStatus st2 else st2)
      else (False, st1))"
    using assms False run by (auto simp: processWorkflowEdges_def Let_def st2_def [symmetric] split: if_splits)
  show ?thesis
  proof (cases c1)
    case True
    have "ws_Nodes st' = ws_Nodes st1" "ws_Edges st' = ws_Edges st1" "same_counters st1 st'" "changed"
      using res True by (auto simp: st2_def split: if_splits)
    moreover from this have "keeps st1 st'" "budget st' = budget st1" using keeps_summary budget_summary by blast+
    ultimately show ?thesis
      using ok grows_trans True by (auto simp: step_ok_def keeps_def)
  qed (use ok res in simp)
qed (use assms in \<open>simp add: processWorkflowEdges_def\<close>)

lemma processWorkflowEdges_keeps: "processWorkflowEdges env now st = Inr (changed, st') \<Longrightarrow> keeps st st'"
  using processWorkflowEdges_ok by (force simp: step_ok_def keeps_def)

end
