(* ===== verification/Workflow_Runs.thy ===== *)
theory Workflow_Runs
  imports Workflow_Edges
begin

text \<open>
  Whole operations and runs of the engine: the scheduler's loop ends, every operation keeps the
  invariant of a run, and a run that still has work to do is never stuck.
\<close>

section \<open>The scheduler's loop ends\<close>

lemma budget_store_node:
  assumes "k < length (ws_Nodes st)" "static_of n' = static_of (ws_Nodes st ! k)" "potential n' < potential (ws_Nodes st ! k)"
  shows "budget (store_node k n' st) < budget st"
proof -
  have "sum_list (map potential (ns[k := n'])) < sum_list (map potential ns)"
    if "k < length ns" "potential n' < potential (ns ! k)" for ns k
    using that
  proof (induction ns arbitrary: k)
    case (Cons n ns)
    then show ?case by (cases k) auto
  qed simp
  then have "potentials (store_node k n' st) < potentials st"
    using assms by (simp add: potentials_def)
  moreover have "map wn_ID ((ws_Nodes st)[k := n']) = map wn_ID (ws_Nodes st)"
    using assms(1,2) by (simp add: map_update list_update_same_conv static_of_def)
  then have "unprocessed (store_node k n' st) = unprocessed st"
    by (simp add: unprocessed_def edge_keys_def processed_def)
  ultimately show ?thesis by (simp add: budget_def node_cost_def)
qed

lemma start_budget:
  assumes "engine_inv st" "k < length (ws_Nodes st)" "wn_Status (ws_Nodes st ! k) = ''pending''"
  shows "budget (startWorkflowNode env now k st) < budget st"
proof -
  have "node_inv (ws_Nodes st ! k)" using assms by (simp add: engine_inv_def)
  then obtain n' where "startWorkflowNode env now k st = store_node k n' st"
    "static_of n' = static_of (ws_Nodes st ! k)" "potential n' < potential (ws_Nodes st ! k)"
    using startWorkflowNode_started [OF assms(2) _ assms(3), of env now] by blast
  with budget_store_node [OF assms(2)] show ?thesis by simp
qed

lemma start_ready_budget:
  assumes "start_ready env now ks (a, started, st) = (a', started', st')" "engine_inv st"
    "\<forall>k \<in> set ks. k < length (ws_Nodes st)"
  shows "(a' = a \<and> st' = st \<and> (\<forall>k \<in> set ks. \<not> node_ready st now (ws_Nodes st ! k))) \<or> (a' \<and> budget st' < budget st)"
  using assms
proof (induction ks arbitrary: a started st)
  case (Cons k ks)
  let ?st1 = "startWorkflowNode env now k st"
  show ?case
  proof (cases "node_ready st now (ws_Nodes st ! k)")
    case True
    have k: "k < length (ws_Nodes st)" using Cons.prems(3) by simp
    have b: "budget ?st1 < budget st"
      using start_budget Cons.prems(2) k True by (simp add: node_ready_def)
    have inv: "engine_inv ?st1" using startWorkflowNode_keeps [OF k] Cons.prems(2) by (simp add: keeps_def)
    show ?thesis
    proof (cases "en_done env ?st1")
      case True
      with \<open>node_ready st now (ws_Nodes st ! k)\<close> Cons.prems(1) b show ?thesis by (simp add: Let_def)
    next
      case False
      with \<open>node_ready st now (ws_Nodes st ! k)\<close> Cons.prems(1) obtain started1 where
        "start_ready env now ks (True, started1, ?st1) = (a', started', st')" by (simp add: Let_def)
      from Cons.IH [OF this inv] Cons.prems(3) b show ?thesis by auto
    qed
  next
    case False
    with Cons.IH [of a started st] Cons.prems show ?thesis by simp
  qed
qed simp

lemma start_ready_inv:
  assumes "start_ready env now [0..<length (ws_Nodes st)] (a, started, st) = (a', started', st')" "engine_inv st"
  shows "engine_inv st'" "grows st st'"
  using start_ready_keeps [of "[0..<length (ws_Nodes st)]" st env now a started] assms by (simp_all add: keeps_def)

text \<open>One turn of the loop: it stops, fails, or goes on with less budget.\<close>

lemma advance_turn:
  assumes "engine_inv st" "\<not> workflowTerminalStatus (su_Status (ws_Summary st))" "\<not> en_done env st"
  obtains (fail) e where "advance_loop env now changed started st = Some (Inl e)"
  | (quiet) started1 where "advance_loop env now changed started st = Some (Inr (changed, started1, st))"
      "\<forall>n \<in> set (ws_Nodes st). \<not> node_ready st now n"
  | (more) started1 st2 where "advance_loop env now changed started st = advance_loop env now True started1 st2"
      "engine_inv st2" "grows st st2" "budget st2 < budget st"
proof -
  obtain advanced started1 st1 where
    r: "start_ready env now [0..<length (ws_Nodes st)] (False, started, st) = (advanced, started1, st1)"
    using prod_cases3 by blast
  note inv1 = start_ready_inv [OF r assms(1)]
  note loop = advance_loop.simps [of env now changed started st]
  show thesis
  proof (cases "processWorkflowEdges env now st1")
    case (Inl e)
    then have "advance_loop env now changed started st = Some (Inl e)"
      unfolding loop using assms r by simp
    then show thesis by (rule fail)
  next
    case (Inr p)
    obtain ec st2 where p: "processWorkflowEdges env now st1 = Inr (ec, st2)" using Inr by (cases p) auto
    have ok: "engine_inv st2" "grows st1 st2" "(ec, st2) = (False, st1) \<or> ec \<and> budget st2 < budget st1"
      using processWorkflowEdges_ok [OF p] inv1(1) by (simp_all add: step_ok_def)
    have b: "(advanced = False \<and> st1 = st \<and> (\<forall>k \<in> set [0..<length (ws_Nodes st)]. \<not> node_ready st now (ws_Nodes st ! k)))
        \<or> (advanced \<and> budget st1 < budget st)"
      using start_ready_budget [OF r assms(1)] by simp
    show thesis
    proof (cases "advanced \<or> ec")
      case True
      then have "budget st2 < budget st" using b ok(3) by auto
      moreover have "advance_loop env now changed started st = advance_loop env now True started1 st2"
        unfolding loop using assms r p True by auto
      ultimately show thesis using more ok(1) grows_trans [OF inv1(2) ok(2)] by blast
    next
      case False
      then have "st2 = st" "\<forall>n \<in> set (ws_Nodes st). \<not> node_ready st now n"
        using b ok(3) by (auto simp: in_set_conv_nth)
      moreover have "advance_loop env now changed started st = Some (Inr (changed, started1, st2))"
        unfolding loop using assms r p False by simp
      ultimately show thesis using quiet by blast
    qed
  qed
qed

lemma advance_stop:
  "workflowTerminalStatus (su_Status (ws_Summary st)) \<or> en_done env st \<Longrightarrow>
   advance_loop env now changed started st = Some (Inr (changed, started, st))"
  by (subst advance_loop.simps) simp

lemma advance_loop_result:
  assumes "engine_inv st"
  shows "\<exists>r. advance_loop env now changed started st = Some r \<and>
    (case r of Inl e \<Rightarrow> True
     | Inr (changed', started', st') \<Rightarrow> engine_inv st' \<and> grows st st' \<and>
         (workflowTerminalStatus (su_Status (ws_Summary st')) \<or> en_done env st' \<or>
          (\<forall>n \<in> set (ws_Nodes st'). \<not> node_ready st' now n)))"
  using assms
proof (induction "budget st" arbitrary: changed started st rule: less_induct)
  case less
  show ?case
  proof (cases "workflowTerminalStatus (su_Status (ws_Summary st)) \<or> en_done env st")
    case True
    with advance_stop [OF True] less.prems show ?thesis by auto
  next
    case False
    then have nt: "\<not> workflowTerminalStatus (su_Status (ws_Summary st))" "\<not> en_done env st" by simp_all
    from less.prems nt show ?thesis
    proof (cases rule: advance_turn [where now = now and changed = changed and started = started])
      case (more started1 st2)
      from less.hyps [OF more(4,2), of True started1] obtain r where
        "advance_loop env now True started1 st2 = Some r"
        "case r of Inl e \<Rightarrow> True
         | Inr (changed', started', st') \<Rightarrow> engine_inv st' \<and> grows st2 st' \<and>
             (workflowTerminalStatus (su_Status (ws_Summary st')) \<or> en_done env st' \<or>
              (\<forall>n \<in> set (ws_Nodes st'). \<not> node_ready st' now n))" by blast
      with more(1) grows_trans [OF more(3)] show ?thesis by (auto split: sum.splits)
    qed (use less.prems in auto)
  qed
qed


section \<open>Every operation keeps the invariant\<close>

lemma sync_keeps: "sync env now st = Inr (changed, st') \<Longrightarrow> keeps st st'"
proof -
  assume s: "sync env now st = Inr (changed, st')"
  obtain c1 st1 where 1: "refreshWorkflowNodes env now st = (c1, st1)" by fastforce
  obtain c2 st2 where 2: "processWorkflowEdges env now st1 = Inr (c2, st2)"
    using s 1 by (auto simp: sync_def split: sum.splits)
  obtain c3 st3 where 3: "expireWorkflowRun env now st2 = (c3, st3)" by fastforce
  obtain c4 st4 where 4: "finalizeWorkflowRunOutputs env st3 = (c4, st4)" by fastforce
  have "keeps st st1" "keeps st1 st2" "keeps st2 st3" "keeps st3 st4"
    using refreshWorkflowNodes_keeps [of st env now] 1 processWorkflowEdges_keeps [OF 2]
      expireWorkflowRun_keeps [of st2 env now] 3 finalizeWorkflowRunOutputs_keeps [of st3 env] 4 by simp_all
  moreover have "st' = st4" using s 1 2 3 4 by (simp add: sync_def)
  ultimately show ?thesis using keeps_trans by blast
qed

lemma save_cases:
  assumes "save env stored st r = (stored', r')"
  shows "stored' = stored \<or> stored' = st \<and> r' = Inr r"
  using assms by (auto simp: save_def split: option.splits)

lemma workflowStateUnlocked_keeps:
  assumes "workflowStateUnlocked env now stored = (stored', r)"
  shows "keeps stored stored'" "r = Inr st \<Longrightarrow> keeps stored st"
proof -
  have "keeps stored stored' \<and> (\<forall>st. r = Inr st \<longrightarrow> keeps stored st)"
  proof (cases "sync env now (load stored)")
    case (Inl e)
    with assms show ?thesis by (auto simp: workflowStateUnlocked_def)
  next
    case (Inr p)
    obtain c st where p: "sync env now (load stored) = Inr (c, st)" using Inr by (cases p) auto
    have k: "keeps stored st" using keeps_trans [OF load_keeps sync_keeps [OF p]] .
    have "(c \<and> save env stored st st = (stored', r)) \<or> (\<not> c \<and> stored' = stored \<and> r = Inr st)"
      using assms p by (auto simp: workflowStateUnlocked_def split: if_splits)
    then show ?thesis
    proof
      assume "c \<and> save env stored st st = (stored', r)"
      then show ?thesis using k by (auto simp: save_def split: option.splits)
    qed (use k in simp)
  qed
  then show "keeps stored stored'" "r = Inr st \<Longrightarrow> keeps stored st" by simp_all
qed

lemma refreshed_keeps:
  assumes "refreshed env now k stored = (stored', r)"
    and "\<And>stored1 st stored' r. k stored1 st = (stored', r) \<Longrightarrow> stored' = stored1 \<or> keeps st stored'"
  shows "keeps stored stored'"
proof -
  obtain stored1 u where u: "workflowStateUnlocked env now stored = (stored1, u)" by fastforce
  show ?thesis
  proof (cases u)
    case (Inl e)
    with assms(1) u workflowStateUnlocked_keeps(1) [OF u] show ?thesis by (simp add: refreshed_def)
  next
    case (Inr st)
    then have "k stored1 st = (stored', r)" using assms(1) u by (simp add: refreshed_def)
    with assms(2) workflowStateUnlocked_keeps [OF u] Inr keeps_trans show ?thesis by blast
  qed
qed

text \<open>The end of most operations: refresh the status, process the edges, save.\<close>

lemma process_save:
  assumes "(case processWorkflowEdges env now (refreshWorkflowStatus st) of
       Inl e \<Rightarrow> (stored, Inl e) | Inr (_, st1) \<Rightarrow> save env stored st1 (f st1)) = (stored', r)"
  shows "stored' = stored \<or> keeps st stored'"
proof (cases "processWorkflowEdges env now (refreshWorkflowStatus st)")
  case (Inr p)
  obtain c st1 where p: "processWorkflowEdges env now (refreshWorkflowStatus st) = Inr (c, st1)" using Inr by (cases p) auto
  have "keeps st st1" using keeps_trans [OF refreshWorkflowStatus_keeps processWorkflowEdges_keeps [OF p]] .
  moreover have "stored' = stored \<or> stored' = st1" using assms p save_cases by fastforce
  ultimately show ?thesis by blast
qed (use assms in simp)

lemmas process_save_same = process_save [where f = "\<lambda>st. st"]

lemma stepWorkflow_keeps:
  assumes "stepWorkflow env now stored = (stored', r)"
  shows "keeps stored stored'"
  using assms unfolding stepWorkflow_def
proof (rule refreshed_keeps)
  fix stored1 st stored' :: workflow_state and r
  define st1 where "st1 = (case find (\<lambda>k. node_ready st now (ws_Nodes st ! k)) [0..<length (ws_Nodes st)] of
      None \<Rightarrow> st | Some k \<Rightarrow> startWorkflowNode env now k st)"
  have "keeps st st1"
    by (auto simp: st1_def find_Some_iff intro: startWorkflowNode_keeps split: option.splits)
  then have t: "keeps st (touch now st1)" using keeps_trans touch_keeps by blast
  assume "(let st1 = (case find (\<lambda>k. node_ready st now (ws_Nodes st ! k)) [0..<length (ws_Nodes st)] of
                 None \<Rightarrow> st | Some k \<Rightarrow> startWorkflowNode env now k st)
    in case processWorkflowEdges env now (refreshWorkflowStatus (touch now st1)) of
         Inl e \<Rightarrow> (stored1, Inl e)
       | Inr (_, st2) \<Rightarrow> save env stored1 st2 st2) = (stored', r)"
  then have "stored' = stored1 \<or> keeps (touch now st1) stored'"
    unfolding Let_def st1_def [symmetric] by (rule process_save_same)
  then show "stored' = stored1 \<or> keeps st stored'" using keeps_trans [OF t] by blast
qed

lemma cancelWorkflowNode_keeps:
  assumes "cancelWorkflowNode env now nodeID stored = (stored', r)"
  shows "keeps stored stored'"
  using assms unfolding cancelWorkflowNode_def
proof (rule refreshed_keeps)
  fix stored1 st stored' :: workflow_state and r
  let ?st = "st\<lparr>ws_Nodes := map (cancel_node now nodeID) (ws_Nodes st)\<rparr>"
  have "static_of (cancel_node now nodeID n) = static_of n" for n by (simp add: cancel_node_def static_of_def)
  moreover have "node_inv n \<Longrightarrow> node_inv (cancel_node now nodeID n)" for n
    by (erule node_inv_status) (simp_all add: cancel_node_def static_of_def)
  ultimately have "keeps st ?st" by (intro keeps_map_nodes [where f = "cancel_node now nodeID"]) simp_all
  then have t: "keeps st (touch now ?st)" using keeps_trans touch_keeps by blast
  assume "(case processWorkflowEdges env now (refreshWorkflowStatus (touch now ?st)) of
      Inl e \<Rightarrow> (stored1, Inl e) | Inr (_, st1) \<Rightarrow> save env stored1 st1 st1) = (stored', r)"
  then have "stored' = stored1 \<or> keeps (touch now ?st) stored'"
    by (rule process_save_same)
  then show "stored' = stored1 \<or> keeps st stored'" using keeps_trans [OF t] by blast
qed

lemma complete_by_hand_keeps:
  assumes "complete_by_hand env now st result outs n = Inr n'" "node_inv n"
  shows "static_of n' = static_of n" "node_inv n'"
proof -
  let ?n2 = "n\<lparr>wn_Outputs := put_all outs (wn_Outputs n), wn_Status := ''completed'', wn_Attempt := nextWorkflowAttempt n,
     wn_ResultPreview := en_preview env result, wn_Error := [], wn_UpdatedAt := now, wn_FinishedAt := now\<rparr>"
  obtain n3 err where f0: "finalizeWorkflowNodeHandoff env st ?n2 result = (n3, err)" by fastforce
  have a: "nextWorkflowAttempt (n\<lparr>wn_Outputs := os\<rparr>) = nextWorkflowAttempt n" for os
    by (simp add: nextWorkflowAttempt_def)
  have f: "finalizeWorkflowNodeHandoff env st ?n2 result = (n3, None)" "n' = runPostScript env st n3"
    using assms(1) f0 by (simp_all add: complete_by_hand_def Let_def a split: option.splits)
  have pos: "0 < wn_Attempt ?n2" by (simp add: nextWorkflowAttempt_def)
  note k = finalize_keeps(1,2,4) [OF f(1)]
  have "static_of ?n2 = static_of n" by (simp add: static_of_def)
  with k(1) show st: "static_of n' = static_of n" by (simp add: f(2))
  have "''completed'' \<in> set known_statuses" by code_simp
  moreover have "wn_Attempt n' = nextWorkflowAttempt n" "wn_Status n' = ''completed''"
    using k(2,3) pos by (simp_all add: f(2))
  moreover have "wn_Retry n' = wn_Retry n" using st by (simp add: static_of_def)
  ultimately show "node_inv n'"
    using assms(2) attempt_cap_pos [of "wn_Retry n"] by (simp add: node_inv_def nextWorkflowAttempt_def)
qed

lemma complete_all_keeps:
  assumes "each_st (complete_at env now nodeID result outs) (found, st) ks = Inr (found', st')"
    "\<forall>k \<in> set ks. k < length (ws_Nodes st)"
  shows "keeps st st'"
  using assms
proof (induction ks arbitrary: found st)
  case (Cons k ks)
  then obtain f1 st1 where one: "complete_at env now nodeID result outs (found, st) k = Inr (f1, st1)"
    and rest: "each_st (complete_at env now nodeID result outs) (f1, st1) ks = Inr (found', st')"
    by (auto split: sum.splits)
  have k: "k < length (ws_Nodes st)" using Cons.prems(2) by simp
  have "st1 = st \<or> (\<exists>n'. complete_by_hand env now st result outs (ws_Nodes st ! k) = Inr n' \<and> st1 = store_node k n' st)"
    using one by (cases "complete_by_hand env now st result outs (ws_Nodes st ! k)")
      (auto simp: complete_at_def Let_def split: if_splits)
  then have "engine_inv st \<Longrightarrow> keeps st st1" and l: "length (ws_Nodes st1) = length (ws_Nodes st)"
    using keeps_store_node [OF k] complete_by_hand_keeps k by (auto simp: engine_inv_def)
  moreover have "keeps st1 st'" using Cons.IH [OF rest] Cons.prems(2) l by simp
  ultimately show ?case using keeps_trans by (metis keeps_def)
qed simp

lemma completeWorkflowNodeWithOutputs_keeps:
  assumes "completeWorkflowNodeWithOutputs env now nodeID result outs stored = (stored', r)"
  shows "keeps stored stored'"
  using assms unfolding completeWorkflowNodeWithOutputs_def
proof (rule refreshed_keeps)
  fix stored1 st stored' :: workflow_state and r
  let ?run = "each_st (complete_at env now (trim_space nodeID) result outs) (False, st) [0..<length (ws_Nodes st)]"
  assume op: "(let nodeID = trim_space nodeID in
    if nodeID = [] then (stored1, Inl (Errorf ''missing node_id'' []))
    else (case each_st (complete_at env now nodeID result outs) (False, st) [0..<length (ws_Nodes st)] of
      Inl e \<Rightarrow> (stored1, Inl e)
    | Inr (found, st1) \<Rightarrow>
        if \<not> found then (stored1, Inl (Errorf ''workflow node not found: %s'' [nodeID]))
        else (case processWorkflowEdges env now (refreshWorkflowStatus (touch now st1)) of
          Inl e \<Rightarrow> (stored1, Inl e)
        | Inr (_, st2) \<Rightarrow> save env stored1 st2 st2))) = (stored', r)"
  show "stored' = stored1 \<or> keeps st stored'"
  proof (cases "stored' = stored1")
    case False
    then obtain st1 where run: "?run = Inr (True, st1)" and
      s: "(case processWorkflowEdges env now (refreshWorkflowStatus (touch now st1)) of
          Inl e \<Rightarrow> (stored1, Inl e) | Inr (_, st2) \<Rightarrow> save env stored1 st2 st2) = (stored', r)"
      using op by (auto simp: Let_def split: if_splits sum.splits)
    have "keeps st st1" using complete_all_keeps [OF run] by simp
    then have t: "keeps st (touch now st1)" using keeps_trans touch_keeps by blast
    have "stored' = stored1 \<or> keeps (touch now st1) stored'"
      using s by (rule process_save_same)
    then show ?thesis using keeps_trans [OF t] by blast
  qed simp
qed


text \<open>What the caller passes is made of 64-bit integers.\<close>

definition typed_input :: "workflow_node_input \<Rightarrow> bool" where
  "typed_input i \<longleftrightarrow> (case ni_Retry i of None \<Rightarrow> True | Some p \<Rightarrow> wr_MaxAttempts p \<le> max_int64)"

definition typed_edge_input :: "workflow_edge_input \<Rightarrow> bool" where
  "typed_edge_input e \<longleftrightarrow> ei_MaxIterations e \<le> max_int64 \<and> typed_input (ei_Append e)"

lemma typed_input_cap: "typed_input i \<Longrightarrow> attempt_cap (normalizeWorkflowRetryPolicy (ni_Retry i)) \<le> max_int64"
  by (auto simp: typed_input_def attempt_cap_def normalizeWorkflowRetryPolicy_def Let_def split: option.splits)

lemma edges_from_typed:
  assumes "edges_from k out is = Inr out'" "Ball (set out) edge_typed" "Ball (set is) typed_edge_input"
  shows "Ball (set out') edge_typed"
  using assms
proof (induction k out "is" rule: edges_from.induct)
  case (2 k out i "is")
  let ?e = "build_edge (edge_id_of k i) i"
  have "edge_typed ?e"
    using "2.prems"(3) typed_input_cap [of "ei_Append i"]
    by (simp add: edge_typed_def build_edge_def typed_edge_input_def normalizeWorkflowEdgeMaxIterations_def)
  with "2.IH" "2.prems" show ?case by (simp add: Let_def split: if_splits)
qed auto

lemma appendWorkflowNodes_keeps:
  assumes "appendWorkflowNodes env now inputs edgeInputs key stored = (stored', r)"
    "Ball (set inputs) typed_input" "Ball (set edgeInputs) typed_edge_input"
  shows "keeps stored stored'"
  using assms(1) unfolding appendWorkflowNodes_def
proof (rule refreshed_keeps)
  fix stored1 st stored' :: workflow_state and r :: "go_error + workflow_view"
  assume op: "(let key = trim_space key;
        known = (case map_of (su_AppendKeys (ws_Summary st)) key of None \<Rightarrow> [] | Some ids \<Rightarrow> ids) in
    if key \<noteq> [] \<and> length known > 0 then (stored1, Inr ((workflowViewFromState st)\<lparr>vw_Appended := known\<rparr>))
    else if length inputs = 0 \<and> length edgeInputs = 0 then (stored1, Inl (Errorf ''missing workflow nodes or edges'' []))
    else if length (ws_Nodes st) + length inputs > workflowMaxNodes
    then (stored1, Inl (Errorf ''workflow node limit is %d'' [itoa (int workflowMaxNodes)]))
    else (case workflowNodesFromInputs inputs (remdups (map wn_ID (ws_Nodes st))) now of
      Inl e \<Rightarrow> (stored1, Inl e)
    | Inr newNodes \<Rightarrow>
        let combined = ws_Nodes st @ newNodes in
        (case validateWorkflowDeps combined of
           Some e \<Rightarrow> (stored1, Inl e)
         | None \<Rightarrow>
             (case workflowEdgesFromInputs edgeInputs of
                Inl e \<Rightarrow> (stored1, Inl e)
              | Inr newEdges \<Rightarrow>
                  let combinedEdges = ws_Edges st @ newEdges in
                  (case validateWorkflowEdges combinedEdges combined of
                     Some e \<Rightarrow> (stored1, Inl e)
                   | None \<Rightarrow>
                       let st1 = touch now (st\<lparr>ws_Nodes := combined, ws_Edges := combinedEdges\<rparr>);
                           st2 = (if key \<noteq> [] then set_summary (\<lambda>s. s\<lparr>su_AppendKeys :=
                                    put key (workflowNodeIDs newNodes) (su_AppendKeys s)\<rparr>) st1 else st1)
                       in (case processWorkflowEdges env now (refreshWorkflowStatus st2) of
                             Inl e \<Rightarrow> (stored1, Inl e)
                           | Inr (_, st3) \<Rightarrow> save env stored1 st3
                               ((workflowViewFromState st3)\<lparr>vw_Appended := workflowNodeIDs newNodes\<rparr>))))))) = (stored', r)"
  show "stored' = stored1 \<or> keeps st stored'"
  proof (cases "stored' = stored1 \<or> \<not> engine_inv st")
    case False
    then obtain new newEdges st1 st2 where
      n: "workflowNodesFromInputs inputs (remdups (map wn_ID (ws_Nodes st))) now = Inr new"
        "validateWorkflowDeps (ws_Nodes st @ new) = None" "length (ws_Nodes st) + length inputs \<le> workflowMaxNodes"
      and e: "workflowEdgesFromInputs edgeInputs = Inr newEdges"
        "validateWorkflowEdges (ws_Edges st @ newEdges) (ws_Nodes st @ new) = None"
      and st1: "st1 = touch now (st\<lparr>ws_Nodes := ws_Nodes st @ new, ws_Edges := ws_Edges st @ newEdges\<rparr>)"
      and st2: "st2 = (if trim_space key \<noteq> [] then set_summary (\<lambda>s. s\<lparr>su_AppendKeys :=
            put (trim_space key) (workflowNodeIDs new) (su_AppendKeys s)\<rparr>) st1 else st1)"
      and p: "(case processWorkflowEdges env now (refreshWorkflowStatus st2) of
            Inl e \<Rightarrow> (stored1, Inl e)
          | Inr (_, st3) \<Rightarrow> save env stored1 st3
              ((workflowViewFromState st3)\<lparr>vw_Appended := workflowNodeIDs new\<rparr>)) = (stored', r)"
      and fresh: "trim_space key \<noteq> [] \<longrightarrow> append_ids_of st (trim_space key) = []"
      using op unfolding Let_def append_ids_of_def by (auto split: if_splits sum.splits option.splits)
    have inv: "engine_inv st" using False by simp
    have typed: "\<forall>i \<in> set inputs. attempt_cap (normalizeWorkflowRetryPolicy (ni_Retry i)) \<le> max_int64"
      using assms(2) typed_input_cap by blast
    have "Ball (set newEdges) edge_typed"
      using edges_from_typed [of 0 "[]" edgeInputs newEdges] e(1) assms(3) by (simp add: workflowEdgesFromInputs_def)
    moreover have "counters_inv st1" using inv by (fastforce simp: engine_inv_def counters_inv_def st1 touch_def)
    ultimately have inv1: "engine_inv st1"
      using inv appended_nodes [OF inv n(1) typed n(2)] e(2) validateWorkflowEdges_None workflowEdgesFromInputs_Inr(2) [OF e(1)]
      by (auto simp: engine_inv_def wf_state_def st1 touch_def)
    have "grows st st1"
      using n(3) workflowNodesFromInputs_Inr(2) [OF n(1)] by (simp add: grows_def append_ids_of_def st1 touch_def)
    with inv1 have "keeps st st1" by (simp add: keeps_def)
    moreover have "keeps st1 st2"
      using fresh by (auto simp: keeps_def st2 engine_inv_def wf_state_def counters_inv_def grows_def append_ids_of_def
          put_map_of st1 touch_def)
    moreover have "stored' = stored1 \<or> keeps st2 stored'" by (rule process_save [OF p])
    ultimately show ?thesis using keeps_trans by blast
  qed (auto simp: keeps_def)
qed

lemma settle_keeps: "keeps st (snd (settle env now c st))"
proof -
  obtain c1 st1 where 1: "expireWorkflowRun env now st = (c1, st1)" by fastforce
  define st2 where "st2 = refreshWorkflowStatus (if c \<or> c1 then touch now st1 else st1)"
  obtain c2 st3 where 3: "finalizeWorkflowRunOutputs env st2 = (c2, st3)" by fastforce
  have "keeps st st1" using expireWorkflowRun_keeps [of st env now] 1 by simp
  moreover have "keeps st1 st2"
    unfolding st2_def using keeps_trans [OF touch_keeps refreshWorkflowStatus_keeps] refreshWorkflowStatus_keeps by simp
  moreover have "keeps st2 st3" using finalizeWorkflowRunOutputs_keeps [of st2 env] 3 by simp
  moreover have "snd (settle env now c st) = (if c2 then touch now st3 else st3)"
    using 1 3 by (simp add: settle_def Let_def st2_def)
  ultimately show ?thesis by (cases c2) (metis (full_types) keeps_trans touch_keeps)+
qed

lemma advanceWorkflowReadyNodes_result:
  assumes "engine_inv stored"
  shows "\<exists>stored' r. advanceWorkflowReadyNodes env now later auto stored = Some (stored', r) \<and>
    engine_inv stored' \<and> grows stored stored'"
proof -
  obtain stored1 u where u: "workflowStateUnlocked env now stored = (stored1, u)" by fastforce
  have s1: "engine_inv stored1" "grows stored stored1"
    using workflowStateUnlocked_keeps(1) [OF u] assms by (simp_all add: keeps_def)
  show ?thesis
  proof (cases "\<exists>st. u = Inr st \<and> \<not> workflowTerminalStatus (su_Status (ws_Summary st))")
    case False
    then show ?thesis using u s1 by (cases u) (auto simp: advanceWorkflowReadyNodes_def)
  next
    case True
    then obtain st where st: "u = Inr st" "\<not> workflowTerminalStatus (su_Status (ws_Summary st))" by blast
    define flip where "flip = (auto \<and> \<not> su_AutoSchedule (ws_Summary st))"
    define st1 where "st1 = (if flip then set_summary (\<lambda>s. s\<lparr>su_AutoSchedule := True\<rparr>) st else st)"
    have "keeps st st1" by (simp add: st1_def keeps_summary)
    then have inv1: "engine_inv st1" "grows stored st1"
      using workflowStateUnlocked_keeps(2) [OF u st(1)] keeps_trans assms by (auto simp: keeps_def)
    obtain r where r: "advance_loop env now flip [] st1 = Some r"
      "case r of Inl e \<Rightarrow> True | Inr (c, s, st') \<Rightarrow> engine_inv st' \<and> grows st1 st'"
      using advance_loop_result [OF inv1(1), of env now flip "[]"] by (fastforce split: sum.splits)
    note adv = advanceWorkflowReadyNodes_def [of env now later auto stored]
    show ?thesis
    proof (cases r)
      case (Inl e)
      then show ?thesis using u st r s1 by (simp add: adv flip_def [symmetric] st1_def [symmetric])
    next
      case (Inr p)
      obtain c s st2 where p: "r = Inr (c, s, st2)" using Inr by (cases p) auto
      obtain c3 st3 where t: "settle env later c st2 = (c3, st3)" by fastforce
      have inv2: "engine_inv st2" "grows st1 st2" using r(2) unfolding p by simp_all
      have "keeps st2 st3" using settle_keeps [of st2 env later c] unfolding t by simp
      then have inv3: "engine_inv st3" "grows st2 st3" using inv2(1) unfolding keeps_def by blast+
      have "engine_inv st3" "grows stored st3"
        using inv3(1) grows_trans [OF inv1(2) grows_trans [OF inv2(2) inv3(2)]] by blast+
      moreover define view where "view = (workflowViewFromState st3)\<lparr>vw_Started := s\<rparr>"
      have "advanceWorkflowReadyNodes env now later auto stored =
          Some (if c3 then save env stored1 st3 view else (stored1, Inr view))"
        using u st r p t by (simp add: adv flip_def [symmetric] st1_def [symmetric] view_def Let_def)
      then have "\<exists>r'. advanceWorkflowReadyNodes env now later auto stored = Some (stored1, r') \<or>
          advanceWorkflowReadyNodes env now later auto stored = Some (st3, r')"
        by (cases "en_save env st3") (auto simp: save_def)
      ultimately show ?thesis using s1 by auto
    qed
  qed
qed


section \<open>Runs\<close>

text \<open>
  A step of a run is one operation, in any environment and at any time; whatever the operation
  returns, the stored state goes from the first to the second argument.
\<close>

inductive run_step :: "workflow_state \<Rightarrow> workflow_state \<Rightarrow> bool" where
  refresh: "workflowStateUnlocked env now st = (st', r) \<Longrightarrow> run_step st st'"
| advance: "advanceWorkflowReadyNodes env now later auto st = Some (st', r) \<Longrightarrow> run_step st st'"
| single: "stepWorkflow env now st = (st', r) \<Longrightarrow> run_step st st'"
| append: "appendWorkflowNodes env now inputs edges key st = (st', r) \<Longrightarrow>
     Ball (set inputs) typed_input \<Longrightarrow> Ball (set edges) typed_edge_input \<Longrightarrow> run_step st st'"
| cancel: "cancelWorkflowNode env now nodeID st = (st', r) \<Longrightarrow> run_step st st'"
| complete: "completeWorkflowNodeWithOutputs env now nodeID result outs st = (st', r) \<Longrightarrow> run_step st st'"

inductive reachable :: "workflow_state \<Rightarrow> workflow_state \<Rightarrow> bool" for st0 where
  start: "reachable st0 st0"
| step: "reachable st0 st \<Longrightarrow> run_step st st' \<Longrightarrow> reachable st0 st'"

lemma run_step_keeps: "run_step st st' \<Longrightarrow> keeps st st'"
proof (induction rule: run_step.induct)
  case (advance env now later auto st st' r)
  then show ?case using advanceWorkflowReadyNodes_result [of st env now later auto] by (auto simp: keeps_def)
qed (erule workflowStateUnlocked_keeps(1) stepWorkflow_keeps cancelWorkflowNode_keeps
    completeWorkflowNodeWithOutputs_keeps | erule (2) appendWorkflowNodes_keeps)+

lemma reachable_keeps: "reachable st0 st \<Longrightarrow> keeps st0 st"
  by (induction rule: reachable.induct) (auto intro: keeps_trans run_step_keeps)

lemma create_inv:
  assumes "create stat saved sessionID workflowID inputs edgeInputs now = Inr st"
    "Ball (set inputs) typed_input" "Ball (set edgeInputs) typed_edge_input"
  shows "engine_inv st"
proof -
  obtain i where b: "build_state i sessionID inputs edgeInputs now = Inr st"
    using create_Inr [OF assms(1)] by blast
  then obtain nodes edges where n: "workflowNodesFromInputs inputs [] now = Inr nodes"
      "workflowEdgesFromInputs edgeInputs = Inr edges" "ws_Nodes st = nodes" "ws_Edges st = edges"
    by (auto simp: build_state_def split: sum.splits option.splits)
  have "node_inv x" if x: "x \<in> set nodes" for x
  proof -
    obtain j where "j \<in> set inputs" "built j x"
      using list_all2_origin [OF workflowNodesFromInputs_Inr(1) [OF n(1)] x] by blast
    then show ?thesis using fresh_node_inv typed_input_cap assms(2) by blast
  qed
  moreover have "Ball (set edges) edge_typed"
    using edges_from_typed [of 0 "[]" edgeInputs edges] n(2) assms(3) by (simp add: workflowEdgesFromInputs_def)
  ultimately show ?thesis
    using build_state_Inr [OF b] n by (simp add: engine_inv_def counters_inv_def new_summary_def)
qed

end
