(* ===== verification/Workflow_Correct.thy ===== *)
theory Workflow_Correct
  imports Workflow_Runs
begin

text \<open>
  What the workflow engine guarantees over whole runs: the invariant of every reachable state,
  the end of the scheduler's loop, its progress, the order of starts, the status of a run and
  the idempotence of an append.
\<close>

section \<open>Runs of created workflows\<close>

definition run_of :: "workflow_node_input list \<Rightarrow> workflow_edge_input list \<Rightarrow> workflow_state \<Rightarrow> bool" where
  "run_of inputs edges st \<longleftrightarrow> Ball (set inputs) typed_input \<and> Ball (set edges) typed_edge_input \<and>
     (\<exists>stat saved sessionID workflowID now st0.
        create stat saved sessionID workflowID inputs edges now = Inr st0 \<and> reachable st0 st)"

lemma map_eq_list_all2: "map f xs = map f ys \<longleftrightarrow> list_all2 (\<lambda>y x. f x = f y) ys xs"
  by (auto simp: list_all2_conv_all_nth list_eq_iff_nth_eq)

lemma run_of_create:
  assumes "create stat saved sessionID workflowID inputs edges now = Inr st"
    "Ball (set inputs) typed_input" "Ball (set edges) typed_edge_input"
  shows "run_of inputs edges st"
  using assms reachable.start unfolding run_of_def by blast

lemma run_of_step: "run_of inputs edges st \<Longrightarrow> run_step st st' \<Longrightarrow> run_of inputs edges st'"
  unfolding run_of_def using reachable.step by blast

lemma run_of_inv:
  assumes "run_of inputs edges st"
  obtains st0 where "engine_inv st" "grows st0 st" "length (ws_Nodes st0) = length inputs" "inputs \<noteq> []"
    "list_all2 built inputs (ws_Nodes st0)"
proof -
  obtain stat saved sessionID workflowID now st0 where
    c: "create stat saved sessionID workflowID inputs edges now = Inr st0" and r: "reachable st0 st"
    using assms by (auto simp: run_of_def)
  have "engine_inv st0" using create_inv [OF c] assms by (simp add: run_of_def)
  then have inv: "engine_inv st" "grows st0 st" using reachable_keeps [OF r] by (simp_all add: keeps_def)
  obtain i where b: "build_state i sessionID inputs edges now = Inr st0" "inputs \<noteq> []"
    using create_Inr [OF c] by blast
  then have "workflowNodesFromInputs inputs [] now = Inr (ws_Nodes st0)"
    by (auto simp: build_state_def split: sum.splits option.splits)
  note n = workflowNodesFromInputs_Inr [OF this]
  show thesis by (rule that [OF inv n(2) b(2) n(1)])
qed

lemma run_of_engine_inv: "run_of inputs edges st \<Longrightarrow> engine_inv st"
  by (erule run_of_inv)

lemma run_of_nonempty: "run_of inputs edges st \<Longrightarrow> ws_Nodes st \<noteq> []"
  by (erule run_of_inv) (auto simp: grows_def)

section \<open>An example run\<close>

definition node_template :: workflow_node_input where
  "node_template = \<lparr>ni_ID = [], ni_Kind = [], ni_Title = [], ni_Prompt = ''p'', ni_TimeoutSec = 0, ni_DependsOn = [],
     ni_HandoffPolicy = [], ni_HandoffFrom = [], ni_HandoffMaxBytes = 0, ni_PreviewMerge = None, ni_AgentType = [],
     ni_AgentRef = [], ni_WriteScope = [], ni_Retry = None, ni_Decision = None, ni_Human = None, ni_Branch = None,
     ni_Function = None, ni_Service = None, ni_PreScript = [], ni_PostScript = [], ni_OutputSpec = []\<rparr>"

definition demo_service :: workflow_service_spec where
  "demo_service = \<lparr>ws_Method = ''GET'', ws_URL = ''u'', ws_Headers = [], ws_Body = RawEmpty, ws_Auth = None, ws_Network = None\<rparr>"

text \<open>A service call and a step that depends on it; when the call completes, an edge adds a third node.\<close>

definition demo_inputs :: "workflow_node_input list" where
  "demo_inputs = [node_template\<lparr>ni_ID := ''a'', ni_Kind := ''service'', ni_Service := Some demo_service\<rparr>,
     node_template\<lparr>ni_ID := ''b'', ni_DependsOn := ['' a '']\<rparr>]"

definition on_completed :: workflow_edge_condition where
  "on_completed = WCond ''completed'' [] [] [] None None None [] []"

definition fix_edges :: "workflow_edge_input list" where
  "fix_edges = [\<lparr>ei_ID = ''e'', ei_From = ''a'', ei_FromPrefix = [], ei_FromKind = [], ei_When = on_completed,
     ei_Append = node_template\<lparr>ni_ID := ''c''\<rparr>, ei_MaxIterations = 0, ei_IterationKey = []\<rparr>]"

definition idle_env :: engine_env where
  "idle_env = \<lparr>en_float = (\<lambda>_. ''0''), en_decode = (\<lambda>_. None), en_json = (\<lambda>_. ''{}''), en_preview = (\<lambda>t. t),
     en_text = (\<lambda>_. ''error''), en_duration = (\<lambda>_. ''1s''), en_handoff = (\<lambda>_ _ _. Inr ''digest''),
     en_script = (\<lambda>_ _ _. ScriptRan [] [] 0 None), en_decide = (\<lambda>_. None), en_function = (\<lambda>_ _. Inr JNull),
     en_service = (\<lambda>_ _. Inr []), en_human = (\<lambda>_ _. Inr ''task''), en_start = (\<lambda>_ _. Inr ''job''),
     en_job = (\<lambda>_. None), en_save = (\<lambda>_. None), en_done = (\<lambda>_. False)\<rparr>"

definition created :: "workflow_node_input list \<Rightarrow> workflow_edge_input list \<Rightarrow> go_error + workflow_state" where
  "created inputs edges = create (\<lambda>_. None) (\<lambda>_. None) ''s'' ''w'' inputs edges 1"

definition state_of :: "workflow_node_input list \<Rightarrow> workflow_edge_input list \<Rightarrow> workflow_state" where
  "state_of inputs edges = \<lparr>ws_Summary = new_summary ''w'' ''s'' 1,
     ws_Nodes = projr (workflowNodesFromInputs inputs [] 1), ws_Edges = projr (workflowEdgesFromInputs edges)\<rparr>"

lemma created_state_of:
  assumes "inputs \<noteq> []" "\<not> isl (workflowNodesFromInputs inputs [] 1)" "\<not> isl (workflowEdgesFromInputs edges)"
    "validateWorkflowDeps (projr (workflowNodesFromInputs inputs [] 1)) = None"
    "validateWorkflowEdges (projr (workflowEdgesFromInputs edges)) (projr (workflowNodesFromInputs inputs [] 1)) = None"
  shows "created inputs edges = Inr (state_of inputs edges)"
proof -
  have w: "validateWorkflowID ''w'' = None" "trim_space ''w'' = ''w''" by code_simp+
  with assms show ?thesis
    by (cases "workflowNodesFromInputs inputs [] 1"; cases "workflowEdgesFromInputs edges")
       (simp_all add: created_def create_def build_state_def state_of_def)
qed

definition demo_state :: workflow_state where
  "demo_state = state_of demo_inputs fix_edges"

lemma demo_nodes: "\<not> isl (workflowNodesFromInputs demo_inputs [] 1)"
  by code_simp

lemma demo_created: "created demo_inputs fix_edges = Inr demo_state"
  unfolding demo_state_def by (rule created_state_of) code_simp+

lemma demo_typed: "Ball (set demo_inputs) typed_input" "Ball (set fix_edges) typed_edge_input"
  by (simp_all add: demo_inputs_def fix_edges_def node_template_def typed_input_def typed_edge_input_def)

lemma demo_workflow_run: "run_of demo_inputs fix_edges demo_state"
  using run_of_create [OF demo_created [unfolded created_def] demo_typed] .

section \<open>The invariant of a run\<close>

lemma run_of_facts:
  assumes "run_of inputs edges st"
  shows "wf_nodes (ws_Nodes st)" "wf_edges (ws_Edges st) (ws_Nodes st)"
    "\<forall>n \<in> set (ws_Nodes st). wn_Status n \<in> set known_statuses \<and>
       0 \<le> wn_Attempt n \<and> wn_Attempt n \<le> attempt_cap (wn_Retry n)"
    "\<forall>(key, k) \<in> set (su_EdgeIterations (ws_Summary st)).
       \<exists>e \<in> set (ws_Edges st). iteration_key e = key \<and> 0 < k \<and> k \<le> we_MaxIterations e"
    "distinct (su_ProcessedEdges (ws_Summary st))"
    "length (ws_Nodes st) \<le> max workflowMaxNodes (length inputs)"
    "list_all2 (\<lambda>i n. \<exists>n0. built i n0 \<and> static_of n = static_of n0) inputs (take (length inputs) (ws_Nodes st))"
proof -
  obtain st0 where inv: "engine_inv st" "grows st0 st" and st0: "length (ws_Nodes st0) = length inputs"
    "list_all2 built inputs (ws_Nodes st0)"
    using run_of_inv [OF assms] by blast
  show "wf_nodes (ws_Nodes st)" "wf_edges (ws_Edges st) (ws_Nodes st)"
    "\<forall>n \<in> set (ws_Nodes st). wn_Status n \<in> set known_statuses \<and>
       0 \<le> wn_Attempt n \<and> wn_Attempt n \<le> attempt_cap (wn_Retry n)"
    using inv(1) by (simp_all add: engine_inv_def wf_state_def node_inv_def)
  show "\<forall>(key, k) \<in> set (su_EdgeIterations (ws_Summary st)).
       \<exists>e \<in> set (ws_Edges st). iteration_key e = key \<and> 0 < k \<and> k \<le> we_MaxIterations e"
    "distinct (su_ProcessedEdges (ws_Summary st))"
    using inv(1) by (fastforce simp: engine_inv_def counters_inv_def)+
  show "length (ws_Nodes st) \<le> max workflowMaxNodes (length inputs)" using inv(2) st0(1) by (simp add: grows_def)
  obtain new where "map static_of (ws_Nodes st) = map static_of (ws_Nodes st0) @ new" using inv(2) by (auto simp: grows_def)
  then have "map static_of (take (length inputs) (ws_Nodes st)) = map static_of (ws_Nodes st0)"
    by (simp add: take_map [symmetric] st0(1) [symmetric])
  then have "list_all2 (\<lambda>n0 n. static_of n = static_of n0) (ws_Nodes st0) (take (length inputs) (ws_Nodes st))"
    by (simp only: map_eq_list_all2)
  then show "list_all2 (\<lambda>i n. \<exists>n0. built i n0 \<and> static_of n = static_of n0) inputs (take (length inputs) (ws_Nodes st))"
    by (rule list_all2_trans [rotated, OF st0(2)]) blast
qed

text \<open>
  C1. Whatever operations are applied to a created run, in whatever order, at whatever times and
  however the world outside behaves: the node ids stay unique, the dependencies known and
  acyclic, every node has a known status and was attempted at most as often as its retry policy
  allows, no edge fired more often than its iteration bound, no edge was processed twice for a
  node, the node limit holds (unless the workflow was created with more nodes), and the nodes
  the workflow was created with are still there, in their order.
\<close>

theorem workflow_run_invariant:
  assumes "run_of inputs edges st"
  shows "(wf_nodes (ws_Nodes st)) \<and>
    (wf_edges (ws_Edges st) (ws_Nodes st)) \<and>
    (\<forall>n \<in> set (ws_Nodes st). wn_Status n \<in> set known_statuses \<and>
       0 \<le> wn_Attempt n \<and> wn_Attempt n \<le> attempt_cap (wn_Retry n)) \<and>
    (\<forall>(key, k) \<in> set (su_EdgeIterations (ws_Summary st)).
       \<exists>e \<in> set (ws_Edges st). iteration_key e = key \<and> 0 < k \<and> k \<le> we_MaxIterations e) \<and>
    (distinct (su_ProcessedEdges (ws_Summary st))) \<and>
    (length (ws_Nodes st) \<le> max workflowMaxNodes (length inputs)) \<and>
    (list_all2 (\<lambda>i n. \<exists>n0. built i n0 \<and> static_of n = static_of n0) inputs (take (length inputs) (ws_Nodes st)))"
  using run_of_facts [OF assms] by blast

theorem workflow_run_invariant_witness:
  "wf_nodes (ws_Nodes (fst (cancelWorkflowNode idle_env 5 ''a'' demo_state))) \<and>
   length (ws_Nodes (fst (cancelWorkflowNode idle_env 5 ''a'' demo_state))) \<le> 64"
proof -
  have "run_step demo_state (fst (cancelWorkflowNode idle_env 5 ''a'' demo_state))"
    by (rule run_step.cancel [where r = "snd (cancelWorkflowNode idle_env 5 ''a'' demo_state)"]) (rule prod.collapse [symmetric])
  from run_of_step [OF demo_workflow_run this] show ?thesis
    using workflow_run_invariant [of demo_inputs fix_edges "fst (cancelWorkflowNode idle_env 5 ''a'' demo_state)"]
    by (simp add: demo_inputs_def)
qed

text \<open>
  C3. The scheduler always returns: on every state of a run one call of
  \<open>advanceWorkflowReadyNodes\<close> gives a result, although starting nodes, firing edges and retrying
  feed each other. No node is started forever and no template is expanded forever.
\<close>

theorem advance_returns:
  assumes "run_of inputs edges st"
  shows "\<exists>st' r. advanceWorkflowReadyNodes env now later auto st = Some (st', r) \<and> run_of inputs edges st'"
proof -
  obtain st' r where a: "advanceWorkflowReadyNodes env now later auto st = Some (st', r)"
    using advanceWorkflowReadyNodes_result [OF run_of_engine_inv [OF assms]] by blast
  with run_of_step [OF assms run_step.advance [OF a]] show ?thesis by blast
qed

theorem advance_returns_witness:
  "\<exists>st' r. advanceWorkflowReadyNodes idle_env 2 3 True demo_state = Some (st', r) \<and> run_of demo_inputs fix_edges st'"
  by (rule advance_returns [OF demo_workflow_run])

text \<open>
  On the nodes built from the inputs the engine's dependency check accepts exactly the
  graphs in which every dependency and handoff source is another node of the workflow and the
  dependencies are acyclic.
\<close>

theorem workflow_deps_decided:
  assumes "workflowNodesFromInputs inputs [] now = Inr nodes"
  shows "validateWorkflowDeps nodes = None \<longleftrightarrow> deps_known nodes \<and> acyclic (depends nodes)"
proof -
  note n = workflowNodesFromInputs_Inr [OF assms]
  have "distinct (map wn_ID nodes)" "Ball (set nodes) clean_node" using n(4) fresh_clean [OF n(3)] by simp_all
  then show ?thesis using validateWorkflowDeps_None by (auto simp: wf_nodes_def)
qed

theorem workflow_deps_decided_witness:
  "workflowNodesFromInputs demo_inputs [] 1 = Inr (ws_Nodes demo_state) \<and>
   deps_known (ws_Nodes demo_state) \<and> acyclic (depends (ws_Nodes demo_state))"
proof -
  have n: "workflowNodesFromInputs demo_inputs [] 1 = Inr (ws_Nodes demo_state)"
    using demo_nodes by (cases "workflowNodesFromInputs demo_inputs [] 1") (simp_all add: demo_state_def state_of_def)
  have "validateWorkflowDeps (ws_Nodes demo_state) = None" by code_simp
  with n workflow_deps_decided [OF n] show ?thesis by simp
qed

section \<open>The status of a run\<close>

lemma count_status_zero: "count_status s nodes = 0 \<longleftrightarrow> (\<forall>n \<in> set nodes. wn_Status n \<noteq> s)"
  by (auto simp: count_status_def filter_empty_conv)

lemma count_status_all: "count_status s nodes = length nodes \<longleftrightarrow> (\<forall>n \<in> set nodes. wn_Status n = s)"
  by (simp add: count_status_def)
     (metis (mono_tags, lifting) filter_True length_filter_less nat_neq_iff)

lemma count_status_two:
  assumes "s \<noteq> t"
  shows "count_status s nodes + count_status t nodes = length nodes \<longleftrightarrow>
    (\<forall>n \<in> set nodes. wn_Status n = s \<or> wn_Status n = t)"
proof -
  have "count_status s nodes + count_status t nodes = length (filter (\<lambda>n. wn_Status n = s \<or> wn_Status n = t) nodes)"
    using assms by (induction nodes) (auto simp: count_status_def)
  moreover have "length (filter P nodes) = length nodes \<longleftrightarrow> (\<forall>n \<in> set nodes. P n)" for P
    by (metis (mono_tags, lifting) filter_True length_filter_less nat_neq_iff)
  ultimately show ?thesis by simp
qed

lemmas count_status_facts = count_status_zero count_status_all count_status_two [of "''completed''" "''canceled''", simplified]

definition run_status :: "workflow_state \<Rightarrow> string" where
  "run_status st = su_Status (ws_Summary (refreshWorkflowStatus st))"

lemma run_status_cases:
  assumes "blank (su_Error (ws_Summary st))" "ws_Nodes st \<noteq> []"
  shows "run_status st =
    (if \<exists>n \<in> set (ws_Nodes st). wn_Status n = ''error'' then ''error''
     else if \<forall>n \<in> set (ws_Nodes st). wn_Status n = ''completed'' then ''completed''
     else if \<forall>n \<in> set (ws_Nodes st). wn_Status n = ''completed'' \<or> wn_Status n = ''canceled'' then ''canceled''
     else if \<exists>n \<in> set (ws_Nodes st). wn_Status n \<in> set [''running'', ''waiting_human'', ''completed''] then ''running''
     else ''pending'')"
proof -
  let ?c = "\<lambda>s. count_status s (ws_Nodes st)"
  have pos: "0 < ?c s \<longleftrightarrow> (\<exists>n \<in> set (ws_Nodes st). wn_Status n = s)" for s
    using count_status_zero [of s "ws_Nodes st"] by (simp add: neq0_conv [symmetric] del: neq0_conv)
  have two: "?c ''completed'' \<noteq> length (ws_Nodes st) \<longrightarrow>
      (0 < ?c ''canceled'' \<and> ?c ''completed'' + ?c ''canceled'' = length (ws_Nodes st) \<longleftrightarrow>
      (\<forall>n \<in> set (ws_Nodes st). wn_Status n = ''completed'' \<or> wn_Status n = ''canceled''))"
    unfolding count_status_facts pos by auto
  have run: "0 < ?c ''running'' \<or> 0 < ?c ''completed'' \<or> 0 < ?c ''waiting_human'' \<longleftrightarrow>
      (\<exists>n \<in> set (ws_Nodes st). wn_Status n \<in> set [''running'', ''waiting_human'', ''completed''])"
    unfolding pos by auto
  show ?thesis
    unfolding run_status_def refreshWorkflowStatus_def Let_def using assms two
    by (simp only: run [symmetric] pos [symmetric] count_status_all [symmetric]) auto
qed

lemma run_status_facts:
  assumes "run_of inputs edges st" "blank (su_Error (ws_Summary st))"
  shows "run_status st = ''error'' \<longleftrightarrow> (\<exists>n \<in> set (ws_Nodes st). wn_Status n = ''error'')"
    "run_status st = ''completed'' \<longleftrightarrow> (\<forall>n \<in> set (ws_Nodes st). wn_Status n = ''completed'')"
    "run_status st = ''canceled'' \<longleftrightarrow> (\<exists>n \<in> set (ws_Nodes st). wn_Status n = ''canceled'') \<and>
       (\<forall>n \<in> set (ws_Nodes st). wn_Status n = ''completed'' \<or> wn_Status n = ''canceled'')"
    "workflowTerminalStatus (run_status st) \<longleftrightarrow> (\<exists>n \<in> set (ws_Nodes st). wn_Status n = ''error'') \<or>
       (\<forall>n \<in> set (ws_Nodes st). workflowNodeTerminal (wn_Status n))"
proof -
  note c = run_status_cases [OF assms(2) run_of_nonempty [OF assms(1)]]
  obtain m where m: "m \<in> set (ws_Nodes st)" using run_of_nonempty [OF assms(1)] by (cases "ws_Nodes st") auto
  show "run_status st = ''error'' \<longleftrightarrow> (\<exists>n \<in> set (ws_Nodes st). wn_Status n = ''error'')"
    unfolding c by auto
  show "run_status st = ''completed'' \<longleftrightarrow> (\<forall>n \<in> set (ws_Nodes st). wn_Status n = ''completed'')"
    unfolding c using m by auto
  show "run_status st = ''canceled'' \<longleftrightarrow> (\<exists>n \<in> set (ws_Nodes st). wn_Status n = ''canceled'') \<and>
       (\<forall>n \<in> set (ws_Nodes st). wn_Status n = ''completed'' \<or> wn_Status n = ''canceled'')"
    unfolding c using m by (auto split: if_splits)
  show "workflowTerminalStatus (run_status st) \<longleftrightarrow> (\<exists>n \<in> set (ws_Nodes st). wn_Status n = ''error'') \<or>
       (\<forall>n \<in> set (ws_Nodes st). workflowNodeTerminal (wn_Status n))"
    unfolding c workflowTerminal_same workflowNodeTerminal_def by auto
qed

text \<open>
  C11. The status of a run follows from its nodes. A run without a run-level error is in error
  exactly when a node is, completed exactly when all nodes are, canceled exactly when all nodes
  are completed or canceled and one is canceled, and it is over exactly when a node failed or
  every node is over.
\<close>

theorem run_status_from_nodes:
  assumes "run_of inputs edges st" "blank (su_Error (ws_Summary st))"
  shows "(run_status st = ''error'' \<longleftrightarrow> (\<exists>n \<in> set (ws_Nodes st). wn_Status n = ''error'')) \<and>
    (run_status st = ''completed'' \<longleftrightarrow> (\<forall>n \<in> set (ws_Nodes st). wn_Status n = ''completed'')) \<and>
    (run_status st = ''canceled'' \<longleftrightarrow> (\<exists>n \<in> set (ws_Nodes st). wn_Status n = ''canceled'') \<and>
       (\<forall>n \<in> set (ws_Nodes st). wn_Status n = ''completed'' \<or> wn_Status n = ''canceled'')) \<and>
    (workflowTerminalStatus (run_status st) \<longleftrightarrow> (\<exists>n \<in> set (ws_Nodes st). wn_Status n = ''error'') \<or>
       (\<forall>n \<in> set (ws_Nodes st). workflowNodeTerminal (wn_Status n)))"
  using run_status_facts [OF assms] by blast

theorem run_status_from_nodes_witness:
  "run_of demo_inputs fix_edges demo_state \<and> \<not> workflowTerminalStatus (run_status demo_state)"
proof -
  have "blank (su_Error (ws_Summary demo_state))" by code_simp
  moreover have "\<not> workflowTerminalStatus (run_status demo_state) \<or> \<not> run_of demo_inputs fix_edges demo_state"
    if b: "blank (su_Error (ws_Summary demo_state))"
  proof -
    have "\<not> ((\<exists>n \<in> set (ws_Nodes demo_state). wn_Status n = ''error'') \<or>
        (\<forall>n \<in> set (ws_Nodes demo_state). workflowNodeTerminal (wn_Status n)))" by code_simp
    with run_status_from_nodes [OF demo_workflow_run b] show ?thesis by blast
  qed
  ultimately show ?thesis using demo_workflow_run by blast
qed

section \<open>A node starts after what it depends on\<close>

lemma deps_completed_iff:
  assumes "distinct (map wn_ID nodes)"
  shows "workflowDepsCompleted nodes deps \<longleftrightarrow>
    (\<forall>d \<in> set deps. \<exists>n \<in> set nodes. wn_ID n = trim_space d \<and> wn_Status n = ''completed'')"
proof -
  have "distinct (map fst (rev (map (\<lambda>n. (wn_ID n, wn_Status n)) nodes)))"
    using assms by (simp add: rev_map [symmetric] comp_def)
  then have "map_of (rev (map (\<lambda>n. (wn_ID n, wn_Status n)) nodes)) i = Some s \<longleftrightarrow>
      (\<exists>n \<in> set nodes. wn_ID n = i \<and> wn_Status n = s)" for i s
    by (simp only: map_of_eq_Some_iff) auto
  then show ?thesis by (simp add: workflowDepsCompleted_def list_all_iff)
qed

lemma startWorkflowNode_at:
  "startWorkflowNode env now k st = store_node k (ws_Nodes (startWorkflowNode env now k st) ! k) st"
proof (cases "k < length (ws_Nodes st)")
  case True
  then show ?thesis by (simp add: startWorkflowNode_def Let_def store_node_def split: prod.splits)
next
  case False
  then show ?thesis by (simp add: startWorkflowNode_def Let_def store_node_def list_update_beyond split: prod.splits)
qed

lemma start_other: "j \<noteq> k \<Longrightarrow> ws_Nodes (startWorkflowNode env now k st) ! j = ws_Nodes st ! j"
  by (subst startWorkflowNode_at) simp

text \<open>A node that changed was pending and due, and everything it depends on is completed.\<close>

definition started_in_order :: "int \<Rightarrow> workflow_state \<Rightarrow> workflow_state \<Rightarrow> nat \<Rightarrow> bool" where
  "started_in_order now st st' k \<longleftrightarrow> ws_Nodes st' ! k = ws_Nodes st ! k \<or>
     (wn_Status (ws_Nodes st ! k) = ''pending'' \<and> workflowNodeRetryDue (ws_Nodes st ! k) now \<and>
      (\<forall>d \<in> set (wn_DependsOn (ws_Nodes st ! k)). \<exists>m \<in> set (ws_Nodes st'). wn_ID m = d \<and> wn_Status m = ''completed''))"

lemma ready_deps:
  assumes "engine_inv st" "k < length (ws_Nodes st)" "node_ready st now (ws_Nodes st ! k)"
    "d \<in> set (wn_DependsOn (ws_Nodes st ! k))"
  obtains j where "j < length (ws_Nodes st)" "wn_ID (ws_Nodes st ! j) = d" "wn_Status (ws_Nodes st ! j) = ''completed''"
proof -
  have w: "wf_nodes (ws_Nodes st)" using assms(1) by (simp add: engine_inv_def wf_state_def)
  then have "distinct (map wn_ID (ws_Nodes st))" by (simp add: wf_nodes_def)
  then obtain n where "n \<in> set (ws_Nodes st)" "wn_ID n = trim_space d" "wn_Status n = ''completed''"
    using assms(3,4) deps_completed_iff by (fastforce simp: node_ready_def)
  moreover have "clean d" using w assms(2,4) by (auto simp: wf_nodes_def clean_node_def)
  ultimately show thesis using that by (auto simp: in_set_conv_nth clean_def)
qed

lemma start_ready_order:
  assumes "start_ready env now ks (a, started, st) = (a', started', st')" "engine_inv st"
    "\<forall>k \<in> set ks. k < length (ws_Nodes st)"
  shows "length (ws_Nodes st') = length (ws_Nodes st) \<and> (\<forall>j < length (ws_Nodes st). started_in_order now st st' j)"
  using assms
proof (induction ks arbitrary: a started st)
  case Nil
  then show ?case by (simp add: started_in_order_def)
next
  case (Cons k ks)
  let ?st1 = "startWorkflowNode env now k st"
  show ?case
  proof (cases "node_ready st now (ws_Nodes st ! k)")
    case False
    with Cons.IH [of a started st] Cons.prems show ?thesis by simp
  next
    case True
    have k: "k < length (ws_Nodes st)" using Cons.prems(3) by simp
    have inv1: "engine_inv ?st1" using startWorkflowNode_keeps [OF k] Cons.prems(2) by (simp add: keeps_def)
    have rest: "length (ws_Nodes st') = length (ws_Nodes st) \<and> (\<forall>j < length (ws_Nodes st). started_in_order now ?st1 st' j)"
    proof (cases "en_done env ?st1")
      case True
      with \<open>node_ready st now (ws_Nodes st ! k)\<close> Cons.prems(1) have "st' = ?st1" by (simp add: Let_def)
      then show ?thesis by (simp add: started_in_order_def)
    next
      case False
      with \<open>node_ready st now (ws_Nodes st ! k)\<close> Cons.prems(1) obtain s1 where
        "start_ready env now ks (True, s1, ?st1) = (a', started', st')" by (simp add: Let_def)
      from Cons.IH [OF this inv1] Cons.prems(3) show ?thesis by simp
    qed
    have kept: "ws_Nodes st' ! j = ws_Nodes st ! j"
      if "j < length (ws_Nodes st)" "wn_Status (ws_Nodes st ! j) = ''completed''" for j
    proof -
      have "j \<noteq> k" using that(2) True by (auto simp: node_ready_def)
      then show ?thesis using rest that start_other [of j k env now st] by (auto simp: started_in_order_def)
    qed
    have "started_in_order now st st' k"
    proof -
      have "\<exists>m \<in> set (ws_Nodes st'). wn_ID m = d \<and> wn_Status m = ''completed''"
        if d: "d \<in> set (wn_DependsOn (ws_Nodes st ! k))" for d
      proof -
        obtain j where "j < length (ws_Nodes st)" "wn_ID (ws_Nodes st ! j) = d" "wn_Status (ws_Nodes st ! j) = ''completed''"
          by (rule ready_deps [OF Cons.prems(2) k True d])
        with kept rest show ?thesis by (metis nth_mem)
      qed
      with True show ?thesis by (simp add: started_in_order_def node_ready_def)
    qed
    moreover have "started_in_order now st st' j" if "j < length (ws_Nodes st)" "j \<noteq> k" for j
    proof -
      have "started_in_order now ?st1 st' j" using rest that(1) by blast
      then show ?thesis by (simp only: started_in_order_def start_other [OF that(2)])
    qed
    ultimately show ?thesis using rest by blast
  qed
qed

text \<open>
  C5. One pass of the scheduler over the nodes of a run starts a node only when it was pending,
  its retry was due and every node it depends on is completed; every other node is left as it
  was.
\<close>

theorem dependencies_first:
  assumes "run_of inputs edges st"
    and "start_ready env now [0..<length (ws_Nodes st)] (False, started, st) = (advanced, started', st')"
    and "k < length (ws_Nodes st)" "ws_Nodes st' ! k \<noteq> ws_Nodes st ! k"
  shows "wn_Status (ws_Nodes st ! k) = ''pending'' \<and> workflowNodeRetryDue (ws_Nodes st ! k) now \<and>
    set (wn_DependsOn (ws_Nodes st ! k)) \<subseteq> wn_ID ` {m \<in> set (ws_Nodes st'). wn_Status m = ''completed''}"
  using start_ready_order [OF assms(2) run_of_engine_inv [OF assms(1)]] assms(3,4)
  by (fastforce simp: started_in_order_def)

lemma demo_pass:
  "map wn_Status (ws_Nodes (snd (snd (start_ready idle_env 2 [0, 1] (False, [], demo_state))))) = [''completed'', ''running'']"
  by code_simp

theorem dependencies_first_witness:
  "wn_Status (ws_Nodes demo_state ! 1) = ''pending'' \<and> set (wn_DependsOn (ws_Nodes demo_state ! 1)) \<subseteq>
     wn_ID ` {m \<in> set (ws_Nodes (snd (snd (start_ready idle_env 2 [0, 1] (False, [], demo_state))))). wn_Status m = ''completed''}"
proof -
  obtain a s st' where r: "start_ready idle_env 2 [0, 1] (False, [], demo_state) = (a, s, st')" using prod_cases3 by blast
  have l: "[0..<length (ws_Nodes demo_state)] = [0, 1]" "1 < length (ws_Nodes demo_state)" by code_simp+
  have "map wn_Status (ws_Nodes st') ! 1 = ''running''" using demo_pass r by simp
  moreover have "1 < length (map wn_Status (ws_Nodes st'))" using demo_pass r by simp
  moreover have "wn_Status (ws_Nodes demo_state ! 1) = ''pending''" by code_simp
  ultimately have "ws_Nodes st' ! 1 \<noteq> ws_Nodes demo_state ! 1" by auto
  then show ?thesis using dependencies_first [OF demo_workflow_run r [folded l(1)] l(2)] r by simp
qed

section \<open>Progress\<close>

lemma run_status_error:
  "ws_Nodes st \<noteq> [] \<Longrightarrow> 0 < count_status ''error'' (ws_Nodes st) \<Longrightarrow> run_status st = ''error''"
  by (simp add: run_status_def refreshWorkflowStatus_def Let_def)

lemma run_status_idem: "run_status (refreshWorkflowStatus st) = run_status st"
proof -
  let ?r = "refreshWorkflowStatus st"
  have eq: "run_status st = run_status st'" if "ws_Nodes st = ws_Nodes st'" "su_Error (ws_Summary st) = su_Error (ws_Summary st')" for st'
    using that by (simp add: run_status_def refreshWorkflowStatus_def Let_def)
  show ?thesis
  proof (cases "su_Error (ws_Summary ?r) = su_Error (ws_Summary st)")
    case True
    then show ?thesis by (intro eq [symmetric]) simp_all
  next
    case False
    then have "blank (su_Error (ws_Summary st))" "ws_Nodes st \<noteq> []" "0 < count_status ''error'' (ws_Nodes st)"
      by (simp_all add: refreshWorkflowStatus_def Let_def split: if_splits)
    then show ?thesis using run_status_error [of st] run_status_error [of ?r] by simp
  qed
qed

definition status_backed :: "string \<Rightarrow> workflow_state \<Rightarrow> bool" where
  "status_backed s0 st \<longleftrightarrow> su_Status (ws_Summary st) = s0 \<or> (\<exists>n \<in> set (ws_Nodes st). wn_Status n = ''error'')"

lemma fire_edge_shape:
  assumes "fire_edge now k node st = Inr st'"
  shows "(\<exists>msg. ws_Nodes st' = mark_error now (wn_ID node) msg (ws_Nodes st)) \<or>
    (\<exists>new. ws_Nodes st' = ws_Nodes st @ new \<and> su_Status (ws_Summary st') = su_Status (ws_Summary st))"
  using assms
  by (auto simp: fire_edge_def appendWorkflowNodesFromEdge_def markWorkflowNodeError_def Let_def
      split: if_splits sum.splits option.splits prod.splits)

lemma mark_error_marks: "i \<in> wn_ID ` set ns \<Longrightarrow> \<exists>n \<in> set (mark_error now i msg ns). wn_Status n = ''error''"
  by (induction ns) auto

lemma mark_error_ids_set: "wn_ID ` set (mark_error now i msg ns) = wn_ID ` set ns"
  by (metis list.set_map mark_error_ids(1))

lemma process_edge_backed:
  assumes "process_edge env now node (c, st) k = Inr (c', st')" "wn_ID node \<in> wn_ID ` set (ws_Nodes st)"
  shows "wn_ID ` set (ws_Nodes st) \<subseteq> wn_ID ` set (ws_Nodes st')" "status_backed s0 st \<Longrightarrow> status_backed s0 st'"
proof -
  let ?key = "workflowProcessedEdgeKey (we_ID (ws_Edges st ! k)) (wn_ID node)"
  define st1 where "st1 = set_summary (\<lambda>s. s\<lparr>su_ProcessedEdges := su_ProcessedEdges s @ [?key]\<rparr>) st"
  have st1: "ws_Nodes st1 = ws_Nodes st" "su_Status (ws_Summary st1) = su_Status (ws_Summary st)" by (simp_all add: st1_def)
  have d: "st' = st \<or> st' = st1 \<or> fire_edge now k node st1 = Inr st'"
    using assms(1) by (cases "fire_edge now k node st1") (auto simp: process_edge_def Let_def st1_def [symmetric] split: if_splits)
  have "wn_ID ` set (ws_Nodes st) \<subseteq> wn_ID ` set (ws_Nodes st') \<and> (status_backed s0 st \<longrightarrow> status_backed s0 st')"
    using d fire_edge_shape [of now k node st1 st'] st1 assms(2) mark_error_marks [of "wn_ID node" "ws_Nodes st" now]
    by (fastforce simp: status_backed_def mark_error_ids_set)
  then show "wn_ID ` set (ws_Nodes st) \<subseteq> wn_ID ` set (ws_Nodes st')" "status_backed s0 st \<Longrightarrow> status_backed s0 st'"
    by simp_all
qed

lemma process_node_backed:
  assumes "process_node env now (c, st) n = Inr s'" "wn_ID n \<in> I" "I \<subseteq> wn_ID ` set (ws_Nodes st)" "status_backed s0 st"
  shows "I \<subseteq> wn_ID ` set (ws_Nodes (snd s')) \<and> status_backed s0 (snd s')"
proof (cases "workflowNodeTerminal (wn_Status n)")
  case True
  then have run: "each_st (process_edge env now n) (c, st) [0..<length (ws_Edges st)] = Inr s'"
    using assms(1) by (simp add: process_node_def)
  let ?P = "\<lambda>s. I \<subseteq> wn_ID ` set (ws_Nodes (snd s)) \<and> status_backed s0 (snd s)"
  have step: "?P s2" if "?P s1" "process_edge env now n s1 k = Inr s2" for s1 s2 k
  proof -
    obtain c1 st1 c2 st2 where s: "s1 = (c1, st1)" "s2 = (c2, st2)" by fastforce
    have "wn_ID n \<in> wn_ID ` set (ws_Nodes st1)" using that(1) assms(2) s by auto
    from process_edge_backed [OF that(2) [unfolded s] this] that(1) s show ?thesis by auto
  qed
  show ?thesis
    by (rule each_st_invariant [where P = ?P, OF run]) (use assms(3,4) in simp, erule (1) step)
qed (use assms in \<open>auto simp: process_node_def\<close>)

lemma run_status_some_error: "n \<in> set (ws_Nodes st) \<Longrightarrow> wn_Status n = ''error'' \<Longrightarrow> run_status st = ''error''"
  using count_status_zero [of "''error''" "ws_Nodes st"] by (intro run_status_error) auto

text \<open>A run that is over is over for a reason that a refresh of its status confirms.\<close>

definition over_stays :: "workflow_state \<Rightarrow> bool" where
  "over_stays st \<longleftrightarrow>
     (workflowTerminalStatus (su_Status (ws_Summary st)) \<longrightarrow> workflowTerminalStatus (run_status st))"

lemma terminal_error: "workflowTerminalStatus ''error''"
  by (simp add: workflowTerminalStatus_def)

lemma status_backed_over:
  "status_backed s0 st \<Longrightarrow> \<not> workflowTerminalStatus s0 \<Longrightarrow> over_stays st"
  using run_status_some_error terminal_error by (auto simp: status_backed_def over_stays_def)

lemma processWorkflowEdges_over:
  assumes "processWorkflowEdges env now st = Inr (c, st')" "\<not> workflowTerminalStatus (su_Status (ws_Summary st))"
  shows "over_stays st'"
proof (cases "ws_Edges st = []")
  case True
  then show ?thesis using assms by (simp add: processWorkflowEdges_def over_stays_def)
next
  case False
  obtain c1 st1 where run: "each_st (process_node env now) (False, st) (ws_Nodes st) = Inr (c1, st1)"
    using assms False by (auto simp: processWorkflowEdges_def split: sum.splits)
  let ?s0 = "su_Status (ws_Summary st)" and ?I = "wn_ID ` set (ws_Nodes st)"
  let ?P = "\<lambda>s. ?I \<subseteq> wn_ID ` set (ws_Nodes (snd s)) \<and> status_backed ?s0 (snd s)"
  have "?P (c1, st1)"
  proof (rule each_st_invariant [where P = ?P, OF run])
    fix s n s'
    assume "n \<in> set (ws_Nodes st)" "?P s" "process_node env now s n = Inr s'"
    then show "?P s'" using process_node_backed [of env now "fst s" "snd s" n s' ?I ?s0] by simp
  qed (simp add: status_backed_def)
  then have b: "over_stays (set_summary (\<lambda>s. s\<lparr>su_UpdatedAt := now\<rparr>) st1)" "over_stays st1"
    using status_backed_over [OF _ assms(2)] by (simp_all add: status_backed_def)
  have r: "over_stays (refreshWorkflowStatus x)" for x
    by (simp add: over_stays_def run_status_idem) (simp add: run_status_def)
  have "st' = st1 \<or> st' = set_summary (\<lambda>s. s\<lparr>su_UpdatedAt := now\<rparr>) st1 \<or>
      st' = refreshWorkflowStatus (set_summary (\<lambda>s. s\<lparr>su_UpdatedAt := now\<rparr>) st1)"
    using assms(1) False run by (auto simp: processWorkflowEdges_def Let_def split: if_splits)
  then show ?thesis using b r by blast
qed

lemma start_ready_summary [simp]: "ws_Summary (snd (snd (start_ready env now ks s))) = ws_Summary (snd (snd s))"
proof (induction ks arbitrary: s)
  case (Cons k ks)
  have "ws_Summary (startWorkflowNode env now k st) = ws_Summary st" for st by (subst startWorkflowNode_at) simp
  then show ?case using Cons.IH by (cases s) (simp add: Let_def)
qed simp

lemma advance_body_over:
  assumes hyp: "\<And>env now changed started st r. loop env now changed started st = Some r \<Longrightarrow>
      over_stays st \<longrightarrow> (case r of Inl _ \<Rightarrow> True | Inr (_, _, st') \<Rightarrow> over_stays st')"
    and body: "(if workflowTerminalStatus (su_Status (ws_Summary st)) \<or> en_done env st then Some (Inr (changed, started, st))
     else
       let (advanced, started1, st1) = start_ready env now [0..<length (ws_Nodes st)] (False, started, st) in
       (case processWorkflowEdges env now st1 of
          Inl e \<Rightarrow> Some (Inl e)
        | Inr (edgeChanged, st2) \<Rightarrow>
            if \<not> advanced \<and> \<not> edgeChanged then Some (Inr (changed, started1, st2))
            else loop env now True started1 st2)) = Some r"
  shows "over_stays st \<longrightarrow> (case r of Inl _ \<Rightarrow> True | Inr (_, _, st') \<Rightarrow> over_stays st')"
proof -
  obtain advanced started1 st1 where
    s: "start_ready env now [0..<length (ws_Nodes st)] (False, started, st) = (advanced, started1, st1)"
    using prod_cases3 by blast
  show ?thesis
  proof (cases "workflowTerminalStatus (su_Status (ws_Summary st)) \<or> en_done env st")
    case True
    with body show ?thesis by auto
  next
    case False
    show ?thesis
    proof (cases "processWorkflowEdges env now st1")
      case (Inl e)
      with body False s show ?thesis by auto
    next
      case (Inr p)
      obtain ec st2 where p: "processWorkflowEdges env now st1 = Inr (ec, st2)" using Inr by (cases p) auto
      have "ws_Summary st1 = ws_Summary st"
        using start_ready_summary [of env now "[0..<length (ws_Nodes st)]" "(False, started, st)"] s by simp
      then have "over_stays st2" using processWorkflowEdges_over [OF p] False by simp
      with body hyp False s p show ?thesis by (fastforce split: if_splits)
    qed
  qed
qed

lemma advance_loop_over:
  assumes "advance_loop env now changed started st = Some r" "over_stays st"
  shows "case r of Inl _ \<Rightarrow> True | Inr (_, _, st') \<Rightarrow> over_stays st'"
proof -
  let ?P = "\<lambda>(env :: engine_env) (now :: int) (changed :: bool) (started :: string list) (st :: workflow_state)
      (r :: go_error + bool \<times> string list \<times> workflow_state).
      over_stays st \<longrightarrow> (case r of Inl _ \<Rightarrow> True | Inr (_, _, st') \<Rightarrow> over_stays st')"
  have "?P env now changed started st r"
    by (rule advance_loop.raw_induct [where P = ?P, OF _ assms(1)]) (erule (1) advance_body_over)
  then show ?thesis using assms(2) by blast
qed

lemma timeout_error_text: "\<not> blank (timeout_error env s)"
proof -
  have "\<forall>p \<in> set space_seqs. CHR ''f'' \<notin> set p" by code_simp
  moreover have "CHR ''f'' \<in> set (timeout_error env s)" by (simp add: timeout_error_def)
  ultimately show ?thesis using trim_space_keeps by fastforce
qed

lemma settle_running:
  assumes "settle env now c st = (c', st')" "\<not> workflowTerminalStatus (su_Status (ws_Summary st'))"
  shows "ws_Nodes st' = ws_Nodes st" "\<not> workflowTerminalStatus (run_status st)" "blank (su_Error (ws_Summary st))"
proof -
  obtain c1 st1 where 1: "expireWorkflowRun env now st = (c1, st1)" by fastforce
  define st2 where "st2 = (if c \<or> c1 then touch now st1 else st1)"
  obtain c2 st3 where 3: "finalizeWorkflowRunOutputs env (refreshWorkflowStatus st2) = (c2, st3)" by fastforce
  have st': "st' = (if c2 then touch now st3 else st3)"
    using assms(1) 1 3 by (simp add: settle_def Let_def st2_def)
  then have nt3: "\<not> workflowTerminalStatus (su_Status (ws_Summary st3))" and n3: "ws_Nodes st' = ws_Nodes st3"
    using assms(2) by (simp_all add: touch_def split: if_splits)
  have fin: "ws_Nodes st3 = ws_Nodes st2 \<and> \<not> workflowTerminalStatus (run_status st2)"
    using 3 nt3 terminal_error
    by (auto simp: finalizeWorkflowRunOutputs_def fail_run_def run_status_def Let_def split: if_splits sum.splits option.splits)
  have same: "run_status st2 = run_status st1" "ws_Nodes st2 = ws_Nodes st1"
    by (simp_all add: st2_def touch_def run_status_def refreshWorkflowStatus_def Let_def)
  have "\<not> c1"
  proof
    assume c1
    then have "\<not> blank (su_Error (ws_Summary st1))"
      using 1 timeout_error_text by (auto simp: expireWorkflowRun_def expire_summary_def Let_def split: if_splits)
    then have "run_status st1 = ''error''" by (simp add: run_status_def refreshWorkflowStatus_def Let_def)
    with fin same terminal_error show False by simp
  qed
  then have "st1 = st" using 1 by (auto simp: expireWorkflowRun_def Let_def split: if_splits)
  with fin same n3 show "ws_Nodes st' = ws_Nodes st" and nt: "\<not> workflowTerminalStatus (run_status st)" by simp_all
  show "blank (su_Error (ws_Summary st))"
  proof (rule ccontr)
    assume "\<not> blank (su_Error (ws_Summary st))"
    then have "run_status st = ''error''" by (simp add: run_status_def refreshWorkflowStatus_def Let_def)
    with nt terminal_error show False by simp
  qed
qed

text \<open>Among the pending nodes of a run there is one that depends on no pending node.\<close>

lemma first_pending:
  assumes "wf_nodes nodes" "p \<in> set nodes" "wn_Status p = ''pending''"
  obtains n where "n \<in> set nodes" "wn_Status n = ''pending''"
    "\<And>m. m \<in> set nodes \<Longrightarrow> wn_ID m \<in> set (wn_DependsOn n) \<Longrightarrow> wn_Status m \<noteq> ''pending''"
proof -
  let ?S = "wn_ID ` {n \<in> set nodes. wn_Status n = ''pending''}"
  have d: "distinct (map wn_ID nodes)" using assms(1) by (simp add: wf_nodes_def)
  have "find_cycle (wf_graph_of nodes) (map wn_ID nodes) = None"
    using dfs_search.search_None [OF graph_keys] edges_of_graph [OF d] assms(1) by (simp add: wf_nodes_def)
  then obtain x where x: "x \<in> ?S" "\<forall>y \<in> set (succs (wf_graph_of nodes) x). y \<notin> ?S"
    using dfs_search.not_stuck [OF graph_keys, of nodes ?S] assms(2,3) by auto
  then obtain n where n: "n \<in> set nodes" "wn_Status n = ''pending''" "x = wn_ID n" by auto
  then have "\<forall>y \<in> set (wn_DependsOn n). y \<notin> ?S" using x(2) succs_graph_of [OF d n(1)] by simp
  then show thesis using that [OF n(1,2)] by blast
qed

lemma quiet_run_waits:
  assumes "engine_inv st" "ws_Nodes st \<noteq> []" "blank (su_Error (ws_Summary st))" "\<not> workflowTerminalStatus (run_status st)"
    and quiet: "\<forall>n \<in> set (ws_Nodes st). \<not> node_ready st now n"
  shows "\<exists>n \<in> set (ws_Nodes st). wn_Status n \<in> set [''running'', ''waiting_human''] \<or>
    wn_Status n = ''pending'' \<and> (now < wn_NextRetryAt n \<or>
      (\<exists>m \<in> set (ws_Nodes st). wn_ID m \<in> set (wn_DependsOn n) \<and> wn_Status m = ''canceled''))"
proof (rule ccontr)
  assume stuck: "\<not> ?thesis"
  have w: "wf_nodes (ws_Nodes st)" and known: "\<forall>n \<in> set (ws_Nodes st). wn_Status n \<in> set known_statuses"
    using assms(1) by (auto simp: engine_inv_def wf_state_def node_inv_def)
  note c = run_status_cases [OF assms(3,2)]
  have noerr: "\<forall>n \<in> set (ws_Nodes st). wn_Status n \<noteq> ''error''"
    using assms(4) terminal_error run_status_some_error [of _ st] by fastforce
  have "\<exists>p \<in> set (ws_Nodes st). wn_Status p \<noteq> ''completed'' \<and> wn_Status p \<noteq> ''canceled''"
    using assms(4) noerr unfolding c by (auto simp: workflowTerminalStatus_def split: if_splits)
  then obtain p where p: "p \<in> set (ws_Nodes st)" "wn_Status p = ''pending''"
    using stuck noerr known by (fastforce simp: known_statuses_def)
  obtain n where n: "n \<in> set (ws_Nodes st)" "wn_Status n = ''pending''"
    and first: "\<And>m. m \<in> set (ws_Nodes st) \<Longrightarrow> wn_ID m \<in> set (wn_DependsOn n) \<Longrightarrow> wn_Status m \<noteq> ''pending''"
    using first_pending [OF w p] by metis
  have "\<exists>m \<in> set (ws_Nodes st). wn_ID m = trim_space d \<and> wn_Status m = ''completed''"
    if d: "d \<in> set (wn_DependsOn n)" for d
  proof -
    obtain m where m: "m \<in> set (ws_Nodes st)" "wn_ID m = d"
    proof -
      have "d \<in> wn_ID ` set (ws_Nodes st)" using w n(1) d unfolding wf_nodes_def deps_known_def by blast
      then show thesis using that by blast
    qed
    have "wn_Status m \<noteq> ''pending''" using first [OF m(1)] m(2) d by simp
    moreover have "wn_Status m \<notin> set [''running'', ''waiting_human'']" using stuck m(1) by blast
    moreover have "wn_Status m \<noteq> ''canceled''" using stuck n m d by blast
    moreover have "wn_Status m \<noteq> ''error''" "wn_Status m \<in> set known_statuses" using noerr known m(1) by blast+
    ultimately have "wn_Status m = ''completed''" by (auto simp: known_statuses_def)
    moreover have "trim_space d = d" using w n(1) d by (auto simp: wf_nodes_def clean_node_def clean_def)
    ultimately show ?thesis using m by auto
  qed
  then have "workflowDepsCompleted (ws_Nodes st) (wn_DependsOn n)"
    using deps_completed_iff w by (simp add: wf_nodes_def)
  moreover have "workflowNodeRetryDue n now" using stuck n by (auto simp: workflowNodeRetryDue_def)
  ultimately show False using quiet n by (simp add: node_ready_def)
qed

lemma advance_Inr:
  assumes "advanceWorkflowReadyNodes env now later auto st = Some (st', Inr view)"
    "\<not> workflowTerminalStatus (vw_Status view)"
  obtains stored1 st1 flip c started st2 c3 st3 where
    "workflowStateUnlocked env now st = (stored1, Inr st1)" "\<not> workflowTerminalStatus (su_Status (ws_Summary st1))"
    "advance_loop env now flip [] (if flip then set_summary (\<lambda>s. s\<lparr>su_AutoSchedule := True\<rparr>) st1 else st1) =
       Some (Inr (c, started, st2))"
    "settle env later c st2 = (c3, st3)" "view = (workflowViewFromState st3)\<lparr>vw_Started := started\<rparr>"
proof -
  obtain stored1 u where u: "workflowStateUnlocked env now st = (stored1, u)" by fastforce
  note adv = advanceWorkflowReadyNodes_def [of env now later auto st]
  obtain st1 where st1: "u = Inr st1" using assms(1) u by (cases u) (simp_all add: adv)
  have nt: "\<not> workflowTerminalStatus (su_Status (ws_Summary st1))"
    using assms u st1 by (auto simp: adv workflowViewFromState_def Let_def)
  define flip where "flip = (auto \<and> \<not> su_AutoSchedule (ws_Summary st1))"
  let ?s = "if flip then set_summary (\<lambda>s. s\<lparr>su_AutoSchedule := True\<rparr>) st1 else st1"
  obtain r where r: "advance_loop env now flip [] ?s = Some r"
    using assms(1) u st1 nt by (auto simp: adv flip_def [symmetric] Let_def)
  then obtain c started st2 where p: "r = Inr (c, started, st2)"
    using assms(1) u st1 nt by (cases r) (auto simp: adv flip_def [symmetric] Let_def)
  obtain c3 st3 where t: "settle env later c st2 = (c3, st3)" by fastforce
  let ?v = "(workflowViewFromState st3)\<lparr>vw_Started := started\<rparr>"
  have "(st', Inr view) = (if c3 then save env stored1 st3 ?v else (stored1, Inr ?v))"
    using assms(1) u st1 nt r p t by (simp add: adv flip_def [symmetric] Let_def)
  then have "view = ?v" by (auto simp: save_def split: if_splits option.splits)
  with that u st1 nt r p t show thesis by blast
qed

text \<open>
  C4. The scheduler never gets stuck. When a call of \<open>advanceWorkflowReadyNodes\<close> leaves a run
  that is not over, somebody else has to move: a job is running, a human is asked, a retry is
  not due yet, or a node depends on a node that was canceled. There is no deadlock and no ready
  node is forgotten.
\<close>

theorem advance_progress:
  assumes "run_of inputs edges st" "\<forall>s. \<not> en_done env s"
    and "advanceWorkflowReadyNodes env now later auto st = Some (st', Inr view)"
    and "\<not> workflowTerminalStatus (vw_Status view)"
  shows "\<exists>n \<in> set (vw_Nodes view). wn_Status n \<in> set [''running'', ''waiting_human''] \<or>
    wn_Status n = ''pending'' \<and> (now < wn_NextRetryAt n \<or>
      (\<exists>m \<in> set (vw_Nodes view). wn_ID m \<in> set (wn_DependsOn n) \<and> wn_Status m = ''canceled''))"
proof -
  obtain stored1 st1 flip c started st2 c3 st3 where
    u: "workflowStateUnlocked env now st = (stored1, Inr st1)" "\<not> workflowTerminalStatus (su_Status (ws_Summary st1))"
    and l: "advance_loop env now flip [] (if flip then set_summary (\<lambda>s. s\<lparr>su_AutoSchedule := True\<rparr>) st1 else st1) =
       Some (Inr (c, started, st2))" (is "advance_loop env now flip [] ?s = _")
    and t: "settle env later c st2 = (c3, st3)" and v: "view = (workflowViewFromState st3)\<lparr>vw_Started := started\<rparr>"
    by (rule advance_Inr [OF assms(3,4)])
  have inv: "engine_inv st" by (rule run_of_engine_inv [OF assms(1)])
  have "keeps st ?s" using workflowStateUnlocked_keeps(2) [OF u(1) refl] keeps_trans by (auto simp: keeps_summary)
  then have s: "engine_inv ?s" "grows st ?s" using inv by (simp_all add: keeps_def)
  have q: "engine_inv st2" "grows ?s st2"
    "workflowTerminalStatus (su_Status (ws_Summary st2)) \<or> (\<forall>n \<in> set (ws_Nodes st2). \<not> node_ready st2 now n)"
    using advance_loop_result [OF s(1), of env now flip "[]"] l assms(2) by auto
  have "over_stays ?s" using u(2) by (simp add: over_stays_def)
  then have o: "over_stays st2" using advance_loop_over [OF l] by simp
  have "\<not> workflowTerminalStatus (su_Status (ws_Summary st3))"
    using assms(4) v by (simp add: workflowViewFromState_def Let_def)
  note e = settle_running [OF t this]
  have "ws_Nodes st2 \<noteq> []"
    using grows_trans [OF s(2) q(2)] run_of_nonempty [OF assms(1)] by (auto simp: grows_def)
  from quiet_run_waits [OF q(1) this e(3,2)] q(3) o e(2)
  have "\<exists>n \<in> set (ws_Nodes st2). wn_Status n \<in> set [''running'', ''waiting_human''] \<or>
    wn_Status n = ''pending'' \<and> (now < wn_NextRetryAt n \<or>
      (\<exists>m \<in> set (ws_Nodes st2). wn_ID m \<in> set (wn_DependsOn n) \<and> wn_Status m = ''canceled''))"
    by (simp add: over_stays_def)
  moreover have "vw_Nodes view = ws_Nodes st2" using v e(1) by (simp add: workflowViewFromState_def Let_def)
  ultimately show ?thesis by simp
qed

text \<open>One step, run by a subagent job: the scheduler starts it and waits for the job.\<close>

definition solo_inputs :: "workflow_node_input list" where
  "solo_inputs = [node_template\<lparr>ni_ID := ''a''\<rparr>]"

definition solo_state :: workflow_state where
  "solo_state = state_of solo_inputs []"

definition solo_started :: workflow_state where
  "solo_started = snd (snd (start_ready idle_env 2 [0] (False, [], load solo_state)))"

definition solo_view :: workflow_view where
  "solo_view = (workflowViewFromState (refreshWorkflowStatus (touch 3 solo_started)))\<lparr>vw_Started := [''a'']\<rparr>"

lemma solo_run: "run_of solo_inputs [] solo_state"
proof -
  have "created solo_inputs [] = Inr solo_state"
    unfolding solo_state_def by (rule created_state_of) code_simp+
  moreover have "Ball (set solo_inputs) typed_input" by (simp add: solo_inputs_def node_template_def typed_input_def)
  ultimately show ?thesis using run_of_create [of _ _ _ _ solo_inputs "[]"] unfolding created_def by auto
qed

lemma solo_loaded: "workflowStateUnlocked idle_env 2 solo_state = (solo_state, Inr (load solo_state))"
proof -
  have "refreshWorkflowNodes idle_env 2 (load solo_state) = (False, load solo_state)" by code_simp
  moreover have "ws_Edges (load solo_state) = []" "su_RunTimeoutAt (ws_Summary (load solo_state)) = 0"
    "su_RunOutputSpec (ws_Summary (load solo_state)) = []" by code_simp+
  ultimately show ?thesis
    by (simp add: workflowStateUnlocked_def sync_def processWorkflowEdges_def expireWorkflowRun_def
        finalizeWorkflowRunOutputs_def)
qed

lemma solo_passes:
  "start_ready idle_env 2 [0] (False, [], load solo_state) = (True, [''a''], solo_started)"
  "start_ready idle_env 2 [0] (False, [''a''], solo_started) = (False, [''a''], solo_started)"
proof -
  have "fst (start_ready idle_env 2 [0] (False, [], load solo_state)) = True"
    "fst (snd (start_ready idle_env 2 [0] (False, [], load solo_state))) = [''a'']" by code_simp+
  then show "start_ready idle_env 2 [0] (False, [], load solo_state) = (True, [''a''], solo_started)"
    by (simp add: solo_started_def prod_eq_iff)
  show "start_ready idle_env 2 [0] (False, [''a''], solo_started) = (False, [''a''], solo_started)" by code_simp
qed

lemma solo_facts:
  "ws_Edges solo_started = []" "[0..<length (ws_Nodes solo_started)] = [0]" "[0..<length (ws_Nodes (load solo_state))] = [0]"
  "su_Status (ws_Summary solo_started) = ''pending''" "su_Status (ws_Summary (load solo_state)) = ''pending''"
  "su_RunTimeoutAt (ws_Summary solo_started) = 0" "su_RunOutputSpec (ws_Summary solo_started) = []"
  by code_simp+

lemma solo_advance: "advanceWorkflowReadyNodes idle_env 2 3 False solo_state =
   Some (refreshWorkflowStatus (touch 3 solo_started), Inr solo_view)"
proof -
  have nd: "en_done idle_env s = False" "en_save idle_env s = None" for s by (simp_all add: idle_env_def)
  have nt: "\<not> workflowTerminalStatus ''pending''" by (simp add: workflowTerminalStatus_def)
  have "advance_loop idle_env 2 False [] (load solo_state) = Some (Inr (True, [''a''], solo_started))"
    by (simp add: advance_loop.simps [of _ _ _ _ "load solo_state"] advance_loop.simps [of _ _ _ _ solo_started]
        solo_passes solo_facts nd nt processWorkflowEdges_def del: start_ready.simps)
  moreover have "settle idle_env 3 True solo_started = (True, refreshWorkflowStatus (touch 3 solo_started))"
    by (simp add: settle_def expireWorkflowRun_def solo_facts finalizeWorkflowRunOutputs_def touch_def
        refreshWorkflowStatus_def Let_def)
  ultimately show ?thesis
    by (simp add: advanceWorkflowReadyNodes_def solo_loaded solo_facts nt save_def nd solo_view_def)
qed

theorem advance_progress_witness:
  "advanceWorkflowReadyNodes idle_env 2 3 False solo_state =
     Some (refreshWorkflowStatus (touch 3 solo_started), Inr solo_view) \<and>
   (\<exists>n \<in> set (vw_Nodes solo_view). wn_Status n \<in> set [''running'', ''waiting_human''] \<or>
      wn_Status n = ''pending'' \<and> (2 < wn_NextRetryAt n \<or>
      (\<exists>m \<in> set (vw_Nodes solo_view). wn_ID m \<in> set (wn_DependsOn n) \<and> wn_Status m = ''canceled'')))"
proof -
  have "\<not> workflowTerminalStatus (vw_Status solo_view)" by code_simp
  moreover have "\<forall>s. \<not> en_done idle_env s" by (simp add: idle_env_def)
  ultimately show ?thesis using solo_advance advance_progress [OF solo_run] by blast
qed

end
