(* ===== verification/Flow_Checks.thy ===== *)
theory Flow_Checks
  imports Flow_Schema Dfs
begin

text \<open>
  The checks of one node, one edge, one declaration of a flow
  (\<open>src/internal/core/flow/validate.go\<close>, all of it but the session regions). Each returns
  the first error the source returns, with its path and message. The Go runtime is a
  parameter \<open>go_env\<close>: \<open>net/url\<close>'s parser, and the order in which a map the code has built is
  ranged over.
\<close>

record parsed_url =
  pu_Scheme :: string
  pu_Hostname :: string
  pu_HasUser :: bool

record go_env =
  ge_parse_url :: "string \<Rightarrow> parsed_url option"
  ge_range :: "string list \<Rightarrow> string list"

text \<open>A range over a map yields every key once, in some order.\<close>

definition fair_range :: "go_env \<Rightarrow> bool" where
  "fair_range env \<longleftrightarrow> (\<forall>ks. set (ge_range env ks) = set ks)"

type_synonym node_index = "(string \<times> flow_node) list"

definition MaxTimeoutSeconds :: int where "MaxTimeoutSeconds = 30 * 24 * 60 * 60"
definition MaxNetworkResponseChars :: int where "MaxNetworkResponseChars = 64 * 2 ^ 20"
definition MaxNodes :: int where "MaxNodes = 64"

definition idx :: "nat \<Rightarrow> string" where
  "idx i = ''['' @ itoa (int i) @ '']''"

section \<open>Variable declarations\<close>

definition varType_err :: "var_def \<Rightarrow> nat \<Rightarrow> string \<Rightarrow> go_error option" where
  "varType_err v i p = (let t = norm_word (v_Type v) in
    check (t \<noteq> [] \<and> t \<notin> set [''string'', ''number'', ''boolean'', ''object'', ''array'', ''any''])
      (verr (p @ idx i @ ''.type'') ''invalid variable type %q'' [v_Type v]))"

definition varSchema_err :: "var_def \<Rightarrow> nat \<Rightarrow> string \<Rightarrow> go_error option" where
  "varSchema_err v i p = (let t = norm_word (v_Type v); schemaPath = p @ idx i @ ''.schema'' in
    if v_Schema v = RawEmpty then None
    else if t \<noteq> [] \<and> t \<noteq> ''object'' \<and> t \<noteq> ''array'' \<and> t \<noteq> ''any''
    then Some (verr schemaPath ''nested schema only allowed for object/array/any, got %q'' [t])
    else (case decodeSchemaDefinition (v_Schema v) schemaPath of
            Inl e \<Rightarrow> Some (ValidationError [] e)
          | Inr None \<Rightarrow> Some (verr schemaPath ''variable schema must be a JSON object'' [])
          | Inr (Some _) \<Rightarrow> None))"

fun varDefs_from :: "nat \<Rightarrow> string list \<Rightarrow> var_def list \<Rightarrow> string \<Rightarrow> go_error option" where
  "varDefs_from i seen [] p = None"
| "varDefs_from i seen (v # vs) p =
    (let name = trim_space (v_Name v) in
     if name = [] then Some (verr (p @ idx i @ ''.name'') ''variable name is required'' [])
     else if name \<in> set seen then Some (verr p ''duplicate variable %q'' [name])
     else andthen (varType_err v i p)
       (andthen (varSchema_err v i p) (varDefs_from (Suc i) (name # seen) vs p)))"

definition validateVarDefs :: "var_def list \<Rightarrow> string \<Rightarrow> go_error option" where
  "validateVarDefs defs p = varDefs_from 0 [] defs p"

definition validateIODecls :: "flow_definition \<Rightarrow> go_error option" where
  "validateIODecls d =
    andthen (validateVarDefs (fd_Inputs d) ''inputs'') (validateVarDefs (fd_Outputs d) ''outputs'')"

definition flowVarDefExists :: "var_def list \<Rightarrow> string \<Rightarrow> bool" where
  "flowVarDefExists defs name \<longleftrightarrow> list_ex (\<lambda>v. trim_space (v_Name v) = name) defs"

definition human_result :: "flow_node \<Rightarrow> string \<Rightarrow> bool" where
  "human_result n field \<longleftrightarrow>
    (case n_Human n of None \<Rightarrow> False | Some h \<Rightarrow> trim_space (h_ResultVar h) = field)"

definition nodeOutputsField :: "flow_node \<Rightarrow> string \<Rightarrow> bool" where
  "nodeOutputsField n field \<longleftrightarrow>
    flowVarDefExists (n_Outputs n) field \<or>
    normalizeKind (n_Kind n) = ''decision'' \<and>
      field \<in> set [''choice'', ''confidence'', ''calibrated'', ''score'', ''model'', ''latency_ms'', ''error''] \<or>
    normalizeKind (n_Kind n) = ''human'' \<and> human_result n field"

definition declaredNodeOutputType :: "flow_node \<Rightarrow> string \<Rightarrow> string option" where
  "declaredNodeOutputType n field =
    (case find (\<lambda>v. trim_space (v_Name v) = field) (n_Outputs n) of
       Some v \<Rightarrow> Some (v_Type v)
     | None \<Rightarrow>
         if normalizeKind (n_Kind n) = ''decision'' then
           (if field \<in> set [''choice'', ''question'', ''error'', ''model''] then Some ''string''
            else if field \<in> set [''confidence'', ''score'', ''latency_ms''] then Some ''number''
            else if field = ''calibrated'' then Some ''boolean''
            else if field = ''raw'' then Some ''object'' else None)
         else if normalizeKind (n_Kind n) = ''branch'' then
           (if field = ''choice'' then Some ''string'' else None)
         else if normalizeKind (n_Kind n) = ''human'' \<and> human_result n field then Some ''any''
         else None)"

definition flowOutputSource_err :: "var_def \<Rightarrow> nat \<Rightarrow> node_index \<Rightarrow> go_error option" where
  "flowOutputSource_err output i byID =
    (let source = trim_space (v_Source output); path = ''outputs'' @ idx i @ ''.source'' in
     if source = [] then
       check (v_Required output) (verr path ''required flow outputs must declare a source'' [])
     else (case ParseOutputSource source of
       None \<Rightarrow> Some (verr path ''must use the form \"nodes.<node_id>.outputs.<field>\"'' [])
     | Some (nodeID, field) \<Rightarrow>
         (case map_of byID nodeID of
            None \<Rightarrow> Some (verr path ''unknown output node %q'' [nodeID])
          | Some node \<Rightarrow>
              (case declaredNodeOutputType node field of
                 None \<Rightarrow> Some (verr path ''node %q does not declare output %q'' [nodeID, field])
               | Some t \<Rightarrow>
                   let outputType = norm_word (v_Type output); sourceType = norm_word t in
                   check (outputType \<noteq> [] \<and> sourceType \<noteq> [] \<and> sourceType \<noteq> ''any'' \<and>
                          outputType \<noteq> ''any'' \<and> outputType \<noteq> sourceType)
                     (verr path ''output type %q does not match source type %q'' [outputType, sourceType])))))"

definition validateFlowOutputSources :: "flow_definition \<Rightarrow> node_index \<Rightarrow> go_error option" where
  "validateFlowOutputSources d byID =
    each_i 0 (\<lambda>i output. flowOutputSource_err output i byID) (fd_Outputs d)"

section \<open>Variable references\<close>

text \<open>
  The reference pattern \<open>\{\{\s*([a-zA-Z_][a-zA-Z0-9_.]*)\s*\}\}\<close>. The three repeated classes and
  the braces are disjoint, so the leftmost match at a position is the only one.
\<close>

definition is_ws :: "char \<Rightarrow> bool" where
  "is_ws c \<longleftrightarrow> c \<in> set [CHR 0x20, CHR 0x09, CHR 0x0A, CHR 0x0C, CHR 0x0D]"

definition ref_char :: "char \<Rightarrow> bool" where
  "ref_char c \<longleftrightarrow> ident_start c \<or> is_digit c \<or> c = CHR ''.''"

definition match_ref :: "string \<Rightarrow> (string \<times> string) option" where
  "match_ref s =
    (if \<not> has_prefix s ''{{'' then None
     else let a = dropWhile is_ws (drop 2 s); e = takeWhile ref_char a;
              b = dropWhile is_ws (dropWhile ref_char a)
          in if e = [] \<or> \<not> ident_start (hd e) \<or> \<not> has_prefix b ''}}'' then None
             else Some (e, drop 2 b))"

lemma match_ref_shorter: "match_ref s = Some (e, r) \<Longrightarrow> length r < length s"
proof -
  assume m: "match_ref s = Some (e, r)"
  let ?a = "dropWhile is_ws (drop 2 s)"
  from m have r: "r = drop 2 (dropWhile is_ws (dropWhile ref_char ?a))" and p: "has_prefix s ''{{''"
    by (auto simp: match_ref_def Let_def split: if_splits)
  have "length r \<le> length (drop 2 s)"
    unfolding r using length_dropWhile_le [of is_ws "dropWhile ref_char ?a"]
      length_dropWhile_le [of ref_char ?a] length_dropWhile_le [of is_ws "drop 2 s"] by simp
  moreover have "2 \<le> length s" using p by (cases s; cases "tl s") (auto simp: has_prefix_def)
  ultimately show ?thesis by simp
qed


function find_refs :: "string \<Rightarrow> string list" where
  "find_refs s =
    (case s of [] \<Rightarrow> []
     | c # t \<Rightarrow> (case match_ref s of Some (e, r) \<Rightarrow> e # find_refs r | None \<Rightarrow> find_refs t))"
  by pat_completeness auto
termination by (relation "measure length") (auto dest: match_ref_shorter)

function replace_refs :: "string \<Rightarrow> string \<Rightarrow> string" where
  "replace_refs new s =
    (case s of [] \<Rightarrow> []
     | c # t \<Rightarrow> (case match_ref s of Some (e, r) \<Rightarrow> new @ replace_refs new r
                 | None \<Rightarrow> c # replace_refs new t))"
  by pat_completeness auto
termination by (relation "measure (\<lambda>(_, s). length s)") (auto dest: match_ref_shorter)

declare find_refs.simps [simp del] replace_refs.simps [simp del]

definition event_fields :: "string list" where
  "event_fields = [''flow_session_id'', ''flow_id'', ''version'', ''source'', ''source_sequence'',
     ''sequence'', ''type'', ''correlation_id'', ''occurred_at'', ''received_at'', ''payload'']"

definition varRef_err ::
  "string \<Rightarrow> string \<Rightarrow> flow_definition \<Rightarrow> node_index \<Rightarrow> bool \<Rightarrow> go_error option" where
  "varRef_err expr p d byID allowSessionContext =
    (let segments = split_char CHR ''.'' expr in
     if length segments < 2 then Some (verr p ''invalid variable reference %q'' [expr])
     else if segments ! 0 = ''inputs'' then
       check (\<not> flowVarDefExists (fd_Inputs d) (segments ! 1))
         (verr p ''prompt references unknown input %q (declare in flow inputs)'' [segments ! 1])
     else if segments ! 0 = ''nodes'' then
       (case map_of byID (segments ! 1) of
          None \<Rightarrow> Some (verr p ''prompt references unknown node %q'' [segments ! 1])
        | Some target \<Rightarrow>
            if length segments < 4 \<or> segments ! 2 \<noteq> ''outputs'' then
              Some (verr p ''prompt variable %q must reference a node output (nodes.<id>.outputs.<field>)'' [expr])
            else check (\<not> nodeOutputsField target (segments ! 3))
              (verr p ''node %q does not declare output %q'' [segments ! 1, segments ! 3]))
     else if segments ! 0 = ''event'' then
       (if \<not> allowSessionContext then
          Some (verr p ''unknown variable scope \"event\" (expected inputs or nodes)'' [])
        else check (segments ! 1 \<notin> set event_fields)
          (verr p ''unknown session event field %q'' [segments ! 1]))
     else if segments ! 0 = ''session'' then
       (if \<not> allowSessionContext then
          Some (verr p ''unknown variable scope \"session\" (expected inputs or nodes)'' [])
        else check (segments ! 1 \<notin> set [''id'', ''state'', ''version''])
          (verr p ''unknown session field %q'' [segments ! 1]))
     else Some (verr p ''unknown variable scope %q (expected inputs or nodes)'' [segments ! 0]))"

definition validateVarRefs ::
  "string \<Rightarrow> string \<Rightarrow> flow_definition \<Rightarrow> node_index \<Rightarrow> bool \<Rightarrow> go_error option" where
  "validateVarRefs prompt p d byID allowSessionContext =
    (if blank prompt then None
     else each (\<lambda>m. varRef_err (trim_space m) p d byID allowSessionContext) (find_refs prompt))"

section \<open>Network policies and services\<close>

definition validateNetworkPolicy :: "network_policy \<Rightarrow> go_error option" where
  "validateNetworkPolicy np =
    (let p = norm_word (np_Policy np) in
     if p \<notin> set [[], ''allow_all'', ''allowlist''] then
       Some (verr ''network.policy'' ''invalid network policy %q (allow_all|allowlist)'' [np_Policy np])
     else if p = ''allowlist'' \<and> length (np_AllowedDomains np) = 0 then
       Some (verr ''network.allowed_domains'' ''allowlist policy requires at least one allowed domain'' [])
     else if np_AllowPrivateHosts np \<and> (p \<noteq> ''allowlist'' \<or> length (np_AllowedDomains np) = 0) then
       Some (verr ''network.allow_private_hosts'' ''private hosts require an explicit domain allowlist'' [])
     else if np_TimeoutSeconds np < 0 \<or> np_TimeoutSeconds np > MaxTimeoutSeconds then
       Some (verr ''network.timeout_seconds'' ''must be between 0 and %d seconds'' [itoa MaxTimeoutSeconds])
     else if np_MaxResponseChars np < 0 \<or> np_MaxResponseChars np > MaxNetworkResponseChars then
       Some (verr ''network.max_response_chars'' ''must be between 0 and %d'' [itoa MaxNetworkResponseChars])
     else None)"

definition isServiceTransportHeader :: "string \<Rightarrow> bool" where
  "isServiceTransportHeader name \<longleftrightarrow> norm_word name \<in>
     set [''connection'', ''content-length'', ''host'', ''keep-alive'', ''proxy-connection'',
      ''te'', ''trailer'', ''transfer-encoding'', ''upgrade'']"

definition validEnvironmentVariableName :: "string \<Rightarrow> bool" where
  "validEnvironmentVariableName name \<longleftrightarrow> name \<noteq> [] \<and> ident_start (hd name) \<and>
    list_all (\<lambda>c. ident_start c \<or> is_digit c) (tl name)"

definition validHTTPHeaderName :: "string \<Rightarrow> bool" where
  "validHTTPHeaderName name \<longleftrightarrow> name \<noteq> [] \<and>
    list_all (\<lambda>r. char_in CHR ''a'' CHR ''z'' r \<or> char_in CHR ''A'' CHR ''Z'' r \<or> is_digit r \<or>
      r \<in> set (''!#$%&'' @ [CHR 0x27] @ ''*+-.^_`|~'')) name"

fun serviceHeaders_err :: "string \<Rightarrow> string list \<Rightarrow> (string \<times> string) list \<Rightarrow> go_error + string list" where
  "serviceHeaders_err path seen [] = Inr seen"
| "serviceHeaders_err path seen ((name, v) # hs) =
    (let lowerName = to_lower name in
     if \<not> validHTTPHeaderName name then Inl (verr (path @ ''.headers'') ''invalid header name %q'' [name])
     else if lowerName \<in> set seen then Inl (verr (path @ ''.headers'') ''duplicate header name %q'' [name])
     else if CHR 0x0D \<in> set v \<or> CHR 0x0A \<in> set v then
       Inl (verr (path @ ''.headers.'' @ name) ''header value must not contain newlines'' [])
     else if lowerName \<in> set [''authorization'', ''proxy-authorization'', ''x-api-key''] then
       Inl (verr (path @ ''.headers.'' @ name) ''use service.auth environment reference for credentials'' [])
     else if isServiceTransportHeader lowerName then
       Inl (verr (path @ ''.headers.'' @ name) ''transport-managed header is not allowed'' [])
     else serviceHeaders_err path (lowerName # seen) hs)"

definition serviceAuth_err :: "string \<Rightarrow> string list \<Rightarrow> service_auth_spec \<Rightarrow> go_error option" where
  "serviceAuth_err path seenHeaders auth =
    (let authType = norm_word (sa_Type auth); tokenEnv = trim_space (sa_TokenEnv auth) in
     if \<not> validEnvironmentVariableName tokenEnv then
       Some (verr (path @ ''.auth.token_env'') ''must be a valid environment variable name'' [])
     else if authType = ''bearer'' then
       check (\<not> blank (sa_HeaderName auth))
         (verr (path @ ''.auth.header_name'') ''is only valid for api_key authentication'' [])
     else if authType = ''api_key'' then
       (if \<not> validHTTPHeaderName (sa_HeaderName auth) then
          Some (verr (path @ ''.auth.header_name'') ''must be a valid HTTP header name'' [])
        else let headerName = norm_word (sa_HeaderName auth) in
          if headerName = ''authorization'' \<or> headerName = ''proxy-authorization'' \<or>
             isServiceTransportHeader headerName then
            Some (verr (path @ ''.auth.header_name'') ''must not override an authorization transport header'' [])
          else check (headerName \<in> set seenHeaders)
            (verr (path @ ''.auth.header_name'') ''must not duplicate a service header'' []))
     else Some (verr (path @ ''.auth.type'') ''must be bearer or api_key'' []))"

definition serviceURL_ok :: "go_env \<Rightarrow> string \<Rightarrow> bool" where
  "serviceURL_ok env rawURL \<longleftrightarrow>
    (case ge_parse_url env (replace_refs ''godex-value'' rawURL) of
       None \<Rightarrow> False
     | Some u \<Rightarrow> (pu_Scheme u = ''http'' \<or> pu_Scheme u = ''https'') \<and> pu_Hostname u \<noteq> [] \<and> \<not> pu_HasUser u)"

definition validateServiceSpec :: "go_env \<Rightarrow> service_spec option \<Rightarrow> string \<Rightarrow> go_error option" where
  "validateServiceSpec env spec path =
    (case spec of
       None \<Rightarrow> Some (verr path ''service node missing service spec'' [])
     | Some s \<Rightarrow>
         if to_upper (trim_space (s_Method s)) \<notin> set [''GET'', ''POST'', ''PUT'', ''PATCH'', ''DELETE''] then
           Some (verr (path @ ''.method'') ''must be GET, POST, PUT, PATCH, or DELETE'' [])
         else if blank (s_URL s) then Some (verr (path @ ''.url'') ''service URL is required'' [])
         else if \<not> serviceURL_ok env (trim_space (s_URL s)) then
           Some (verr (path @ ''.url'') ''must be an absolute http or https URL without userinfo'' [])
         else (case serviceHeaders_err path [] (s_Headers s) of
           Inl e \<Rightarrow> Some e
         | Inr seenHeaders \<Rightarrow>
             if s_Body s = RawBlank \<or> s_Body s = RawBad then
               Some (verr (path @ ''.body'') ''must be valid JSON'' [])
             else (case s_Auth s of None \<Rightarrow> None | Some auth \<Rightarrow> serviceAuth_err path seenHeaders auth)))"

fun serviceBody_err ::
  "json \<Rightarrow> string \<Rightarrow> flow_definition \<Rightarrow> node_index \<Rightarrow> bool \<Rightarrow> go_error option" where
  "serviceBody_err (JStr s) currentPath d byID allow = validateVarRefs s currentPath d byID allow"
| "serviceBody_err (JObj kvs) currentPath d byID allow =
    each (\<lambda>(key, child). serviceBody_err child (currentPath @ ''.'' @ key) d byID allow) kvs"
| "serviceBody_err (JArr vs) currentPath d byID allow =
    each_i 0 (\<lambda>i child. serviceBody_err child (currentPath @ idx i) d byID allow) vs"
| "serviceBody_err _ currentPath d byID allow = None"

definition allow_session :: "flow_definition \<Rightarrow> bool" where
  "allow_session d \<longleftrightarrow> EffectiveExecutionMode (fd_ExecutionMode d) = ''session''"

definition validateServiceVarRefs ::
  "service_spec \<Rightarrow> string \<Rightarrow> flow_definition \<Rightarrow> node_index \<Rightarrow> go_error option" where
  "validateServiceVarRefs spec path d byID =
    andthen (validateVarRefs (s_URL spec) (path @ ''.url'') d byID (allow_session d))
    (andthen (each (\<lambda>(name, v). validateVarRefs v (path @ ''.headers.'' @ name) d byID (allow_session d))
        (s_Headers spec))
      (case s_Body spec of
         RawEmpty \<Rightarrow> None
       | RawJSON body \<Rightarrow> serviceBody_err body (path @ ''.body'') d byID (allow_session d)
       | _ \<Rightarrow> Some (verr (path @ ''.body'') ''must be valid JSON'' [])))"


section \<open>Conditions and node specifications\<close>

fun validateCondition :: "condition \<Rightarrow> string \<Rightarrow> node_index \<Rightarrow> go_error option" where
  "validateCondition (Cond status verdict node choice confidence output neg alls anys) p byID =
    andthen (check (node \<noteq> [] \<and> map_of byID (trim_space node) = None)
        (verr p ''condition targets unknown node %q'' [node]))
    (andthen (case confidence of None \<Rightarrow> None
        | Some nc \<Rightarrow> check (nc_Op nc \<notin> set [''gt'', ''gte'', ''lt'', ''lte'', ''eq''])
            (verr (p @ ''.confidence'') ''invalid numeric op %q'' [nc_Op nc]))
    (andthen (case output of None \<Rightarrow> None
        | Some fc \<Rightarrow>
            andthen (check (fc_Op fc \<notin> set [''eq'', ''ne'', ''in'', ''not_in'', ''contains'', ''gt'', ''gte'', ''lt'', ''lte''])
              (verr (p @ ''.output'') ''invalid field op %q'' [fc_Op fc]))
            (check (blank (fc_Path fc)) (verr (p @ ''.output'') ''output predicate requires a path'' [])))
    (andthen (case neg of None \<Rightarrow> None | Some c \<Rightarrow> validateCondition c (p @ ''.not'') byID)
    (andthen (each_i 0 (\<lambda>i sub. validateCondition sub (p @ ''.all'' @ idx i) byID) alls)
      (each_i 0 (\<lambda>i sub. validateCondition sub (p @ ''.any'' @ idx i) byID) anys)))))"

definition validateRetry :: "retry_policy \<Rightarrow> string \<Rightarrow> go_error option" where
  "validateRetry r p =
    (if rp_MaxAttempts r < 1 then
       Some (verr (p @ ''.retry'') ''max_attempts must be >= 1, got %d'' [itoa (rp_MaxAttempts r)])
     else check (rp_InitialIntervalMS r < 0 \<or> rp_MaxIntervalMS r < 0 \<or> rp_Jitter r < 0 \<or> rp_Jitter r > 1)
       (verr (p @ ''.retry'') ''interval/jitter values out of range'' []))"

fun choices_err :: "string list \<Rightarrow> flow_choice list \<Rightarrow> string \<Rightarrow> go_error option" where
  "choices_err seen [] p = None"
| "choices_err seen (c # cs) p =
    (let cid = trim_space (ch_ID c) in
     if cid = [] then Some (verr (p @ ''.decision'') ''choice with empty id'' [])
     else if cid \<in> set seen then Some (verr (p @ ''.decision'') ''duplicate choice id %q'' [cid])
     else choices_err (cid # seen) cs p)"

definition validateDecision :: "decision_spec \<Rightarrow> string \<Rightarrow> go_error option" where
  "validateDecision s p =
    (let dt = (if norm_word (d_DecisionType s) = [] then ''choice'' else norm_word (d_DecisionType s));
         oe = norm_word (d_OnError s) in
     if dt \<notin> set [''choice'', ''boolean'', ''score''] then
       Some (verr (p @ ''.decision'') ''invalid decision_type %q'' [d_DecisionType s])
     else andthen
       (if dt = ''choice'' then
          (if length (d_Choices s) = 0
           then Some (verr (p @ ''.decision'') ''choice decision requires at least one choice'' [])
           else choices_err [] (d_Choices s) p)
        else None)
       (if oe \<notin> set [[], ''fail_closed'', ''fail_open'', ''fail''] then
          Some (verr (p @ ''.decision'') ''invalid on_error %q'' [d_OnError s])
        else check (oe = ''fail_open'' \<and> blank (d_DefaultChoice s))
          (verr (p @ ''.decision'') ''on_error=fail_open requires default_choice'' [])))"

definition normalizeHumanOnTimeout :: "string \<Rightarrow> string" where
  "normalizeHumanOnTimeout v0 =
    (let v = norm_word v0 in
     if has_prefix v ''escalate'' then
       let target = trim_prefix (trim_space (trim_prefix v ''escalate'')) '':'' in
       if \<not> blank target then ''escalate:'' @ trim_space target else ''escalate''
     else v)"

definition validateHuman :: "human_spec option \<Rightarrow> string \<Rightarrow> go_error option" where
  "validateHuman spec p =
    (case spec of
       None \<Rightarrow> Some (verr (p @ ''.human'') ''human node missing human spec'' [])
     | Some s \<Rightarrow>
         if blank (h_Queue s) then Some (verr (p @ ''.human'') ''human spec missing queue'' [])
         else if h_TimeoutMS s < 0 then
           Some (verr (p @ ''.human'') ''human timeout_ms must not be negative'' [])
         else let ot = normalizeHumanOnTimeout (h_OnTimeout s) in
           if ot \<in> set [[], ''fail'', ''llm''] then None
           else if ot = ''escalate'' then
             Some (verr (p @ ''.human'') ''human on_timeout escalate requires a target queue (escalate:<queue>)'' [])
           else check (\<not> has_prefix ot ''escalate:'')
             (verr (p @ ''.human'') ''invalid on_timeout %q (want fail|llm|escalate:<queue>)'' [h_OnTimeout s]))"

definition validateBranch :: "branch_spec \<Rightarrow> string \<Rightarrow> node_index \<Rightarrow> go_error option" where
  "validateBranch b p byID =
    (if length (b_Cases b) = 0 then Some (verr (p @ ''.branch'') ''branch requires at least one case'' [])
     else andthen
       (each_i 0 (\<lambda>i c. let cp = p @ ''.branch.cases'' @ idx i in
          if map_of byID (trim_space (bc_To c)) = None then
            Some (verr cp ''branch case targets unknown node %q'' [bc_To c])
          else if ConditionEmpty (bc_Condition c) then
            Some (verr cp ''branch case requires a condition'' [])
          else validateCondition (bc_Condition c) cp byID) (b_Cases b))
       (check (map_of byID (trim_space (b_DefaultTo b)) = None)
         (verr (p @ ''.branch'') ''branch default_to unknown node %q'' [b_DefaultTo b])))"

definition validateLoop :: "loop_spec \<Rightarrow> string \<Rightarrow> node_index \<Rightarrow> go_error option" where
  "validateLoop l p byID =
    (if length (l_Body l) = 0 then Some (verr (p @ ''.loop'') ''loop requires a non-empty body'' [])
     else andthen
       (each (\<lambda>i. check (map_of byID (trim_space i) = None)
          (verr (p @ ''.loop'') ''loop body references unknown node %q'' [i])) (l_Body l))
       (if ConditionEmpty (l_ExitWhen l) then
          Some (verr (p @ ''.loop'') ''loop requires exit_when condition'' [])
        else andthen (validateCondition (l_ExitWhen l) (p @ ''.loop'') byID)
          (check (l_MaxIterations l < 1)
            (verr (p @ ''.loop'') ''loop max_iterations must be >= 1, got %d'' [itoa (l_MaxIterations l)]))))"

definition schemaField_err :: "raw_message \<Rightarrow> string \<Rightarrow> go_error option" where
  "schemaField_err raw path =
    (case decodeSchemaDefinition raw path of Inl e \<Rightarrow> Some (ValidationError path e) | Inr _ \<Rightarrow> None)"

definition validateFunction :: "function_spec option \<Rightarrow> string \<Rightarrow> go_error option" where
  "validateFunction spec p =
    (case spec of
       None \<Rightarrow> Some (verr p ''function node missing function spec'' [])
     | Some f \<Rightarrow>
         andthen
           (if norm_word (f_Runtime f) = ''js'' then
              check (blank (f_Source f)) (verr (p @ ''.function'') ''js function node requires source'' [])
            else if norm_word (f_Runtime f) = ''wasm'' then
              check (blank (f_Ref f)) (verr (p @ ''.function'') ''wasm function node requires a node-library ref'' [])
            else Some (verr (p @ ''.function'') ''unknown function runtime %q (js|wasm)'' [f_Runtime f]))
         (andthen (schemaField_err (f_InputSchema f) (p @ ''.function.input_schema''))
           (schemaField_err (f_OutputSchema f) (p @ ''.function.output_schema''))))"

definition validateNodeKindSpec ::
  "go_env \<Rightarrow> flow_node \<Rightarrow> string \<Rightarrow> string \<Rightarrow> flow_definition \<Rightarrow> node_index \<Rightarrow> go_error option" where
  "validateNodeKindSpec env n kind path d byID =
    (if kind = ''decision'' then
       (case n_Decision n of None \<Rightarrow> Some (verr path ''decision node missing decision spec'' [])
        | Some s \<Rightarrow> validateDecision s path)
     else if kind = ''human'' then
       (case n_Human n of None \<Rightarrow> Some (verr path ''human node missing human spec'' [])
        | Some s \<Rightarrow> validateHuman (Some s) path)
     else if kind = ''branch'' then
       (case n_Branch n of None \<Rightarrow> Some (verr path ''branch node missing branch spec'' [])
        | Some b \<Rightarrow> validateBranch b path byID)
     else if kind = ''loop'' then
       (case n_Loop n of None \<Rightarrow> Some (verr path ''loop node missing loop spec'' [])
        | Some l \<Rightarrow> validateLoop l path byID)
     else if kind = ''function'' then validateFunction (n_Function n) path
     else if kind = ''service'' then
       andthen (validateServiceSpec env (n_Service n) (path @ ''.service''))
         (case n_Service n of None \<Rightarrow> Some Panic
          | Some s \<Rightarrow> validateServiceVarRefs s (path @ ''.service'') d byID)
     else None)"

definition validateStaticNode ::
  "go_env \<Rightarrow> flow_definition \<Rightarrow> flow_node \<Rightarrow> node_index \<Rightarrow> go_error option" where
  "validateStaticNode env d n byID =
    (let p = ''nodes['' @ n_ID n @ '']''; kind = normalizeKind (n_Kind n) in
     if kind = [] then Some (verr p ''unknown node kind %q'' [n_Kind n])
     else if n_TimeoutSec n < 0 \<or> n_TimeoutSec n > MaxTimeoutSeconds then
       Some (verr (p @ ''.timeout_sec'') ''must be between 0 and %d seconds'' [itoa MaxTimeoutSeconds])
     else if n_TimeoutSec n > 0 \<and> (kind = ''branch'' \<or> kind = ''loop'') then
       Some (verr (p @ ''.timeout_sec'') ''timeouts are not supported on branch and loop control nodes'' [])
     else if kind \<noteq> ''branch'' \<and> kind \<noteq> ''loop'' \<and> kind \<noteq> ''function'' \<and> kind \<noteq> ''service'' \<and> blank (n_Prompt n) then
       Some (verr p ''node requires prompt (branch/loop nodes carry cases/exit instead)'' [])
     else andthen (case n_Retry n of None \<Rightarrow> None | Some r \<Rightarrow> validateRetry r p)
      (andthen (validateVarDefs (n_Outputs n) (p @ ''.outputs''))
      (andthen (validateVarRefs (n_Prompt n) (p @ ''.prompt'') d byID (allow_session d))
        (validateNodeKindSpec env n kind p d byID))))"

section \<open>The definition header, the nodes and the edges\<close>

definition validateDefinitionHeader :: "flow_definition option \<Rightarrow> go_error option" where
  "validateDefinitionHeader def =
    (case def of
       None \<Rightarrow> Some (verr [] ''nil flow definition'' [])
     | Some d \<Rightarrow>
         if blank (fd_FlowID d) then Some (verr ''flow_id'' ''missing flow_id'' [])
         else if norm_word (fd_ExecutionMode d) \<notin> set [[], ''request'', ''session''] then
           Some (verr ''execution_mode'' ''must be %q or %q'' [''request'', ''session''])
         else if length (fd_Nodes d) = 0 then Some (verr ''nodes'' ''flow has no nodes'' [])
         else andthen (validateIODecls d)
           (andthen (check (fd_TimeoutSec d < 0 \<or> fd_TimeoutSec d > MaxTimeoutSeconds)
               (verr ''timeout_sec'' ''must be between 0 and %d seconds'' [itoa MaxTimeoutSeconds]))
           (andthen (case fd_Network d of None \<Rightarrow> None | Some np \<Rightarrow> validateNetworkPolicy np)
             (case fd_OnComplete d of None \<Rightarrow> None
              | Some oc \<Rightarrow> check (blank (oc_URL oc))
                  (verr ''on_complete.url'' ''on_complete requires a callback url'' [])))))"

definition indexNode :: "node_index \<Rightarrow> flow_node \<Rightarrow> go_error + node_index" where
  "indexNode byID n =
    (let i = trim_space (n_ID n) in
     if i = [] then Inl (verr ''nodes'' ''node with empty id'' [])
     else if map_of byID i \<noteq> None then Inl (verr ''nodes'' ''duplicate node id %q'' [i])
     else Inr (byID @ [(i, n)]))"

definition indexDefinitionNodes :: "flow_definition \<Rightarrow> go_error + node_index" where
  "indexDefinitionNodes d = each_st indexNode [] (fd_Nodes d)"

definition validateStaticNodes :: "go_env \<Rightarrow> flow_definition \<Rightarrow> node_index \<Rightarrow> go_error option" where
  "validateStaticNodes env d byID = each (\<lambda>n. validateStaticNode env d n byID) (fd_Nodes d)"

type_synonym dep_graph = "(string \<times> string list) list"

definition add_dep :: "dep_graph \<Rightarrow> string \<Rightarrow> string \<Rightarrow> dep_graph" where
  "add_dep g to from =
    (if map_of g to = None then g @ [(to, [from])]
     else map (\<lambda>(k, ds). (k, if k = to then ds @ [from] else ds)) g)"

definition validateDependencyEdge ::
  "node_index \<Rightarrow> dep_graph \<Rightarrow> flow_edge \<Rightarrow> go_error + dep_graph" where
  "validateDependencyEdge byID depGraph e =
    (let path = ''edges['' @ e_ID e @ '']'' in
     if map_of byID (e_From e) = None then Inl (verr path ''edge from unknown node %q'' [e_From e])
     else if map_of byID (e_To e) = None then Inl (verr path ''edge to unknown node %q'' [e_To e])
     else if normalizeEdgeType (e_EdgeType e) \<in> set [''data_dependency'', ''handoff''] then
       (case e_When e of
          Some w \<Rightarrow> if \<not> ConditionEmpty w
                   then Inl (verr path ''data_dependency/handoff edges must not carry a when predicate'' [])
                   else Inr (add_dep depGraph (e_To e) (e_From e))
        | None \<Rightarrow> Inr (add_dep depGraph (e_To e) (e_From e)))
     else if normalizeEdgeType (e_EdgeType e) = ''condition'' then
       (case e_When e of
          None \<Rightarrow> Inl (verr path ''condition edge requires a when predicate'' [])
        | Some w \<Rightarrow> if ConditionEmpty w then Inl (verr path ''condition edge requires a when predicate'' [])
                   else (case validateCondition w path byID of Some err \<Rightarrow> Inl err | None \<Rightarrow> Inr depGraph))
     else Inl (verr path ''unknown edge type %q'' [e_EdgeType e]))"

definition findCycle :: "go_env \<Rightarrow> dep_graph \<Rightarrow> string list option" where
  "findCycle env g = find_cycle g (ge_range env (map fst g))"

definition validateDependencyEdges :: "go_env \<Rightarrow> flow_definition \<Rightarrow> node_index \<Rightarrow> go_error option" where
  "validateDependencyEdges env d byID =
    (case each_st (validateDependencyEdge byID) (map (\<lambda>k. (k, [])) (ge_range env (map fst byID))) (fd_Edges d) of
       Inl err \<Rightarrow> Some err
     | Inr depGraph \<Rightarrow>
         (case findCycle env depGraph of
            None \<Rightarrow> None
          | Some cycle \<Rightarrow> Some (verr ''edges'' ''dependency cycle: %s'' [join '' -> '' cycle])))"

definition expanded_count :: "flow_node list \<Rightarrow> int" where
  "expanded_count ns = foldl (\<lambda>expanded n.
     let expanded = wrap64 (expanded + 1) in
     case n_Loop n of
       Some l \<Rightarrow> if l_MaxIterations l > 0
                then wrap64 (expanded + wrap64 (l_MaxIterations l * int (length (l_Body l)))) else expanded
     | None \<Rightarrow> expanded) 0 ns"

definition validateExpandedNodeLimit :: "flow_definition \<Rightarrow> go_error option" where
  "validateExpandedNodeLimit d =
    check (expanded_count (fd_Nodes d) > MaxNodes)
      (verr ''nodes'' ''worst-case expanded node count %d exceeds cap %d''
        [itoa (expanded_count (fd_Nodes d)), itoa MaxNodes])"

end
