(* ===== verification/Go_Std.thy ===== *)
theory Go_Std
  imports Prelude
begin

text \<open>
  More of Go's standard library: suffixes and fields of strings, and the lexical path functions
  of \<open>path/filepath\<close> on Unix.
\<close>

section \<open>Strings\<close>

definition has_suffix :: "string \<Rightarrow> string \<Rightarrow> bool" where
  "has_suffix s p \<longleftrightarrow> has_prefix (rev s) (rev p)"

definition trim_suffix :: "string \<Rightarrow> string \<Rightarrow> string" where
  "trim_suffix s p = (if has_suffix s p then take (length s - length p) s else s)"

text \<open>\<open>strings.Trim\<close> and \<open>strings.TrimRight\<close> with a set of ASCII bytes.\<close>

definition trim_set :: "string \<Rightarrow> string \<Rightarrow> string" where
  "trim_set cs s = rev (dropWhile (\<lambda>c. c \<in> set cs) (rev (dropWhile (\<lambda>c. c \<in> set cs) s)))"

definition trim_right_set :: "string \<Rightarrow> string \<Rightarrow> string" where
  "trim_right_set cs s = rev (dropWhile (\<lambda>c. c \<in> set cs) (rev s))"

definition index_byte :: "string \<Rightarrow> char \<Rightarrow> nat option" where
  "index_byte s c = (if c \<in> set s then Some (length (takeWhile (\<lambda>x. x \<noteq> c) s)) else None)"

text \<open>\<open>strings.Fields\<close>: the parts between runs of white space.\<close>

function fields_from :: "string \<Rightarrow> string \<Rightarrow> string list" where
  "fields_from cur [] = (if cur = [] then [] else [cur])"
| "fields_from cur (c # s) =
    (if lead_len space_seqs (c # s) = 0 then fields_from (cur @ [c]) s
     else (if cur = [] then [] else [cur]) @ fields_from [] (drop (lead_len space_seqs (c # s)) (c # s)))"
  by pat_completeness auto
termination by (relation "measure (\<lambda>(cur, s). length s)") auto

definition fields :: "string \<Rightarrow> string list" where
  "fields s = fields_from [] s"

lemma has_suffix_iff: "has_suffix s p \<longleftrightarrow> (\<exists>l. s = l @ p)"
proof -
  have "has_prefix (rev s) (rev p) \<longleftrightarrow> (\<exists>l. rev s = rev p @ l)"
    unfolding has_prefix_def by (metis append_eq_conv_conj append_take_drop_id)
  also have "\<dots> \<longleftrightarrow> (\<exists>l. s = l @ p)" by (metis rev_append rev_rev_ident)
  finally show ?thesis by (simp add: has_suffix_def)
qed

lemma has_prefix_iff: "has_prefix s p \<longleftrightarrow> (\<exists>l. s = p @ l)"
  unfolding has_prefix_def by (metis append_eq_conv_conj append_take_drop_id)

section \<open>Paths\<close>

text \<open>\<open>filepath.Base\<close>, \<open>filepath.Clean\<close> and \<open>filepath.Dir\<close>.\<close>

definition Base :: "string \<Rightarrow> string" where
  "Base path =
    (if path = [] then ''.''
     else let p = trim_right_set ''/'' path in
       if p = [] then ''/'' else rev (takeWhile (\<lambda>c. c \<noteq> CHR ''/'') (rev p)))"

fun clean_step :: "bool \<Rightarrow> string list \<Rightarrow> string \<Rightarrow> string list" where
  "clean_step rooted stack part =
    (if part = [] \<or> part = ''.'' then stack
     else if part = ''..'' then
       (if stack \<noteq> [] \<and> last stack \<noteq> ''..'' then butlast stack
        else if rooted then stack
        else stack @ [''..''])
     else stack @ [part])"

definition Clean :: "string \<Rightarrow> string" where
  "Clean path =
    (let rooted = has_prefix path ''/'';
         parts = foldl (clean_step rooted) [] (split_char CHR ''/'' path)
     in if rooted then CHR ''/'' # join ''/'' parts
        else if parts = [] then ''.'' else join ''/'' parts)"

definition Dir :: "string \<Rightarrow> string" where
  "Dir path = Clean (rev (dropWhile (\<lambda>c. c \<noteq> CHR ''/'') (rev path)))"

definition IsAbs :: "string \<Rightarrow> bool" where
  "IsAbs path \<longleftrightarrow> has_prefix path ''/''"

definition Join2 :: "string \<Rightarrow> string \<Rightarrow> string" where
  "Join2 a b = (if a = [] \<and> b = [] then [] else if a = [] then Clean b else if b = [] then Clean a else Clean (a @ ''/'' @ b))"

end
