(* ===== verification/Net_Util.thy ===== *)
theory Net_Util
  imports Go_Std "HOL-Library.Word"
begin

unbundle bit_operations_syntax

text \<open>
  Addresses and domain patterns (\<open>src/internal/tools/netutil.go\<close>): which addresses count as
  private or local, and which hosts a list of domains matches. The address classes of Go's
  \<open>net.IP\<close> come first; the network policies of service calls and the URL checks of shell
  commands rest on them.
\<close>

section \<open>Addresses\<close>

text \<open>A \<open>net.IP\<close> is a slice of 4 or 16 bytes; the predicates of the standard library look at its bytes.\<close>

type_synonym ip = "8 word list"

definition To4 :: "ip \<Rightarrow> ip option" where
  "To4 a = (if length a = 4 then Some a
     else if length a = 16 \<and> list_all (\<lambda>b. b = 0) (take 10 a) \<and> a ! 10 = 0xFF \<and> a ! 11 = 0xFF then Some (drop 12 a)
     else None)"

definition IsLoopback :: "ip \<Rightarrow> bool" where
  "IsLoopback a = (case To4 a of Some v4 \<Rightarrow> v4 ! 0 = 127 | None \<Rightarrow> a = replicate 15 0 @ [1])"

definition IsUnspecified :: "ip \<Rightarrow> bool" where
  "IsUnspecified a = (case To4 a of Some v4 \<Rightarrow> v4 = [0, 0, 0, 0] | None \<Rightarrow> a = replicate 16 0)"

definition IsMulticast :: "ip \<Rightarrow> bool" where
  "IsMulticast a = (case To4 a of Some v4 \<Rightarrow> v4 ! 0 AND 0xF0 = 0xE0 | None \<Rightarrow> length a = 16 \<and> a ! 0 = 0xFF)"

definition IsLinkLocalMulticast :: "ip \<Rightarrow> bool" where
  "IsLinkLocalMulticast a = (case To4 a of
     Some v4 \<Rightarrow> v4 ! 0 = 224 \<and> v4 ! 1 = 0 \<and> v4 ! 2 = 0
   | None \<Rightarrow> length a = 16 \<and> a ! 0 = 0xFF \<and> a ! 1 AND 0x0F = 0x02)"

definition IsLinkLocalUnicast :: "ip \<Rightarrow> bool" where
  "IsLinkLocalUnicast a = (case To4 a of
     Some v4 \<Rightarrow> v4 ! 0 = 169 \<and> v4 ! 1 = 254
   | None \<Rightarrow> length a = 16 \<and> a ! 0 = 0xFE \<and> a ! 1 AND 0xC0 = 0x80)"

definition IsPrivate :: "ip \<Rightarrow> bool" where
  "IsPrivate a = (case To4 a of
     Some v4 \<Rightarrow> v4 ! 0 = 10 \<or> (v4 ! 0 = 172 \<and> v4 ! 1 AND 0xF0 = 16) \<or> (v4 ! 0 = 192 \<and> v4 ! 1 = 168)
   | None \<Rightarrow> length a = 16 \<and> a ! 0 AND 0xFE = 0xFC)"

definition isPrivateOrLocalIP :: "ip \<Rightarrow> bool" where
  "isPrivateOrLocalIP a =
    (if IsLoopback a \<or> IsUnspecified a \<or> IsLinkLocalUnicast a \<or> IsLinkLocalMulticast a \<or> IsMulticast a then True
     else (case To4 a of
       Some v4 \<Rightarrow> v4 ! 0 = 10 \<or> (v4 ! 0 = 172 \<and> v4 ! 1 \<ge> 16 \<and> v4 ! 1 \<le> 31) \<or> (v4 ! 0 = 192 \<and> v4 ! 1 = 168) \<or>
           (v4 ! 0 = 169 \<and> v4 ! 1 = 254) \<or> v4 ! 0 = 127
     | None \<Rightarrow> IsPrivate a))"

section \<open>Domain patterns\<close>

definition pattern_matches :: "string \<Rightarrow> string \<Rightarrow> bool" where
  "pattern_matches hostname pattern0 =
    (let pattern = norm_word pattern0 in
     if pattern = [] then False
     else if pattern = hostname then True
     else if has_prefix pattern ''*.'' then
       (let suffix = trim_prefix pattern ''*''
        in has_suffix hostname suffix \<and> hostname \<noteq> trim_prefix suffix ''.'')
     else False)"

definition matchDomainPattern :: "string \<Rightarrow> string list \<Rightarrow> bool" where
  "matchDomainPattern hostname0 patterns =
    (let hostname = norm_word hostname0 in
     if hostname = [] then False else list_ex (pattern_matches hostname) patterns)"

section \<open>What a pattern matches\<close>

text \<open>
  A host matches a list of domains exactly when, up to case and surrounding space, it is one
  of them or lies below the domain of a \<open>*.\<close> pattern, the domain itself excluded.
\<close>

theorem domain_match_iff:
  "matchDomainPattern host patterns \<longleftrightarrow> norm_word host \<noteq> [] \<and> (\<exists>p \<in> set patterns.
     norm_word p = norm_word host \<or>
     (\<exists>domain label. norm_word p = ''*.'' @ domain \<and> norm_word host = label @ ''.'' @ domain))"
proof -
  have star: "has_prefix p ''*.'' \<longleftrightarrow> (\<exists>d. p = ''*.'' @ d)" for p
    unfolding has_prefix_def by (metis append_eq_conv_conj append_take_drop_id)
  have "pattern_matches h p \<longleftrightarrow> norm_word p = h \<or> (\<exists>d l. norm_word p = ''*.'' @ d \<and> h = l @ ''.'' @ d)"
    if "h \<noteq> []" for h p
  proof (cases "\<exists>d. norm_word p = ''*.'' @ d")
    case True
    then obtain d where d: "norm_word p = ''*.'' @ d" by blast
    have "trim_prefix (''*.'' @ d) ''*'' = ''.'' @ d" "trim_prefix (''.'' @ d) ''.'' = d"
      by (simp_all add: trim_prefix_def has_prefix_def)
    moreover have "has_suffix h (''.'' @ d) \<Longrightarrow> h \<noteq> d" by (auto simp: has_suffix_iff)
    ultimately show ?thesis
      using that d star by (auto simp: pattern_matches_def Let_def has_suffix_iff)
  next
    case False
    then show ?thesis using that star by (auto simp: pattern_matches_def Let_def)
  qed
  then show ?thesis by (auto simp: matchDomainPattern_def list_ex_iff Let_def)
qed

section \<open>Private addresses\<close>

lemma To4_length: "To4 a = Some v \<Longrightarrow> length v = 4"
  by (auto simp: To4_def split: if_splits)

text \<open>
  An IPv4 address, given in 4 or in 16 bytes, is private or local exactly when it is in one
  of 0.0.0.0/32, 10/8, 127/8, 169.254/16, 172.16/12, 192.168/16 and 224/4; in particular the
  shared address space 100.64/10 and 0.0.0.1 count as public destinations.
\<close>

theorem private_v4_ranges:
  assumes "To4 a = Some [b0, b1, b2, b3]"
  shows "isPrivateOrLocalIP a \<longleftrightarrow> [b0, b1, b2, b3] = [0, 0, 0, 0] \<or> b0 = 10 \<or> b0 = 127 \<or> b0 = 169 \<and> b1 = 254 \<or>
    b0 = 172 \<and> 16 \<le> b1 \<and> b1 \<le> 31 \<or> b0 = 192 \<and> b1 = 168 \<or> b0 AND 0xF0 = 0xE0"
  using assms
  by (auto simp: isPrivateOrLocalIP_def IsLoopback_def IsUnspecified_def IsLinkLocalUnicast_def IsLinkLocalMulticast_def
      IsMulticast_def)

theorem private_v4_ranges_witness:
  "\<not> isPrivateOrLocalIP [100, 64, 0, 1] \<and> \<not> isPrivateOrLocalIP [0, 0, 0, 1] \<and> isPrivateOrLocalIP [169, 254, 169, 254]"
proof -
  have "To4 [100, 64, 0, 1] = Some [100, 64, 0, 1]" "To4 [0, 0, 0, 1] = Some [0, 0, 0, 1]"
    "To4 [169, 254, 169, 254] = Some [169, 254, 169, 254]" by (simp_all add: To4_def)
  from this [THEN private_v4_ranges] show ?thesis by simp
qed

end
