(* ===== verification/Workflow_Service.thy ===== *)
theory Workflow_Service
  imports Workflow_Exec Flow_Checks Net_Util
begin

text \<open>
  The service call of a workflow node (\<open>src/internal/agent/workflow_flow_service.go\<close>) and the
  outbound network policy it and the code nodes are under (\<open>workflow_flow_function.go\<close>; the
  domain patterns and address classes of \<open>netutil.go\<close> are in theory \<open>Net_Util\<close>): which hosts and addresses may be reached, how a request is
  rendered from its specification, and what is made of the response.

  The network is the parameter \<open>service_env\<close>: the URL parser, \<open>net.ParseIP\<close>, name resolution at
  the time of the call, the process environment, the encoder, and the round trip itself.
\<close>

section \<open>Policies\<close>

record flow_network_policy =
  fp_Policy :: string
  fp_AllowedDomains :: "string list"
  fp_BlockedDomains :: "string list"
  fp_TimeoutSeconds :: int
  fp_MaxResponseChars :: int
  fp_AllowPrivateHosts :: bool

definition cleanDomainList :: "string list \<Rightarrow> string list" where
  "cleanDomainList values = filter (\<lambda>v. v \<noteq> []) (map norm_word values)"

definition flowNetworkPolicyFromSpec :: "network_policy option \<Rightarrow> flow_network_policy" where
  "flowNetworkPolicyFromSpec np =
    (case np of
       None \<Rightarrow> \<lparr>fp_Policy = ''allow_all'', fp_AllowedDomains = [], fp_BlockedDomains = [], fp_TimeoutSeconds = 15,
         fp_MaxResponseChars = 2 ^ 20, fp_AllowPrivateHosts = False\<rparr>
     | Some np \<Rightarrow>
         \<lparr>fp_Policy = (if norm_word (np_Policy np) = ''allowlist'' then ''allowlist'' else ''allow_all''),
          fp_AllowedDomains = cleanDomainList (np_AllowedDomains np),
          fp_BlockedDomains = cleanDomainList (np_BlockedDomains np),
          fp_TimeoutSeconds = (if np_TimeoutSeconds np > 0 then np_TimeoutSeconds np else 15),
          fp_MaxResponseChars = (if np_MaxResponseChars np > 0 then np_MaxResponseChars np else 2 ^ 20),
          fp_AllowPrivateHosts = np_AllowPrivateHosts np\<rparr>)"

text \<open>
  \<open>workflowServiceNetworkPolicy\<close> embeds the policy and has an \<open>AllowPrivateHosts\<close> of its own,
  which shadows the embedded one.
\<close>

record service_network_policy =
  sp_flowNetworkPolicy :: flow_network_policy
  sp_AllowPrivateHosts :: bool

definition serviceNetworkPolicyFromSpec :: "network_policy option \<Rightarrow> service_network_policy" where
  "serviceNetworkPolicyFromSpec np =
    \<lparr>sp_flowNetworkPolicy = flowNetworkPolicyFromSpec np,
     sp_AllowPrivateHosts = (case np of None \<Rightarrow> False | Some p \<Rightarrow> np_AllowPrivateHosts p)\<rparr>"

section \<open>The network\<close>

record service_url =
  ul_Scheme :: string
  ul_Hostname :: string
  ul_Port :: string
  ul_HasUser :: bool
  ul_String :: string

record service_request =
  rq_Method :: string
  rq_URL :: string
  rq_Header :: "(string \<times> string) list"
  rq_Body :: "string option"

text \<open>What the decoder of a response finds: no JSON value, a value followed by more, or one value.\<close>

datatype decoded_body = BadJSON | TrailingData | Decoded json

datatype round_trip =
    ContextDeadline
  | ContextCanceled
  | TransportFailure service_failure
  | NetTimeout
  | HostNotFound
  | TransportError
  | Response int "string option"

record service_env =
  sv_parse :: "string \<Rightarrow> service_url option"
  sv_parse_ip :: "string \<Rightarrow> ip option"
  sv_lookup :: "string \<Rightarrow> ip list option"
  sv_getenv :: "string \<Rightarrow> string"
  sv_float :: "rat \<Rightarrow> string"
  sv_encode :: "json \<Rightarrow> string"
  sv_decode :: "string \<Rightarrow> decoded_body"
  sv_request_ok :: "string \<Rightarrow> string \<Rightarrow> bool"
  sv_do :: "service_request \<Rightarrow> round_trip"

definition failure :: "string \<Rightarrow> string \<Rightarrow> service_failure" where
  "failure kind message = \<lparr>sf_Message = message, sf_RetryKind = Some kind\<rparr>"

abbreviation plain_failure :: "string \<Rightarrow> service_failure" where
  "plain_failure \<equiv> failure []"

definition workflowServiceAllowedIPs ::
  "service_env \<Rightarrow> string \<Rightarrow> service_network_policy \<Rightarrow> service_failure + ip list" where
  "workflowServiceAllowedIPs env host0 policy =
    (let host = trim_space host0; lowerHost = to_lower host; pol = sp_flowNetworkPolicy policy in
     if host = [] then Inl (plain_failure ''service URL is missing a hostname'')
     else if matchDomainPattern lowerHost (fp_BlockedDomains pol)
     then Inl (plain_failure ''service host is blocked by Flow network policy'')
     else if fp_Policy pol = ''allowlist'' \<and> \<not> matchDomainPattern lowerHost (fp_AllowedDomains pol)
     then Inl (plain_failure ''service host is not in the Flow allowlist'')
     else if sp_AllowPrivateHosts policy \<and> fp_Policy pol \<noteq> ''allowlist''
     then Inl (plain_failure ''private service hosts require an explicit Flow allowlist'')
     else (case (case sv_parse_ip env host of Some a \<Rightarrow> Some [a] | None \<Rightarrow> sv_lookup env host) of
       None \<Rightarrow> Inl (plain_failure ''service host could not be resolved'')
     | Some ips \<Rightarrow>
         if length ips = 0 then Inl (plain_failure ''service host resolved to no addresses'')
         else if list_ex (\<lambda>a. \<not> sp_AllowPrivateHosts policy \<and> isPrivateOrLocalIP a) ips
         then Inl (plain_failure ''private or local service addresses are blocked'')
         else Inr ips))"

definition absolute_http :: "service_url \<Rightarrow> bool" where
  "absolute_http u \<longleftrightarrow> (ul_Scheme u = ''http'' \<or> ul_Scheme u = ''https'') \<and> ul_Hostname u \<noteq> [] \<and> \<not> ul_HasUser u"

definition validateWorkflowServiceURL ::
  "service_env \<Rightarrow> string \<Rightarrow> network_policy option \<Rightarrow> service_failure + service_url \<times> service_network_policy" where
  "validateWorkflowServiceURL env rawURL network =
    (let policy = serviceNetworkPolicyFromSpec network;
         bad = plain_failure ''service URL must be an absolute HTTP(S) URL'' in
     case sv_parse env (trim_space rawURL) of
       None \<Rightarrow> Inl bad
     | Some u \<Rightarrow>
         if \<not> absolute_http u then Inl bad
         else (case workflowServiceAllowedIPs env (ul_Hostname u) policy of
           Inl e \<Rightarrow> Inl e | Inr _ \<Rightarrow> Inr (u, policy)))"

text \<open>
  The dialer of the transport: the host is checked again and only the addresses of that check
  are tried, in order. \<open>dial\<close> is a connection attempt. The result is the addresses tried and the
  connection.
\<close>

fun dial_first :: "(ip \<Rightarrow> string \<Rightarrow> 'e + 'c) \<Rightarrow> string \<Rightarrow> 'e option \<Rightarrow> ip list \<Rightarrow> ip list \<times> ('e option + 'c)" where
  "dial_first dial port lastErr [] = ([], Inl lastErr)"
| "dial_first dial port lastErr (a # as) =
    (case dial a port of
       Inr conn \<Rightarrow> ([a], Inr conn)
     | Inl e \<Rightarrow> (let (tried, r) = dial_first dial port (Some e) as in (a # tried, r)))"

datatype 'e dial_error = DialFailure service_failure | DialError 'e

definition workflowServiceDialContext ::
  "service_env \<Rightarrow> (ip \<Rightarrow> string \<Rightarrow> 'e + 'c) \<Rightarrow> service_network_policy \<Rightarrow> (string \<times> string) option \<Rightarrow>
     ip list \<times> ('e dial_error + 'c)" where
  "workflowServiceDialContext env dial policy address =
    (case address of
       None \<Rightarrow> ([], Inl (DialFailure (plain_failure ''service destination is invalid'')))
     | Some (host, port) \<Rightarrow>
         (case workflowServiceAllowedIPs env host policy of
            Inl e \<Rightarrow> ([], Inl (DialFailure e))
          | Inr ips \<Rightarrow>
              (case dial_first dial port None ips of
                 (tried, Inr conn) \<Rightarrow> (tried, Inr conn)
               | (tried, Inl None) \<Rightarrow> (tried, Inl (DialFailure (plain_failure ''service host could not be reached'')))
               | (tried, Inl (Some e)) \<Rightarrow> (tried, Inl (DialError e)))))"

section \<open>The bridge of the code nodes\<close>

text \<open>
  \<open>http.get\<close> of a JavaScript handler and the host call of a WASM plugin. The errors that the
  caller tells apart by their text (``private or local'', ``localhost'') are kept apart as values;
  the text of a failed lookup names the host.
\<close>

datatype remote_error = InvalidURL | UnsupportedScheme | MissingHostname | MissingHost | PrivateAddress | LocalhostName | ResolveHost

definition disallowPrivateHost :: "service_env \<Rightarrow> string \<Rightarrow> remote_error option" where
  "disallowPrivateHost env host0 =
    (let host = trim_space host0 in
     if host = [] then Some MissingHost
     else (case sv_parse_ip env host of
       Some a \<Rightarrow> check (isPrivateOrLocalIP a) PrivateAddress
     | None \<Rightarrow>
         if equal_fold host ''localhost'' \<or> has_suffix (to_lower host) ''.localhost'' then Some LocalhostName
         else (case sv_lookup env host of
           None \<Rightarrow> Some ResolveHost
         | Some addrs \<Rightarrow> check (list_ex isPrivateOrLocalIP addrs) PrivateAddress)))"

definition validateRemoteURL :: "service_env \<Rightarrow> string \<Rightarrow> bool \<Rightarrow> remote_error + service_url" where
  "validateRemoteURL env rawURL allowPrivate =
    (case sv_parse env (trim_space rawURL) of
       None \<Rightarrow> Inl InvalidURL
     | Some u \<Rightarrow>
         if ul_Scheme u \<noteq> ''http'' \<and> ul_Scheme u \<noteq> ''https'' then Inl UnsupportedScheme
         else if ul_Hostname u = [] then Inl MissingHostname
         else if allowPrivate then Inr u
         else (case disallowPrivateHost env (ul_Hostname u) of Some e \<Rightarrow> Inl e | None \<Rightarrow> Inr u))"

definition validateFlowHTTPURL :: "service_env \<Rightarrow> string \<Rightarrow> flow_network_policy \<Rightarrow> string + service_url" where
  "validateFlowHTTPURL env rawURL pol =
    (if blank rawURL then Inl ''empty url''
     else (case sv_parse env rawURL of
       None \<Rightarrow> Inl ''invalid or unsupported url %q (http/https only)''
     | Some u \<Rightarrow>
         let host = to_lower (ul_Hostname u) in
         if \<not> absolute_http u then Inl ''invalid or unsupported url %q (http/https only)''
         else if matchDomainPattern host (fp_BlockedDomains pol) then Inl ''domain %q is blocked by flow network policy''
         else if fp_Policy pol = ''allowlist'' \<and> \<not> matchDomainPattern host (fp_AllowedDomains pol)
         then Inl ''domain %q is not in the flow's allowed domains''
         else if fp_AllowPrivateHosts pol \<and> (fp_Policy pol \<noteq> ''allowlist'' \<or> length (fp_AllowedDomains pol) = 0)
         then Inl ''private hosts require an explicit flow allowlist''
         else if fp_AllowPrivateHosts pol then Inr u
         else (case validateRemoteURL env rawURL False of
           Inr _ \<Rightarrow> Inr u
         | Inl e \<Rightarrow> Inl (if e = PrivateAddress \<or> e = LocalhostName \<or> e = ResolveHost \<and> contains (ul_Hostname u) ''localhost''
                       then ''private or local destination is blocked by flow network policy''
                       else ''could not validate outbound destination''))))"

section \<open>Redirects\<close>

definition effective_port :: "service_url \<Rightarrow> string" where
  "effective_port u = (if ul_Port u = [] then (if equal_fold (ul_Scheme u) ''https'' then ''443'' else ''80'') else ul_Port u)"

definition sameWorkflowServiceOrigin :: "service_url option \<Rightarrow> service_url option \<Rightarrow> bool" where
  "sameWorkflowServiceOrigin left right =
    (case (left, right) of
       (Some l, Some r) \<Rightarrow> equal_fold (ul_Scheme l) (ul_Scheme r) \<and> equal_fold (ul_Hostname l) (ul_Hostname r) \<and>
         effective_port l = effective_port r
     | _ \<Rightarrow> False)"

datatype redirect_answer = Follow | UseLastResponse | RedirectError service_failure | TooManyRedirects

definition check_redirect ::
  "service_env \<Rightarrow> network_policy option \<Rightarrow> service_url \<Rightarrow> service_url list \<Rightarrow> redirect_answer" where
  "check_redirect env network next via =
    (if length via \<ge> 5 then TooManyRedirects
     else if length via > 0 \<and> \<not> sameWorkflowServiceOrigin (Some (via ! 0)) (Some next) then UseLastResponse
     else (case validateWorkflowServiceURL env (ul_String next) network of
       Inl e \<Rightarrow> RedirectError e | Inr _ \<Rightarrow> Follow))"

section \<open>Rendering\<close>

definition varRefValue :: "service_env \<Rightarrow> json \<Rightarrow> string" where
  "varRefValue env v =
    (case v of JNull \<Rightarrow> [] | JStr s \<Rightarrow> s | JBool _ \<Rightarrow> sprint (sv_float env) v | JNum _ \<Rightarrow> sprint (sv_float env) v
     | JNumber _ \<Rightarrow> sprint (sv_float env) v | _ \<Rightarrow> sv_encode env v)"

text \<open>\<open>vars\<close> are the \<open>TemplateVars\<close> of a session run; a workflow run has none.\<close>

definition resolveWorkflowServiceVarRef :: "outputs \<Rightarrow> workflow_state \<Rightarrow> string \<Rightarrow> json option" where
  "resolveWorkflowServiceVarRef vars st expression =
    (let parts = split_char (CHR ''.'') (trim_space expression);
         template = (if length parts \<ge> 2 then
             (case map_of vars (parts ! 0) of
                Some (JObj m) \<Rightarrow> workflowOutputValue m (join ''.'' (drop 1 parts)) | _ \<Rightarrow> None)
           else None) in
     if length parts = 2 \<and> parts ! 0 = ''inputs'' then map_of (su_RunInputs (ws_Summary st)) (parts ! 1)
     else if length parts \<ge> 4 \<and> parts ! 0 = ''nodes'' \<and> parts ! 2 = ''outputs'' then
       (case find (\<lambda>n. wn_ID n = parts ! 1) (ws_Nodes st) of
          Some n \<Rightarrow> workflowOutputValue (wn_Outputs n) (join ''.'' (drop 3 parts))
        | None \<Rightarrow> template)
     else template)"

definition exact_ref :: "string \<Rightarrow> string option" where
  "exact_ref text = (case match_ref text of Some (e, []) \<Rightarrow> Some e | _ \<Rightarrow> None)"

function render_refs :: "(string \<Rightarrow> string option) \<Rightarrow> string \<Rightarrow> string + string" where
  "render_refs f s =
    (case s of
       [] \<Rightarrow> Inr []
     | c # t \<Rightarrow>
         (case match_ref s of
            Some (e, r) \<Rightarrow> (case f e of None \<Rightarrow> Inl e | Some v \<Rightarrow> map_sum id ((@) v) (render_refs f r))
          | None \<Rightarrow> map_sum id ((#) c) (render_refs f t)))"
  by pat_completeness auto
termination by (relation "measure (\<lambda>(_, s). length s)") (auto dest: match_ref_shorter)

declare render_refs.simps [simp del]

definition unresolved :: "string \<Rightarrow> service_failure" where
  "unresolved expr = plain_failure (''service variable reference is unresolved: '' @ expr)"

definition renderWorkflowServiceString ::
  "service_env \<Rightarrow> outputs \<Rightarrow> workflow_state \<Rightarrow> string \<Rightarrow> service_failure + string" where
  "renderWorkflowServiceString env vars st text =
    (case exact_ref text of
       Some e \<Rightarrow> (case resolveWorkflowServiceVarRef vars st e of
         None \<Rightarrow> Inl (unresolved e) | Some v \<Rightarrow> Inr (varRefValue env v))
     | None \<Rightarrow> map_sum unresolved id
         (render_refs (\<lambda>e. map_option (varRefValue env) (resolveWorkflowServiceVarRef vars st e)) text))"

fun each_map :: "('a \<Rightarrow> 'e + 'b) \<Rightarrow> 'a list \<Rightarrow> 'e + 'b list" where
  "each_map f [] = Inr []"
| "each_map f (x # xs) = (case f x of Inl e \<Rightarrow> Inl e | Inr y \<Rightarrow> map_sum id ((#) y) (each_map f xs))"

lemma each_map_cong [fundef_cong]:
  "xs = ys \<Longrightarrow> (\<And>x. x \<in> set ys \<Longrightarrow> f x = g x) \<Longrightarrow> each_map f xs = each_map g ys"
  by (induction ys arbitrary: xs) (auto split: sum.splits)

fun renderWorkflowServiceValue ::
  "service_env \<Rightarrow> outputs \<Rightarrow> workflow_state \<Rightarrow> json \<Rightarrow> service_failure + json" where
  "renderWorkflowServiceValue env vars st (JStr s) =
    (case exact_ref s of
       Some e \<Rightarrow> (case resolveWorkflowServiceVarRef vars st e of None \<Rightarrow> Inl (unresolved e) | Some v \<Rightarrow> Inr v)
     | None \<Rightarrow> map_sum id JStr (renderWorkflowServiceString env vars st s))"
| "renderWorkflowServiceValue env vars st (JArr vs) =
    map_sum id JArr (each_map (renderWorkflowServiceValue env vars st) vs)"
| "renderWorkflowServiceValue env vars st (JObj kvs) =
    map_sum id JObj (each_map (\<lambda>(k, v). map_sum id (Pair k) (renderWorkflowServiceValue env vars st v)) kvs)"
| "renderWorkflowServiceValue env vars st v = Inr v"


section \<open>The call\<close>

definition validateWorkflowServiceRuntimeSpec :: "service_env \<Rightarrow> workflow_service_spec \<Rightarrow> service_failure option" where
  "validateWorkflowServiceRuntimeSpec env spec =
    (let go = \<lparr>ge_parse_url = (\<lambda>t. map_option (\<lambda>u. \<lparr>pu_Scheme = ul_Scheme u, pu_Hostname = ul_Hostname u,
              pu_HasUser = ul_HasUser u\<rparr>) (sv_parse env t)), ge_range = (\<lambda>ks. ks)\<rparr>;
         flowSpec = \<lparr>s_Method = ws_Method spec, s_URL = ws_URL spec, s_Headers = ws_Headers spec,
              s_Body = ws_Body spec, s_Auth = ws_Auth spec\<rparr>
     in map_option (\<lambda>_. plain_failure ''service specification is invalid'')
          (validateServiceSpec go (Some flowSpec) ''service''))"

definition line_break :: "string \<Rightarrow> bool" where
  "line_break s \<longleftrightarrow> CHR 0x0D \<in> set s \<or> CHR 0x0A \<in> set s"

text \<open>\<open>http.Header\<close>: a name stands for all its spellings, here the one in lower case.\<close>

definition header_set :: "string \<Rightarrow> string \<Rightarrow> (string \<times> string) list \<Rightarrow> (string \<times> string) list" where
  "header_set name v h = put (to_lower name) v h"

definition header_get :: "string \<Rightarrow> (string \<times> string) list \<Rightarrow> string" where
  "header_get name h = (case map_of h (to_lower name) of None \<Rightarrow> [] | Some v \<Rightarrow> v)"

definition set_rendered_header ::
  "service_env \<Rightarrow> outputs \<Rightarrow> workflow_state \<Rightarrow> (string \<times> string) list \<Rightarrow> string \<times> string \<Rightarrow>
     service_failure + (string \<times> string) list" where
  "set_rendered_header env vars st h nv =
    (case renderWorkflowServiceString env vars st (snd nv) of
       Inl e \<Rightarrow> Inl e
     | Inr v \<Rightarrow> if line_break v then Inl (plain_failure ''service header value contains a line break'')
                else Inr (header_set (fst nv) v h))"

definition default_header :: "string \<Rightarrow> string \<Rightarrow> (string \<times> string) list \<Rightarrow> (string \<times> string) list" where
  "default_header name v h = (if header_get name h = [] then header_set name v h else h)"

definition applyWorkflowServiceAuth ::
  "service_env \<Rightarrow> service_auth_spec option \<Rightarrow> (string \<times> string) list \<Rightarrow> service_failure + (string \<times> string) list" where
  "applyWorkflowServiceAuth env auth h =
    (case auth of
       None \<Rightarrow> Inr h
     | Some a \<Rightarrow>
         let tokenEnv = trim_space (sa_TokenEnv a); secret = sv_getenv env tokenEnv; t = norm_word (sa_Type a) in
         if secret = [] then Inl (plain_failure (''service credential environment variable is not set: '' @ tokenEnv))
         else if line_break secret then Inl (plain_failure ''service credential contains an invalid line break'')
         else if t = ''bearer'' then Inr (header_set ''Authorization'' (''Bearer '' @ secret) h)
         else if t = ''api_key'' then Inr (header_set (sa_HeaderName a) secret h)
         else Inl (plain_failure ''service authentication type is invalid''))"

definition request_body ::
  "service_env \<Rightarrow> outputs \<Rightarrow> workflow_state \<Rightarrow> raw_message \<Rightarrow> service_failure + string option" where
  "request_body env vars st body =
    (case body of
       RawEmpty \<Rightarrow> Inr None
     | RawJSON j \<Rightarrow> map_sum id (\<lambda>v. Some (sv_encode env v)) (renderWorkflowServiceValue env vars st j)
     | _ \<Rightarrow> Inl (plain_failure ''service request body is invalid JSON''))"

text \<open>The request that is sent, with the policy it is sent under.\<close>

definition build_request ::
  "service_env \<Rightarrow> outputs \<Rightarrow> workflow_state \<Rightarrow> workflow_service_spec \<Rightarrow>
     service_failure + service_request \<times> service_network_policy" where
  "build_request env vars st spec =
    (case validateWorkflowServiceRuntimeSpec env spec of
       Some e \<Rightarrow> Inl e
     | None \<Rightarrow>
     (case renderWorkflowServiceString env vars st (ws_URL spec) of
       Inl e \<Rightarrow> Inl e
     | Inr rawURL \<Rightarrow>
     (case validateWorkflowServiceURL env rawURL (ws_Network spec) of
       Inl e \<Rightarrow> Inl e
     | Inr (u, policy) \<Rightarrow>
     (case request_body env vars st (ws_Body spec) of
       Inl e \<Rightarrow> Inl e
     | Inr body \<Rightarrow>
       let method = to_upper (trim_space (ws_Method spec)) in
       if \<not> sv_request_ok env method (ul_String u)
       then Inl (plain_failure ''service request URL or method is invalid'')
       else (case each_st (set_rendered_header env vars st) [] (ws_Headers spec) of
         Inl e \<Rightarrow> Inl e
       | Inr h1 \<Rightarrow>
         let h2 = (if body \<noteq> None then default_header ''Content-Type'' ''application/json'' h1 else h1);
             h3 = default_header ''Accept'' ''application/json'' h2
         in (case applyWorkflowServiceAuth env (ws_Auth spec) h3 of
               Inl e \<Rightarrow> Inl e
             | Inr h4 \<Rightarrow>
                 Inr (\<lparr>rq_Method = method, rq_URL = ul_String u, rq_Header = h4, rq_Body = body\<rparr>, policy)))))))"

definition status_failure :: "int \<Rightarrow> service_failure" where
  "status_failure code = failure
     (if code = 408 then ''provider_timeout'' else if code = 429 \<or> code \<ge> 500 then ''provider_error'' else [])
     (''service returned HTTP status '' @ itoa code)"

definition response_value :: "service_env \<Rightarrow> service_network_policy \<Rightarrow> string \<Rightarrow> service_failure + json" where
  "response_value env policy body =
    (let limit = fp_MaxResponseChars (sp_flowNetworkPolicy policy);
         maxBytes = (if limit \<le> 0 then 2 ^ 20 else limit) in
     if int (length body) > maxBytes then Inl (plain_failure ''service response exceeded the configured size limit'')
     else if blank body then Inr JNull
     else (case sv_decode env body of
       BadJSON \<Rightarrow> Inl (plain_failure ''service response was not valid JSON'')
     | TrailingData \<Rightarrow> Inl (plain_failure ''service response contained trailing data'')
     | Decoded v \<Rightarrow> Inr v))"

definition callWorkflowService ::
  "service_env \<Rightarrow> outputs \<Rightarrow> workflow_state \<Rightarrow> workflow_service_spec \<Rightarrow> service_failure + outputs" where
  "callWorkflowService env vars st spec =
    (case build_request env vars st spec of
       Inl e \<Rightarrow> Inl e
     | Inr (req, policy) \<Rightarrow>
         (case sv_do env req of
            ContextDeadline \<Rightarrow> Inl (failure ''provider_timeout'' ''service request timed out'')
          | ContextCanceled \<Rightarrow> Inl (plain_failure ''service request canceled'')
          | TransportFailure e \<Rightarrow> Inl e
          | NetTimeout \<Rightarrow> Inl (failure ''provider_timeout'' ''service request timed out'')
          | HostNotFound \<Rightarrow> Inl (plain_failure ''service host could not be resolved'')
          | TransportError \<Rightarrow> Inl (failure ''tool_transient'' ''service request failed'')
          | Response code body \<Rightarrow>
              if code < 200 \<or> code \<ge> 300 then Inl (status_failure code)
              else (case body of
                None \<Rightarrow> Inl (failure ''tool_transient'' ''service response could not be read'')
              | Some text \<Rightarrow>
                  map_sum id (\<lambda>v. [(''status_code'', JNum (of_int code)), (''body'', v)]) (response_value env policy text))))"

section \<open>What a request can reach\<close>

text \<open>What the flow allows: the host is not blocked, and listed when the policy is a list.\<close>

definition host_allowed :: "flow_network_policy \<Rightarrow> string \<Rightarrow> bool" where
  "host_allowed pol host \<longleftrightarrow> \<not> matchDomainPattern (to_lower (trim_space host)) (fp_BlockedDomains pol) \<and>
     (fp_Policy pol = ''allowlist'' \<longrightarrow> matchDomainPattern (to_lower (trim_space host)) (fp_AllowedDomains pol))"

text \<open>A private address is reached only when the flow has an allow list and opted in.\<close>

definition address_allowed :: "network_policy option \<Rightarrow> ip \<Rightarrow> bool" where
  "address_allowed np a \<longleftrightarrow> (isPrivateOrLocalIP a \<longrightarrow>
     (\<exists>p. np = Some p \<and> np_AllowPrivateHosts p \<and> norm_word (np_Policy p) = ''allowlist''))"

lemma workflowServiceAllowedIPs_Inr:
  assumes "workflowServiceAllowedIPs env host (serviceNetworkPolicyFromSpec np) = Inr ips"
  shows "ips \<noteq> []" "host_allowed (flowNetworkPolicyFromSpec np) host" "Ball (set ips) (address_allowed np)"
    "sv_parse_ip env (trim_space host) = Some (hd ips) \<and> length ips = 1 \<or> sv_lookup env (trim_space host) = Some ips"
proof -
  let ?p = "serviceNetworkPolicyFromSpec np"
  have r: "(case sv_parse_ip env (trim_space host) of Some a \<Rightarrow> Some [a] | None \<Rightarrow> sv_lookup env (trim_space host)) = Some ips"
    "ips \<noteq> []" "\<forall>a \<in> set ips. sp_AllowPrivateHosts ?p \<or> \<not> isPrivateOrLocalIP a"
    and h: "host_allowed (sp_flowNetworkPolicy ?p) host"
    and pr: "sp_AllowPrivateHosts ?p \<longrightarrow> fp_Policy (sp_flowNetworkPolicy ?p) = ''allowlist''"
    using assms
    by (auto simp: workflowServiceAllowedIPs_def host_allowed_def Let_def list_ex_iff split: if_splits option.splits)
  show "ips \<noteq> []" by (rule r(2))
  show "host_allowed (flowNetworkPolicyFromSpec np) host" using h by (simp add: serviceNetworkPolicyFromSpec_def)
  show "Ball (set ips) (address_allowed np)"
    using r(3) pr
    by (auto simp: address_allowed_def serviceNetworkPolicyFromSpec_def flowNetworkPolicyFromSpec_def split: option.splits if_splits)
  show "sv_parse_ip env (trim_space host) = Some (hd ips) \<and> length ips = 1 \<or> sv_lookup env (trim_space host) = Some ips"
    using r(1) by (auto split: option.splits)
qed

lemma dial_first_tried:
  "dial_first dial port lastErr ips = (tried, r) \<Longrightarrow>
     set tried \<subseteq> set ips \<and> (\<forall>conn. r = Inr conn \<longrightarrow> tried \<noteq> [] \<and> dial (last tried) port = Inr conn)"
proof (induction ips arbitrary: lastErr tried)
  case (Cons a ips)
  show ?case
  proof (cases "dial a port")
    case (Inl e)
    obtain t r1 where d: "dial_first dial port (Some e) ips = (t, r1)" by fastforce
    with Inl Cons.prems have "tried = a # t" "r = r1" by simp_all
    with Cons.IH [of "Some e" t] d show ?thesis by auto
  qed (use Cons.prems in auto)
qed auto

text \<open>
  C8. The transport of a service call opens connections only to addresses that the name resolved
  to at that moment and that are public, unless the flow lists its domains and opted in to
  private hosts; and only for a host that is not blocked and, under a list, listed. Checking the
  addresses it then dials leaves no gap for a name that resolves differently the second time.
\<close>

theorem service_dial_guarded:
  assumes "workflowServiceDialContext env dial (serviceNetworkPolicyFromSpec np) (Some (host, port)) = (tried, r)"
    and "a \<in> set tried"
  shows "address_allowed np a \<and> host_allowed (flowNetworkPolicyFromSpec np) host \<and>
    (sv_parse_ip env (trim_space host) = Some a \<or>
     (\<exists>ips. sv_lookup env (trim_space host) = Some ips \<and> a \<in> set ips)) \<and>
    (\<forall>conn. r = Inr conn \<longrightarrow> dial (last tried) port = Inr conn)"
proof -
  obtain ips where ips: "workflowServiceAllowedIPs env host (serviceNetworkPolicyFromSpec np) = Inr ips"
    using assms by (cases "workflowServiceAllowedIPs env host (serviceNetworkPolicyFromSpec np)")
      (auto simp: workflowServiceDialContext_def)
  obtain r1 where d: "dial_first dial port None ips = (tried, r1)" and r1: "\<forall>conn. r = Inr conn \<longrightarrow> r1 = Inr conn"
    using assms(1) ips by (auto simp: workflowServiceDialContext_def split: prod.splits sum.splits option.splits)
  have "a \<in> set ips" using dial_first_tried [OF d] assms(2) by blast
  moreover from this have "sv_parse_ip env (trim_space host) = Some a \<or>
     (\<exists>ips. sv_lookup env (trim_space host) = Some ips \<and> a \<in> set ips)"
    using workflowServiceAllowedIPs_Inr(4) [OF ips] by (cases ips) auto
  ultimately show ?thesis
    using workflowServiceAllowedIPs_Inr(2,3) [OF ips] dial_first_tried [OF d] r1 by blast
qed

lemma put_values: "(k', v') \<in> set (put k v m) \<Longrightarrow> v' = v \<or> (k', v') \<in> set m"
  by (auto simp: put_def split: if_splits)

definition clean_headers :: "(string \<times> string) list \<Rightarrow> bool" where
  "clean_headers h \<longleftrightarrow> (\<forall>(k, v) \<in> set h. \<not> line_break v)"

lemma clean_header_set: "clean_headers h \<Longrightarrow> \<not> line_break v \<Longrightarrow> clean_headers (header_set k v h)"
  using put_values by (fastforce simp: clean_headers_def header_set_def)

lemma clean_default_header: "clean_headers h \<Longrightarrow> \<not> line_break v \<Longrightarrow> clean_headers (default_header k v h)"
  by (simp add: default_header_def clean_header_set)

lemma clean_rendered_headers:
  assumes "each_st (set_rendered_header env vars st) [] hs = Inr h"
  shows "clean_headers h"
  by (rule each_st_invariant [OF assms, where P = clean_headers])
     (auto simp: set_rendered_header_def clean_headers_def [of "[]"] split: sum.splits if_splits intro: clean_header_set)

lemma clean_auth:
  assumes "applyWorkflowServiceAuth env auth h = Inr h'" "clean_headers h"
  shows "clean_headers h'"
  using assms
  by (auto simp: applyWorkflowServiceAuth_def Let_def split: option.splits if_splits intro!: clean_header_set)
     (auto simp: line_break_def)


section \<open>Redirects stay on the origin\<close>

text \<open>The requests of one call: the first and every redirect that was followed.\<close>

definition followed :: "service_env \<Rightarrow> network_policy option \<Rightarrow> service_url list \<Rightarrow> bool" where
  "followed env np us \<longleftrightarrow> (\<forall>i < length us. 0 < i \<longrightarrow> check_redirect env np (us ! i) (take i us) = Follow)"

lemma same_origin_iff: "sameWorkflowServiceOrigin (Some l) (Some r) \<longleftrightarrow>
    fold_case (ul_Scheme l) = fold_case (ul_Scheme r) \<and> fold_case (ul_Hostname l) = fold_case (ul_Hostname r) \<and>
    effective_port l = effective_port r"
  by (auto simp: sameWorkflowServiceOrigin_def equal_fold_def)

text \<open>
  C10. A call follows at most four redirects, every one of them to the scheme, host and port of
  the first request (so any two requests of the call share them) and to a URL the flow's policy
  allows: the credential of the node never leaves the origin it was configured for.
\<close>

theorem redirects_stay_on_origin:
  assumes "followed env np us" "i < length us" "j < length us" "0 < i"
  shows "length us \<le> 5 \<and> sameWorkflowServiceOrigin (Some (us ! i)) (Some (us ! j)) \<and>
    (\<exists>u policy. validateWorkflowServiceURL env (ul_String (us ! i)) np = Inr (u, policy) \<and>
       host_allowed (flowNetworkPolicyFromSpec np) (ul_Hostname u))"
proof -
  have step: "k < 5 \<and> sameWorkflowServiceOrigin (Some (us ! 0)) (Some (us ! k)) \<and>
      \<not> isl (validateWorkflowServiceURL env (ul_String (us ! k)) np)" if "k < length us" "0 < k" for k
  proof -
    have "check_redirect env np (us ! k) (take k us) = Follow" using assms(1) that by (simp add: followed_def)
    then show ?thesis using that
      by (cases "validateWorkflowServiceURL env (ul_String (us ! k)) np") (auto simp: check_redirect_def split: if_splits)
  qed
  have origin: "sameWorkflowServiceOrigin (Some (us ! 0)) (Some (us ! k))" if "k < length us" for k
    using step [OF that] same_origin_iff by (cases k) simp_all
  have "length us \<le> 5"
  proof -
    have "length us - 1 < 5" using step [of "length us - 1"] assms(2,4) by linarith
    then show ?thesis by linarith
  qed
  moreover have "sameWorkflowServiceOrigin (Some (us ! i)) (Some (us ! j))"
    using origin [OF assms(2)] origin [OF assms(3)] by (simp add: same_origin_iff)
  moreover obtain u policy where u: "validateWorkflowServiceURL env (ul_String (us ! i)) np = Inr (u, policy)"
    using step [OF assms(2,4)] by (cases "validateWorkflowServiceURL env (ul_String (us ! i)) np") auto
  moreover from u have "host_allowed (flowNetworkPolicyFromSpec np) (ul_Hostname u)"
    using workflowServiceAllowedIPs_Inr(2) [of env "ul_Hostname u" np]
    by (auto simp: validateWorkflowServiceURL_def Let_def split: option.splits if_splits sum.splits)
  ultimately show ?thesis by blast
qed

section \<open>An example call\<close>

text \<open>A service at a public address and one at a private address.\<close>

definition demo_url :: service_url where
  "demo_url = \<lparr>ul_Scheme = ''https'', ul_Hostname = ''api.example.com'', ul_Port = [], ul_HasUser = False,
     ul_String = ''https://api.example.com/v1''\<rparr>"

definition demo_network :: service_env where
  "demo_network = \<lparr>sv_parse = (\<lambda>_. Some demo_url), sv_parse_ip = (\<lambda>_. None),
     sv_lookup = (\<lambda>host. Some [[93, 184, 215, 14]]), sv_getenv = (\<lambda>_. ''token''), sv_float = (\<lambda>_. ''0''),
     sv_encode = (\<lambda>_. ''{}''), sv_decode = (\<lambda>_. Decoded (JObj [(''score'', JNumber 7)])), sv_request_ok = (\<lambda>_ _. True),
     sv_do = (\<lambda>_. Response 200 (Some ''{}''))\<rparr>"

definition demo_call :: workflow_service_spec where
  "demo_call = \<lparr>ws_Method = ''get'', ws_URL = ''u'', ws_Headers = [], ws_Body = RawEmpty, ws_Auth = None, ws_Network = None\<rparr>"

definition no_state :: workflow_state where
  "no_state = \<lparr>ws_Summary = new_summary [] [] 0, ws_Nodes = [], ws_Edges = []\<rparr>"

lemma demo_allowed:
  "workflowServiceAllowedIPs demo_network ''api.example.com'' (serviceNetworkPolicyFromSpec None) = Inr [[93, 184, 215, 14]]"
  by code_simp

theorem service_dial_guarded_witness:
  "workflowServiceDialContext demo_network (\<lambda>a port. Inr a :: unit + ip) (serviceNetworkPolicyFromSpec None)
     (Some (''api.example.com'', ''443'')) = ([[93, 184, 215, 14]], Inr [93, 184, 215, 14]) \<and>
   address_allowed None [93, 184, 215, 14]"
proof -
  have d: "workflowServiceDialContext demo_network (\<lambda>a port. Inr a :: unit + ip) (serviceNetworkPolicyFromSpec None)
     (Some (''api.example.com'', ''443'')) = ([[93, 184, 215, 14]], Inr [93, 184, 215, 14])"
    by (simp add: workflowServiceDialContext_def demo_allowed)
  with service_dial_guarded [OF d] show ?thesis by simp
qed

lemma demo_request: "build_request demo_network [] no_state demo_call =
   Inr (\<lparr>rq_Method = ''GET'', rq_URL = ''https://api.example.com/v1'', rq_Header = [(''accept'', ''application/json'')],
         rq_Body = None\<rparr>, serviceNetworkPolicyFromSpec None)"
proof -
  have "validateWorkflowServiceRuntimeSpec demo_network demo_call = None" by code_simp
  moreover have "renderWorkflowServiceString demo_network [] no_state (ws_URL demo_call) = Inr ''u''" by code_simp
  moreover have "validateWorkflowServiceURL demo_network ''u'' None = Inr (demo_url, serviceNetworkPolicyFromSpec None)"
    by code_simp
  moreover have "to_upper (trim_space (ws_Method demo_call)) = ''GET''" by code_simp
  moreover have "default_header ''Accept'' ''application/json'' [] = [(''accept'', ''application/json'')]" by code_simp
  ultimately show ?thesis
    by (simp add: build_request_def demo_call_def demo_network_def demo_url_def request_body_def applyWorkflowServiceAuth_def)
qed


theorem redirects_stay_on_origin_witness:
  "followed demo_network None [demo_url, demo_url] \<and> sameWorkflowServiceOrigin (Some demo_url) (Some demo_url)"
proof -
  have "check_redirect demo_network None demo_url [demo_url] = Follow" by code_simp
  then have f: "followed demo_network None [demo_url, demo_url]" by (auto simp: followed_def less_Suc_eq)
  with redirects_stay_on_origin [OF f, of 1 0] show ?thesis by simp
qed

end
