(* ===== verification/Workflow_Faults.thy ===== *)
theory Workflow_Faults
  imports Workflow_Correct Workflow_Service
begin

text \<open>
  How the engine behaves when things go wrong or are repeated: appends that are sent twice,
  retries and their delays, decisions that cannot be made, verdicts; and where the code does
  something else than its comments say.
\<close>

section \<open>Appending twice\<close>

abbreviation append_keys :: "workflow_state \<Rightarrow> (string \<times> string list) list" where
  "append_keys st \<equiv> su_AppendKeys (ws_Summary st)"

lemma fire_edge_keys: "fire_edge now k node st = Inr st' \<Longrightarrow> append_keys st' = append_keys st"
  by (auto simp: fire_edge_def appendWorkflowNodesFromEdge_def markWorkflowNodeError_def Let_def
      split: if_splits sum.splits option.splits prod.splits)

lemma process_edge_keys:
  assumes "process_edge env now node s k = Inr s'"
  shows "append_keys (snd s') = append_keys (snd s)"
proof -
  obtain c st where s: "s = (c, st)" by fastforce
  let ?key = "workflowProcessedEdgeKey (we_ID (ws_Edges st ! k)) (wn_ID node)"
  define st1 where "st1 = set_summary (\<lambda>s. s\<lparr>su_ProcessedEdges := su_ProcessedEdges s @ [?key]\<rparr>) st"
  have "snd s' = st \<or> snd s' = st1 \<or> fire_edge now k node st1 = Inr (snd s')"
    using assms s by (cases "fire_edge now k node st1") (auto simp: process_edge_def Let_def st1_def [symmetric] split: if_splits)
  moreover have "append_keys st1 = append_keys st" by (simp add: st1_def)
  ultimately show ?thesis using fire_edge_keys [of now k node st1 "snd s'"] s by auto
qed

lemma processWorkflowEdges_keys:
  assumes "processWorkflowEdges env now st = Inr (c, st')"
  shows "append_keys st' = append_keys st"
proof (cases "ws_Edges st = []")
  case False
  obtain c1 st1 where run: "each_st (process_node env now) (False, st) (ws_Nodes st) = Inr (c1, st1)"
    using assms False by (auto simp: processWorkflowEdges_def split: sum.splits)
  let ?P = "\<lambda>s. append_keys (snd s) = append_keys st"
  have node: "?P s'" if p: "?P s" and n: "process_node env now s n = Inr s'" for s s' n
  proof (cases "workflowNodeTerminal (wn_Status n)")
    case True
    then have e: "each_st (process_edge env now n) s [0..<length (ws_Edges (snd s))] = Inr s'"
      using n by (simp add: process_node_def)
    show ?thesis
      by (rule each_st_invariant [where P = ?P, OF e p]) (drule process_edge_keys, simp)
  qed (use p n in \<open>simp add: process_node_def\<close>)
  have "?P (c1, st1)"
    by (rule each_st_invariant [where P = ?P, OF run]) (simp, erule (1) node)
  then show ?thesis
    using assms False run by (auto simp: processWorkflowEdges_def Let_def split: if_splits)
qed (use assms in \<open>simp add: processWorkflowEdges_def\<close>)

lemma refresh_nodes_keys: "append_keys (snd (refreshWorkflowNodes env now st)) = append_keys st"
proof -
  have "append_keys (snd (foldl (refresh_at env now) s ks)) = append_keys (snd s)" for s ks
    by (induction ks arbitrary: s) (auto simp: refresh_at_def split: option.splits prod.splits)
  from this [of "(False, st)" "[0..<length (ws_Nodes st)]"] show ?thesis
    by (cases "foldl (refresh_at env now) (False, st) [0..<length (ws_Nodes st)]") (simp add: refreshWorkflowNodes_def)
qed

lemma sync_keys: "sync env now st = Inr (c, st') \<Longrightarrow> append_keys st' = append_keys st"
proof -
  assume s: "sync env now st = Inr (c, st')"
  obtain c1 st1 where 1: "refreshWorkflowNodes env now st = (c1, st1)" by fastforce
  obtain c2 st2 where 2: "processWorkflowEdges env now st1 = Inr (c2, st2)"
    using s 1 by (auto simp: sync_def split: sum.splits)
  have 3: "append_keys (snd (expireWorkflowRun env now x)) = append_keys x" for x
    by (simp add: expireWorkflowRun_def expire_summary_def Let_def)
  have 4: "append_keys (snd (finalizeWorkflowRunOutputs env x)) = append_keys x" for x
    by (simp add: finalizeWorkflowRunOutputs_def fail_run_def Let_def split: sum.splits option.splits)
  have "st' = snd (finalizeWorkflowRunOutputs env (snd (expireWorkflowRun env now st2)))"
    using s 1 2 by (auto simp: sync_def Let_def split: prod.splits)
  then have "append_keys st' = append_keys st2" by (simp add: 3 4)
  with processWorkflowEdges_keys [OF 2] refresh_nodes_keys [of env now st] 1 show ?thesis by simp
qed

lemma workflowStateUnlocked_keys:
  assumes "workflowStateUnlocked env now stored = (stored', Inr st)"
  shows "append_keys stored' = append_keys stored" "append_keys st = append_keys stored"
proof -
  obtain c st1 where s: "sync env now (load stored) = Inr (c, st1)"
    using assms by (cases "sync env now (load stored)") (auto simp: workflowStateUnlocked_def)
  have r: "(if c then save env stored st1 st1 else (stored, Inr st1)) = (stored', Inr st)"
    using assms s by (simp add: workflowStateUnlocked_def)
  have "st = st1" "stored' = stored \<or> stored' = st1"
    using r by (cases c; cases "en_save env st1"; simp add: save_def)+
  then show "append_keys st = append_keys stored" "append_keys stored' = append_keys stored"
    using sync_keys [OF s] by (auto simp: load_def)
qed

lemma append_known:
  assumes "workflowStateUnlocked env now stored = (stored1, Inr st)" "trim_space key \<noteq> []"
    "append_ids_of stored (trim_space key) \<noteq> []"
  shows "appendWorkflowNodes env now inputs edgeInputs key stored =
    (stored1, Inr ((workflowViewFromState st)\<lparr>vw_Appended := append_ids_of stored (trim_space key)\<rparr>))"
  using assms workflowStateUnlocked_keys(2) [OF assms(1)]
  by (simp add: appendWorkflowNodes_def refreshed_def append_ids_of_def Let_def)

lemma append_records:
  assumes "appendWorkflowNodes env now inputs edgeInputs key stored = (stored', Inr view)"
    "trim_space key \<noteq> []" "inputs \<noteq> []"
  shows "append_ids_of stored' (trim_space key) = vw_Appended view" "vw_Appended view \<noteq> []"
proof -
  let ?key = "trim_space key"
  obtain stored1 st where u: "workflowStateUnlocked env now stored = (stored1, Inr st)"
    using assms(1) by (auto simp: appendWorkflowNodes_def refreshed_def split: prod.splits sum.splits)
  have "append_ids_of stored' ?key = vw_Appended view \<and> vw_Appended view \<noteq> []"
  proof (cases "append_ids_of stored ?key = []")
    case False
    with append_known [OF u assms(2), of inputs edgeInputs] assms(1) workflowStateUnlocked_keys(1) [OF u]
    show ?thesis by (auto simp: append_ids_of_def)
  next
    case True
    then have none: "append_ids_of st ?key = []" using workflowStateUnlocked_keys(2) [OF u] by (simp add: append_ids_of_def)
    obtain new newEdges st2 c st3 where
      n: "workflowNodesFromInputs inputs (remdups (map wn_ID (ws_Nodes st))) now = Inr new"
      and st2: "st2 = set_summary (\<lambda>s. s\<lparr>su_AppendKeys := put ?key (workflowNodeIDs new) (su_AppendKeys s)\<rparr>)
        (touch now (st\<lparr>ws_Nodes := ws_Nodes st @ new, ws_Edges := ws_Edges st @ newEdges\<rparr>))"
      and p: "processWorkflowEdges env now (refreshWorkflowStatus st2) = Inr (c, st3)"
      and s: "save env stored1 st3 ((workflowViewFromState st3)\<lparr>vw_Appended := workflowNodeIDs new\<rparr>) = (stored', Inr view)"
      using assms u none unfolding appendWorkflowNodes_def refreshed_def append_ids_of_def Let_def
      by (auto split: if_splits sum.splits option.splits)
    have "append_keys stored' = append_keys st2" "view = (workflowViewFromState st3)\<lparr>vw_Appended := workflowNodeIDs new\<rparr>"
      using s processWorkflowEdges_keys [OF p] by (auto simp: save_def split: option.splits)
    moreover have "workflowNodeIDs new \<noteq> []"
      using workflowNodesFromInputs_Inr(2) [OF n] assms(3) by (auto simp: workflowNodeIDs_def)
    ultimately show ?thesis by (simp add: append_ids_of_def st2 touch_def put_map_of)
  qed
  then show "append_ids_of stored' ?key = vw_Appended view" "vw_Appended view \<noteq> []" by simp_all
qed

text \<open>
  C12. An append with an idempotency key happens once. After an append of nodes under a key
  succeeded, a later append under the same key, whatever it asks for and whatever happened in
  between, reports the same node ids and changes nothing beyond the refresh every operation
  begins with.
\<close>

theorem append_idempotent:
  assumes "run_of inputs edges st" "Ball (set new) typed_input" "Ball (set newEdges) typed_edge_input"
    and "appendWorkflowNodes env now new newEdges key st = (st1, Inr view)" "trim_space key \<noteq> []" "new \<noteq> []"
    and "reachable st1 st2"
    and "appendWorkflowNodes env' now' new' newEdges' key st2 = (st3, Inr view')"
  shows "vw_Appended view' = vw_Appended view \<and> st3 = fst (workflowStateUnlocked env' now' st2)"
proof -
  let ?key = "trim_space key"
  have ids: "append_ids_of st1 ?key = vw_Appended view" "vw_Appended view \<noteq> []"
    by (rule append_records [OF assms(4-6)])+
  have "engine_inv st1"
    using run_of_engine_inv [OF run_of_step [OF assms(1) run_step.append [OF assms(4,2,3)]]] .
  then have "grows st1 st2" using reachable_keeps [OF assms(7)] by (simp add: keeps_def)
  then have k2: "append_ids_of st2 ?key = vw_Appended view" using ids by (simp add: grows_def)
  obtain stored1 s where u: "workflowStateUnlocked env' now' st2 = (stored1, Inr s)"
    using assms(8) by (auto simp: appendWorkflowNodes_def refreshed_def split: prod.splits sum.splits)
  from append_known [OF u assms(5), of new' newEdges'] k2 ids(2) assms(8) u show ?thesis by auto
qed

text \<open>A run in which nothing is running and nothing can fire is refreshed to itself.\<close>

definition quiet :: "workflow_state \<Rightarrow> bool" where
  "quiet st \<longleftrightarrow> ws_Edges st = [] \<and> list_all (\<lambda>n. wn_Status n \<noteq> ''running'') (ws_Nodes st) \<and>
     su_RunTimeoutAt (ws_Summary st) = 0 \<and> su_RunOutputSpec (ws_Summary st) = []"

lemma quiet_loaded:
  assumes "quiet st"
  shows "workflowStateUnlocked env now st = (st, Inr (load st))"
proof -
  have "wn_Status (ws_Nodes (load st) ! k) \<noteq> ''running''" if "k < length (ws_Nodes (load st))" for k
    using assms that by (auto simp: quiet_def load_def load_node_def list_all_length Let_def)
  then have f: "foldl (refresh_at env now) (False, load st) ks = (False, load st)"
    if "\<forall>k \<in> set ks. k < length (ws_Nodes (load st))" for ks
    using that by (induction ks) (auto simp: refresh_at_def refresh_node_def)
  have "refreshWorkflowNodes env now (load st) = (False, load st)"
    by (simp add: refreshWorkflowNodes_def f)
  with assms show ?thesis
    by (simp add: workflowStateUnlocked_def sync_def quiet_def load_def processWorkflowEdges_def expireWorkflowRun_def
        finalizeWorkflowRunOutputs_def)
qed

definition more_inputs :: "workflow_node_input list" where
  "more_inputs = [node_template\<lparr>ni_ID := ''b'', ni_DependsOn := [''a'']\<rparr>]"

definition more_nodes :: "workflow_node list" where
  "more_nodes = projr (workflowNodesFromInputs more_inputs [''a''] 2)"

definition more_state :: workflow_state where
  "more_state = refreshWorkflowStatus (set_summary (\<lambda>s. s\<lparr>su_AppendKeys := [(''k'', [''b''])]\<rparr>)
     (touch 2 ((load solo_state)\<lparr>ws_Nodes := ws_Nodes (load solo_state) @ more_nodes, ws_Edges := []\<rparr>)))"

lemma more_appended: "appendWorkflowNodes idle_env 2 more_inputs [] '' k '' solo_state =
   (more_state, Inr ((workflowViewFromState more_state)\<lparr>vw_Appended := [''b'']\<rparr>))"
proof -
  have q: "workflowStateUnlocked idle_env 2 solo_state = (solo_state, Inr (load solo_state))"
    by (rule quiet_loaded) code_simp
  have k: "trim_space '' k '' = ''k''" by code_simp
  have n: "workflowNodesFromInputs more_inputs [''a''] 2 = Inr more_nodes"
  proof -
    have "\<not> isl (workflowNodesFromInputs more_inputs [''a''] 2)" by code_simp
    then show ?thesis by (cases "workflowNodesFromInputs more_inputs [''a''] 2") (simp_all add: more_nodes_def)
  qed
  have v: "validateWorkflowDeps (ws_Nodes (load solo_state) @ more_nodes) = None" by code_simp
  have f: "map wn_ID (ws_Nodes (load solo_state)) = [''a'']" "append_keys (load solo_state) = []"
    "length (ws_Nodes (load solo_state)) = 1" "ws_Edges (load solo_state) = []" "workflowNodeIDs more_nodes = [''b'']"
    "length more_inputs = 1" by code_simp+
  have e: "en_save idle_env s = None" for s by (simp add: idle_env_def)
  have s: "set_summary (\<lambda>s. s\<lparr>su_AppendKeys := put ''k'' [''b''] (su_AppendKeys s)\<rparr>) x =
      set_summary (\<lambda>s. s\<lparr>su_AppendKeys := [(''k'', [''b''])]\<rparr>) x" if "append_keys x = []" for x
    using that by (simp add: set_summary_def put_def)
  show ?thesis
    unfolding appendWorkflowNodes_def refreshed_def q k Let_def
    by (simp add: f n v e s touch_def workflowEdgesFromInputs_def validateWorkflowEdges_def processWorkflowEdges_def
        save_def more_state_def)
qed

theorem append_idempotent_witness:
  "vw_Appended (projr (snd (appendWorkflowNodes idle_env 3 [] [] ''k'' more_state))) = [''b''] \<and>
   fst (appendWorkflowNodes idle_env 3 [] [] ''k'' more_state) = more_state"
proof -
  have "quiet more_state" by code_simp
  then have u: "workflowStateUnlocked idle_env 3 more_state = (more_state, Inr (load more_state))" by (rule quiet_loaded)
  have k: "trim_space '' k '' = ''k''" "trim_space '' k '' \<noteq> []" by code_simp+
  have kk: "appendWorkflowNodes idle_env 3 [] [] ''k'' more_state = appendWorkflowNodes idle_env 3 [] [] '' k '' more_state"
  proof -
    have "trim_space ''k'' = ''k''" by code_simp
    then show ?thesis by (simp add: appendWorkflowNodes_def k)
  qed
  have "append_ids_of more_state ''k'' = [''b'']" by code_simp
  then have a: "appendWorkflowNodes idle_env 3 [] [] '' k '' more_state =
      (more_state, Inr ((workflowViewFromState (load more_state))\<lparr>vw_Appended := [''b'']\<rparr>))"
    using append_known [OF u, of "'' k ''"] k by simp
  have t: "Ball (set more_inputs) typed_input" "Ball (set []) typed_edge_input"
    by (simp_all add: more_inputs_def node_template_def typed_input_def)
  have "more_inputs \<noteq> []" by (simp add: more_inputs_def)
  from append_idempotent [OF solo_run t more_appended k(2) this reachable.start a] a u kk show ?thesis by simp
qed

section \<open>Retries\<close>

text \<open>
  C15. A retry policy as the engine stores it gives a bounded exponential backoff: when a node is
  retried after its \<open>a\<close>th attempt the policy allows another attempt, and the delay is
  \<open>initial * coefficient ^ (a - 1)\<close> milliseconds, cut at the maximum, in nanoseconds. It is
  never negative and never beyond the maximum. The intervals must fit a 64-bit number of
  nanoseconds.
\<close>

theorem retry_delay_bounds:
  assumes "normalizeWorkflowRetryPolicy policy = Some p" "shouldWorkflowRetry (Some p) a kind = (True, d)"
    "wr_InitialIntervalMS p \<le> 9223372036854" "wr_MaxIntervalMS p \<le> 9223372036854" "1 \<le> a"
  shows "a < wr_MaxAttempts p \<and> 0 \<le> d \<and> d \<le> wr_MaxIntervalMS p * 1000000 \<and>
    d = \<lfloor>min (of_int (wr_InitialIntervalMS p * 1000000) * wr_BackoffCoefficient p ^ nat (a - 1))
            (of_int (wr_MaxIntervalMS p * 1000000) :: rat)\<rfloor>"
proof -
  have p: "0 < wr_InitialIntervalMS p" "0 < wr_MaxIntervalMS p" "0 < wr_BackoffCoefficient p"
    using assms(1) by (auto simp: normalizeWorkflowRetryPolicy_def Let_def)
  have w: "wrap64 (wr_InitialIntervalMS p * 1000000) = wr_InitialIntervalMS p * 1000000"
    "wrap64 (wr_MaxIntervalMS p * 1000000) = wr_MaxIntervalMS p * 1000000"
    using p assms(3,4) by (simp_all add: wrap64_id)
  have r: "a < wr_MaxAttempts p" "d = workflowRetryDelay (Some p) (a - 1) None"
    using assms(2) by (auto simp: shouldWorkflowRetry_def split: if_splits)
  let ?x = "of_int (wr_InitialIntervalMS p * 1000000) * wr_BackoffCoefficient p ^ nat (a - 1) :: rat"
  let ?top = "of_int (wr_MaxIntervalMS p * 1000000) :: rat"
  have x: "0 \<le> ?x" "0 \<le> ?top" using p by simp_all
  have neg: "\<not> rat_of_int (wr_InitialIntervalMS p) * wr_BackoffCoefficient p ^ nat (a - 1) < 0" using p by (simp add: not_less)
  have "d = \<lfloor>min ?x ?top\<rfloor>"
    using r(2) p x neg assms(5) by (auto simp: workflowRetryDelay_def Let_def w pow_int_def rngFloat_def min_def not_le)
  moreover have "0 \<le> \<lfloor>min ?x ?top\<rfloor>" using x by simp
  moreover have "\<lfloor>min ?x ?top\<rfloor> \<le> wr_MaxIntervalMS p * 1000000"
    using floor_mono [of "min ?x ?top" ?top] by (metis floor_of_int min.cobounded2)
  ultimately show ?thesis using r(1) by simp
qed

definition demo_retry :: workflow_retry_policy where
  "demo_retry = \<lparr>wr_MaxAttempts = 3, wr_InitialIntervalMS = 0, wr_BackoffCoefficient = 0, wr_MaxIntervalMS = 0,
     wr_Jitter = 0, wr_RetryOn = [], wr_NonRetryable = []\<rparr>"

theorem retry_delay_bounds_witness:
  "shouldWorkflowRetry (normalizeWorkflowRetryPolicy (Some demo_retry)) 2 ''provider_timeout'' = (True, 1000000000) \<and>
   (1000000000 :: int) \<le> 30000 * 1000000"
proof -
  let ?p = "the (normalizeWorkflowRetryPolicy (Some demo_retry))"
  have n: "normalizeWorkflowRetryPolicy (Some demo_retry) = Some ?p"
    by (simp add: normalizeWorkflowRetryPolicy_def)
  have s: "shouldWorkflowRetry (Some ?p) 2 ''provider_timeout'' = (True, 1000000000)" by code_simp
  have m: "wr_InitialIntervalMS ?p = 500" "wr_MaxIntervalMS ?p = 30000" by code_simp+
  from retry_delay_bounds [OF n s] m s n show ?thesis by simp
qed

section \<open>Decisions that cannot be made\<close>

definition open_spec :: workflow_decision_spec where
  "open_spec = \<lparr>wd_Provider = [], wd_Question = ''now?'', wd_DecisionType = ''boolean'', wd_Choices = [], wd_TimeoutMS = 0,
     wd_OnError = '' Fail_Open '', wd_DefaultChoice = '' later ''\<rparr>"

definition undecided :: workflow_node where
  "undecided = (hd (ws_Nodes solo_state))\<lparr>wn_Kind := ''decision'',
     wn_DecisionSpec := Some (projr (normalizeWorkflowDecisionSpec (Some open_spec)))\<rparr>"

lemma complete_node_stored:
  assumes "en_handoff env (su_ID (ws_Summary st)) = (\<lambda>_ _. Inr digest)" "blank (wn_HandoffRef n)"
  shows "wn_Status (fst (complete_node env st now outs payload n)) = ''completed''"
    "wn_Decision (fst (complete_node env st now outs payload n)) = wn_Decision n"
    "normalizeWorkflowVerdict (wn_Verdict n) \<noteq> [] \<Longrightarrow>
       wn_Verdict (fst (complete_node env st now outs payload n)) = normalizeWorkflowVerdict (wn_Verdict n)"
  using assms by (simp_all add: complete_node_def finalizeWorkflowNodeHandoff_def Let_def)

lemma normalize_on_error_Inr:
  assumes "normalize_on_error s = Inr spec"
  shows "wd_OnError spec \<in> set [''fail_closed'', ''fail_open'', ''fail'']"
    "wd_OnError spec = ''fail_open'' \<Longrightarrow> \<not> blank (wd_DefaultChoice spec)"
  using assms by (auto simp: normalize_on_error_def Let_def split: if_splits)

lemma normalizeWorkflowDecisionSpec_Inr:
  assumes "normalizeWorkflowDecisionSpec s = Inr spec"
  shows "wd_OnError spec \<in> set [''fail_closed'', ''fail_open'', ''fail'']"
    "wd_OnError spec = ''fail_open'' \<Longrightarrow> \<not> blank (wd_DefaultChoice spec)"
proof -
  obtain s1 where "normalize_on_error s1 = Inr spec"
    using assms by (auto simp: normalizeWorkflowDecisionSpec_def Let_def split: option.splits if_splits sum.splits)
  from normalize_on_error_Inr [OF this] show "wd_OnError spec \<in> set [''fail_closed'', ''fail_open'', ''fail'']"
    "wd_OnError spec = ''fail_open'' \<Longrightarrow> \<not> blank (wd_DefaultChoice spec)" by simp_all
qed


text \<open>
  C16. Whatever a node printed, the verdict recorded with its handoff is one of \<open>pass\<close>, \<open>fail\<close>,
  \<open>blocked\<close> and \<open>needs_fix\<close>, so a predicate on verdicts sees no other word.
\<close>

theorem verdict_recorded:
  assumes "finalizeWorkflowNodeHandoff env st n text = (n', err)" "blank (wn_HandoffRef n)"
  shows "wn_Verdict n' \<in> set [''pass'', ''fail'', ''blocked'', ''needs_fix'']"
proof -
  have "wn_Verdict n' = (if normalizeWorkflowVerdict (wn_Verdict n) \<noteq> [] then normalizeWorkflowVerdict (wn_Verdict n)
      else workflowVerdictForTerminal (en_decode env) (wn_Status n) text (wn_Error n))"
    using assms by (auto simp: finalizeWorkflowNodeHandoff_def Let_def split: sum.splits)
  then show ?thesis
    using normalizeWorkflowVerdict_range [of "wn_Verdict n"] workflowVerdictForTerminal_verdict
    by (auto simp: verdicts_def)
qed


theorem verdict_recorded_witness:
  "wn_Verdict (fst (finalizeWorkflowNodeHandoff idle_env demo_state undecided ''Verdict: needs-fix'')) = ''needs_fix''"
proof -
  have "blank (wn_HandoffRef undecided)" by code_simp
  from verdict_recorded [OF prod.collapse [symmetric] this, of idle_env demo_state "''Verdict: needs-fix''"]
  have "wn_Verdict (fst (finalizeWorkflowNodeHandoff idle_env demo_state undecided ''Verdict: needs-fix''))
      \<in> set [''pass'', ''fail'', ''blocked'', ''needs_fix'']" .
  moreover have "wn_Verdict (fst (finalizeWorkflowNodeHandoff idle_env demo_state undecided ''Verdict: needs-fix'')) \<notin>
      set [''pass'', ''fail'', ''blocked'']" by code_simp
  ultimately show ?thesis by simp
qed

section \<open>Branches take one route\<close>

lemma normalize_cases_Inr:
  "normalize_cases i seen cs = Inr cs' \<Longrightarrow>
     distinct (map wbc_Name cs') \<and> set (map wbc_Name cs') \<inter> set seen = {} \<and> (\<forall>c \<in> set cs'. clean (wbc_Name c))"
proof (induction cs arbitrary: i seen cs')
  case (Cons c cs)
  then obtain x cs1 where r: "case_route c \<noteq> []" "case_route c \<notin> set seen"
    and rest: "normalize_cases (Suc i) (seen @ [case_route c]) cs = Inr cs1"
    and cs': "cs' = x # cs1" "wbc_Name x = case_route c"
    by (cases "normalize_cases (Suc i) (seen @ [case_route c]) cs") (auto simp: Let_def split: if_splits)
  have "clean (case_route c)" using r(1) by (auto simp: case_route_def clean_def)
  with Cons.IH [OF rest] r cs' show ?case by auto
qed simp

lemma map_sum_Inr:
  assumes "map_sum id f r = Inr y"
  shows "\<exists>x. r = Inr x \<and> y = f x"
  using assms by (cases r) auto

lemma normalizeWorkflowBranchSpec_Inr:
  assumes "normalizeWorkflowBranchSpec s = Inr spec"
  shows "distinct (map wbc_Name (wb_Cases spec))" "\<forall>c \<in> set (wb_Cases spec). clean (wbc_Name c)"
proof -
  obtain cs where "normalize_cases 0 [] cs = Inr (wb_Cases spec)"
    using assms by (cases s) (auto simp: normalizeWorkflowBranchSpec_def split: if_splits dest!: map_sum_Inr)
  then show "distinct (map wbc_Name (wb_Cases spec))" "\<forall>c \<in> set (wb_Cases spec). clean (wbc_Name c)"
    using normalize_cases_Inr by blast+
qed

abbreviation route_is :: "string \<Rightarrow> workflow_edge_condition" where
  "route_is r \<equiv> WCond [] [] [] r None None None [] []"

lemma branch_completed:
  assumes "wn_BranchSpec n = Some spec" "workflowNodeByID (ws_Nodes st) (wb_Source spec) = Some src" "wn_OutputSpec n = []"
    "wn_Decision n = None" "blank (wn_HandoffRef n)" "en_handoff env (su_ID (ws_Summary st)) = (\<lambda>_ _. Inr digest)"
  shows "wn_Status (executeWorkflowBranch env st now n) = ''completed''"
    "workflowNodeChoice (executeWorkflowBranch env st now n) = branch_route env spec src"
  using assms
  by (simp_all add: executeWorkflowBranch_def completeWorkflowBranch_def validateWorkflowOutputSpecs_def Let_def
      complete_node_def finalizeWorkflowNodeHandoff_def workflowNodeChoice_def nextWorkflowAttempt_def)

text \<open>
  C13. A branch takes exactly one of its routes: of the edges that select the routes of a branch,
  one per case and one for the default, exactly one matches the completed branch node, and it
  is the first case whose condition holds of the source. The routes of the cases are unique;
  none of them may be called \<open>default\<close>, which nothing checks.
\<close>

theorem branch_takes_one_route:
  assumes "normalizeWorkflowBranchSpec s = Inr spec" "''default'' \<notin> set (map wbc_Name (wb_Cases spec))"
    "wn_BranchSpec n = Some spec" "workflowNodeByID (ws_Nodes st) (wb_Source spec) = Some src" "wn_OutputSpec n = []"
    "wn_Decision n = None" "blank (wn_HandoffRef n)" "en_handoff env (su_ID (ws_Summary st)) = (\<lambda>_ _. Inr digest)"
  shows "filter (\<lambda>r. workflowConditionMatchesNode ff (route_is r) (executeWorkflowBranch env st now n))
      (map wbc_Name (wb_Cases spec) @ [''default'']) =
    [case find (\<lambda>c. workflowConditionMatchesNode (en_float env) (wbc_Condition c) src) (wb_Cases spec) of
       None \<Rightarrow> ''default'' | Some c \<Rightarrow> wbc_Name c]"
proof -
  let ?n = "executeWorkflowBranch env st now n" let ?r = "branch_route env spec src"
  let ?routes = "map wbc_Name (wb_Cases spec) @ [''default'']"
  note spec = normalizeWorkflowBranchSpec_Inr [OF assms(1)]
  have ch: "workflowNodeChoice ?n = ?r" by (rule branch_completed(2) [OF assms(3-8)])
  have ne: "r \<noteq> []" if "r \<in> set ?routes" for r using that spec(2) by (auto simp: clean_def)
  have mem: "?r \<in> set ?routes"
    by (auto simp: branch_route_def find_Some_iff split: option.splits)
  have "filter (\<lambda>r. workflowConditionMatchesNode ff (route_is r) ?n) ?routes = filter (\<lambda>r. r = ?r) ?routes"
    using ne by (intro filter_cong) (auto simp: ch)
  also have "\<dots> = [?r]"
  proof -
    have one: "filter (\<lambda>x. x = y) xs = [y]" if "distinct xs" "y \<in> set xs" for xs and y :: string
      using that by (induction xs) (auto simp: filter_empty_conv)
    have "distinct ?routes" using spec(1) assms(2) by simp
    then show ?thesis using mem one by blast
  qed
  finally show ?thesis by (simp add: branch_route_def)
qed

definition two_way :: workflow_branch_spec where
  "two_way = \<lparr>wb_Source = '' a '', wb_Cases =
     [\<lparr>wbc_Name = ''bad'', wbc_To = ''x'', wbc_Condition = WCond ''failed'' [] [] [] None None None [] []\<rparr>,
      \<lparr>wbc_Name = [], wbc_To = '' y '', wbc_Condition = on_completed\<rparr>], wb_DefaultTo = ''z''\<rparr>"

definition two_way_node :: workflow_node where
  "two_way_node = (hd (ws_Nodes solo_state))\<lparr>wn_ID := ''b'', wn_Kind := ''branch'',
     wn_BranchSpec := Some (projr (normalizeWorkflowBranchSpec (Some two_way)))\<rparr>"

definition two_way_state :: workflow_state where
  "two_way_state = solo_state\<lparr>ws_Nodes := [(hd (ws_Nodes solo_state))\<lparr>wn_Status := ''completed''\<rparr>, two_way_node]\<rparr>"

theorem branch_takes_one_route_witness:
  "filter (\<lambda>r. workflowConditionMatchesNode (\<lambda>_. []) (route_is r) (executeWorkflowBranch idle_env two_way_state 2 two_way_node))
     [''bad'', ''y'', ''default''] = [''y'']"
proof -
  let ?spec = "projr (normalizeWorkflowBranchSpec (Some two_way))" let ?src = "hd (ws_Nodes two_way_state)"
  have n: "normalizeWorkflowBranchSpec (Some two_way) = Inr ?spec"
  proof -
    have "\<not> isl (normalizeWorkflowBranchSpec (Some two_way))" by code_simp
    then show ?thesis by (cases "normalizeWorkflowBranchSpec (Some two_way)") simp_all
  qed
  have names: "map wbc_Name (wb_Cases ?spec) = [''bad'', ''y'']" by code_simp
  have src: "workflowNodeByID (ws_Nodes two_way_state) (wb_Source ?spec) = Some ?src"
  proof -
    have "ws_Nodes two_way_state = ?src # [two_way_node]" by (simp add: two_way_state_def)
    moreover have "wn_ID ?src = trim_space (wb_Source ?spec)" by code_simp
    ultimately show ?thesis unfolding workflowNodeByID_def by (metis (mono_tags, lifting) find.simps(2))
  qed
  have b: "wn_BranchSpec two_way_node = Some ?spec" "wn_OutputSpec two_way_node = []" "wn_Decision two_way_node = None"
    "blank (wn_HandoffRef two_way_node)"
    by (simp add: two_way_node_def) code_simp+
  have h: "en_handoff idle_env (su_ID (ws_Summary two_way_state)) = (\<lambda>_ _. Inr ''digest'')" by (simp add: idle_env_def)
  have pick: "(case find (\<lambda>c. workflowConditionMatchesNode (en_float idle_env) (wbc_Condition c) ?src) (wb_Cases ?spec) of
      None \<Rightarrow> ''default'' | Some c \<Rightarrow> wbc_Name c) = ''y''" by code_simp
  from branch_takes_one_route [OF n _ b(1) src b(2-4) h, of "\<lambda>_. []" 2] names pick show ?thesis by simp
qed


section \<open>A run that cannot be touched any more\<close>


text \<open>Two edges of one node add a node of the same id: the run is created, and stuck once the node completes.\<close>

definition twin_edges :: "workflow_edge_input list" where
  "twin_edges = [(hd fix_edges)\<lparr>ei_ID := ''e1''\<rparr>, (hd fix_edges)\<lparr>ei_ID := ''e2''\<rparr>]"

definition twin_state :: workflow_state where
  "twin_state = state_of solo_inputs twin_edges"

definition twin_running :: workflow_state where
  "twin_running = startWorkflowNode idle_env 2 0 twin_state"

definition job_done :: engine_env where
  "job_done = idle_env\<lparr>en_job := (\<lambda>_. Some \<lparr>jb_Status = ''completed'', jb_Result = ''ok'', jb_Error = []\<rparr>)\<rparr>"

lemma twin_created: "created solo_inputs twin_edges = Inr twin_state"
  unfolding twin_state_def by (rule created_state_of) code_simp+

lemma twin_stuck: "sync job_done 3 (load twin_running) = Inl (Errorf ''duplicate node id %q'' [''c''])"
  by code_simp


section \<open>Where the code departs from its comments\<close>

definition follow_up :: workflow_edge where
  "follow_up = build_edge ''e'' \<lparr>ei_ID = ''e'', ei_From = [], ei_FromPrefix = [], ei_FromKind = ''step'', ei_When = on_completed,
     ei_Append = node_template\<lparr>ni_ID := ''after_{source}'', ni_DependsOn := [''{source}'']\<rparr>, ei_MaxIterations = 5,
     ei_IterationKey = []\<rparr>"

definition pair_inputs :: "workflow_node_input list" where
  "pair_inputs = [node_template\<lparr>ni_ID := ''a'', ni_Kind := ''step''\<rparr>, node_template\<lparr>ni_ID := ''b'', ni_Kind := ''step''\<rparr>]"

definition pair_state :: workflow_state where
  "pair_state = (state_of pair_inputs [])\<lparr>ws_Edges := [follow_up]\<rparr>"

text \<open>
  An edge template is spoiled by its first expansion. \<open>expandWorkflowEdgeAppend\<close> rewrites
  the slices of the template in place, so the second node an edge adds depends on the source of
  the first: the edge below adds a node that depends on the node that completed; fired for \<open>a\<close>
  and then for \<open>b\<close>, it makes both nodes depend on \<open>a\<close>.
\<close>

theorem template_spoiled:
  "map (\<lambda>n. (wn_ID n, wn_DependsOn n))
     (ws_Nodes (projr (fire_edge 2 0 (ws_Nodes pair_state ! 1) (projr (fire_edge 2 0 (ws_Nodes pair_state ! 0) pair_state))))) =
   [(''a'', []), (''b'', []), (''after_a'', [''a'']), (''after_b'', [''a''])]"
  by code_simp

text \<open>
  No code node of a workflow run is under a network policy: the engine copies every field of
  a function specification but its network, so the policy the bridge enforces allows every
  host, whatever the flow declares.
\<close>

theorem function_policy_dropped:
  assumes "workflowNodesFromInputs inputs existing now = Inr nodes" "n \<in> set nodes" "wn_FunctionSpec n = Some f"
  shows "fp_Policy (flowNetworkPolicyFromSpec (wf_Network f)) = ''allow_all'' \<and>
    host_allowed (flowNetworkPolicyFromSpec (wf_Network f)) host"
  using workflowNodesFromInputs_Inr(5) [OF assms]
  by (simp add: flowNetworkPolicyFromSpec_def host_allowed_def matchDomainPattern_def)

definition locked_function :: workflow_function_spec where
  "locked_function = \<lparr>wf_Runtime = ''js'', wf_Source = ''s'', wf_Ref = [], wf_Handler = [], wf_TimeoutSec = 0,
     wf_InputSchema = RawEmpty, wf_OutputSchema = RawEmpty,
     wf_Network = Some \<lparr>np_Policy = ''allowlist'', np_AllowedDomains = [''example.com''], np_BlockedDomains = [''evil.com''],
       np_AllowPrivateHosts = False, np_TimeoutSeconds = 0, np_MaxResponseChars = 0\<rparr>\<rparr>"

definition locked_inputs :: "workflow_node_input list" where
  "locked_inputs = [node_template\<lparr>ni_ID := ''f'', ni_Kind := ''function'', ni_Function := Some locked_function\<rparr>]"

theorem function_policy_dropped_witness:
  "\<not> host_allowed (flowNetworkPolicyFromSpec (wf_Network locked_function)) ''evil.com'' \<and>
   host_allowed (flowNetworkPolicyFromSpec (wf_Network (the (wn_FunctionSpec (projr (workflowNodesFromInputs locked_inputs [] 1) ! 0)))))
     ''evil.com''"
proof -
  let ?ns = "projr (workflowNodesFromInputs locked_inputs [] 1)"
  have "\<not> isl (workflowNodesFromInputs locked_inputs [] 1)" by code_simp
  then have n: "workflowNodesFromInputs locked_inputs [] 1 = Inr ?ns"
    by (cases "workflowNodesFromInputs locked_inputs [] 1") simp_all
  have l: "length ?ns = 1" "wn_FunctionSpec (?ns ! 0) \<noteq> None" by code_simp+
  then have m: "?ns ! 0 \<in> set ?ns" "wn_FunctionSpec (?ns ! 0) = Some (the (wn_FunctionSpec (?ns ! 0)))" by auto
  have "\<not> host_allowed (flowNetworkPolicyFromSpec (wf_Network locked_function)) ''evil.com''" by code_simp
  with function_policy_dropped [OF n m(1,2), of "''evil.com''"] show ?thesis by simp
qed

text \<open>
  A streaming code node cannot declare its events. A handler that returns an array gives
  the node the output \<open>events\<close>, but as a value that no type check takes for an array: a node
  that declares \<open>events\<close> as an array fails its output contract.
\<close>

theorem streamed_events_fail_contract:
  assumes "list_all (\<lambda>m. map_of m ''events'' = None) (json_objects items)" "wv_Name spec = ''events''"
    "wv_Type spec = ''array''"
  shows "validateWorkflowOutputSpecs [spec] (function_outputs (JArr items)) path \<noteq> None"
proof -
  have put: "map_of (put_all kvs m) ''events'' = map_of m ''events''" if "map_of kvs ''events'' = None" for kvs m
    using that unfolding put_all_def
    by (induction kvs arbitrary: m) (auto simp: put_map_of split: if_splits)
  have "map_of (function_outputs (JArr items)) ''events'' = Some (JMaps (map JObj (json_objects items)))"
    using assms(1) by (cases "json_objects items" rule: rev_cases) (simp_all add: function_outputs_def Let_def put)
  moreover have w: "trim_space ''events'' = ''events''" "norm_word ''array'' = ''array''" by code_simp+
  ultimately show ?thesis
    using assms(2,3)
    by (simp add: validateWorkflowOutputSpecs_def ValidateVariableValues_def validateVariableValue_def
        valueHasJSONType_def check_def)
qed

definition events_output :: workflow_var_def where
  "events_output = \<lparr>wv_Name = ''events'', wv_Type = ''array'', wv_Desc = [], wv_Required = True, wv_Schema = RawEmpty\<rparr>"

theorem streamed_events_fail_contract_witness:
  "validateWorkflowOutputSpecs [events_output] (function_outputs (JArr [JObj [(''x'', JNum 1)]])) ''p'' \<noteq> None"
  by (rule streamed_events_fail_contract) (simp_all add: events_output_def)

lemma ord_ops: "op \<in> set [''gt'', ''gte'', ''lt'', ''lte''] \<Longrightarrow> op \<notin> set [''eq'', ''ne'', ''in'', ''not_in'', ''contains'']"
  by auto

text \<open>
  A numeric threshold on the response of a service never holds in the pass in which the
  call completes, because the response keeps its numbers as literals, which the comparison does
  not read; the same value read back from the stored run does satisfy it. Since an edge is
  marked as processed on first sight, it never fires.
\<close>

theorem service_threshold_lost:
  assumes "workflowOutputValue (wn_Outputs n) (wfc_Path c) = Some (JNumber x)" "wfc_Op c \<in> set [''gt'', ''gte'', ''lt'', ''lte'']"
    "we_When e = WCond [] [] [] [] None (Some c) None [] []" "ws_Edges st ! k = e" "workflowEdgeMatchesSource e n"
    "\<not> processed st (workflowProcessedEdgeKey (we_ID e) (wn_ID n))"
  shows "\<exists>st'. process_edge env now n (changed, st) k = Inr (True, st') \<and> ws_Nodes st' = ws_Nodes st \<and>
     processed st' (workflowProcessedEdgeKey (we_ID e) (wn_ID n))"
proof -
  have "\<not> fieldCompare (en_float env) c (wn_Outputs n)"
    using assms(1,2) ord_ops [OF assms(2)] by (simp add: fieldCompare_def)
  then have "\<not> workflowEdgeConditionMatchesState (en_float env) nodes (we_When e) n" for nodes
    by (simp add: assms(3) workflowEdgeConditionMatchesState_def)
  then show ?thesis
    using assms(4-6) by (simp add: process_edge_def Let_def processed_def set_summary_def)
qed

definition scored :: workflow_node where
  "scored = (hd (ws_Nodes demo_state))\<lparr>wn_Status := ''completed'',
     wn_Outputs := projr (callWorkflowService demo_network [] no_state demo_call)\<rparr>"

definition above_five :: workflow_field_compare where
  "above_five = \<lparr>wfc_Path = ''body.score'', wfc_Op = ''gt'', wfc_Value = JNum 5\<rparr>"

definition score_state :: workflow_state where
  "score_state = demo_state\<lparr>ws_Nodes := [scored], ws_Edges := [(hd (ws_Edges demo_state))\<lparr>we_When :=
     WCond [] [] [] [] None (Some above_five) None [] []\<rparr>]\<rparr>"

theorem service_threshold_lost_witness:
  "map wn_ID (ws_Nodes (snd (projr (process_edge idle_env 2 scored (False, score_state) 0)))) = [''a''] \<and>
   fieldCompare (\<lambda>_. []) above_five (decoded_outputs (wn_Outputs scored))"
proof -
  let ?e = "ws_Edges score_state ! 0"
  have o: "workflowOutputValue (wn_Outputs scored) (wfc_Path above_five) = Some (JNumber 7)" by code_simp
  have c: "wfc_Op above_five \<in> set [''gt'', ''gte'', ''lt'', ''lte'']" by (simp add: above_five_def)
  have e: "we_When ?e = WCond [] [] [] [] None (Some above_five) None [] []" by (simp add: score_state_def)
  have m: "workflowEdgeMatchesSource ?e scored" by code_simp
  have p: "\<not> processed score_state (workflowProcessedEdgeKey (we_ID ?e) (wn_ID scored))" by code_simp
  have i: "map wn_ID (ws_Nodes score_state) = [''a'']" by code_simp
  have d: "fieldCompare (\<lambda>_. []) above_five (decoded_outputs (wn_Outputs scored))" by code_simp
  obtain st' where "process_edge idle_env 2 scored (False, score_state) 0 = Inr (True, st')" "ws_Nodes st' = ws_Nodes score_state"
    using service_threshold_lost [OF o c e refl m p, of idle_env 2 False] by blast
  then show ?thesis using i d by simp
qed

text \<open>
  \<open>preview_merge: false\<close> is lost: loading the stored run sets it again on every node that
  depends on another one and receives a handoff.
\<close>

theorem preview_merge_forced:
  assumes "workflowNodesFromInputs [i] existing now = Inr [n]" "ni_PreviewMerge i = Some False"
    "normalizeWorkflowStrings (ni_DependsOn i) \<noteq> []" "wn_HandoffPolicy n \<noteq> ''none''"
  shows "\<not> wn_PreviewMerge n \<and> wn_PreviewMerge (load_node n)"
proof -
  obtain seen where "node_from_input now (existing, []) i = Inr (seen, [n])"
    using assms(1) by (auto simp: workflowNodesFromInputs_def split: sum.splits)
  then obtain nodeID kind prompt decision branch where n: "n = build_node now nodeID kind prompt decision branch i"
    by (auto simp: node_from_input_def Let_def split: if_splits sum.splits)
  have w: "norm_word ''summary'' = ''summary''" "norm_word ''summary_artifacts'' = ''summary_artifacts''"
    "norm_word ''selected'' = ''selected''" by code_simp+
  have "\<not> wn_PreviewMerge n" using assms(2) by (simp add: n build_node_def normalizeWorkflowPreviewMerge_def)
  moreover have "wn_DependsOn n \<noteq> []" using assms(3) by (simp add: n build_node_def)
  moreover have "normalizeWorkflowHandoffPolicy (wn_HandoffPolicy n) True \<noteq> ''none''"
    using assms(4) w by (auto simp: n build_node_def normalizeWorkflowHandoffPolicy_def handoff_policies_def split: if_splits)
  ultimately show ?thesis by (simp add: load_node_def Let_def)
qed

definition unmerged :: workflow_node_input where
  "unmerged = node_template\<lparr>ni_ID := ''b'', ni_DependsOn := [''a''], ni_PreviewMerge := Some False\<rparr>"

theorem preview_merge_forced_witness:
  "wn_PreviewMerge (load_node (projr (workflowNodesFromInputs [unmerged] [''a''] 1) ! 0))"
proof -
  let ?ns = "projr (workflowNodesFromInputs [unmerged] [''a''] 1)"
  have "\<not> isl (workflowNodesFromInputs [unmerged] [''a''] 1)" "length ?ns = 1" by code_simp+
  then have n: "workflowNodesFromInputs [unmerged] [''a''] 1 = Inr [?ns ! 0]"
    by (cases "workflowNodesFromInputs [unmerged] [''a''] 1"; cases ?ns) auto
  have "ni_PreviewMerge unmerged = Some False" by (simp add: unmerged_def)
  moreover have "normalizeWorkflowStrings (ni_DependsOn unmerged) \<noteq> []" "wn_HandoffPolicy (?ns ! 0) \<noteq> ''none''" by code_simp+
  ultimately show ?thesis using preview_merge_forced [OF n] by blast
qed

end
