(* ===== verification/Flow_Session.thy ===== *)
theory Flow_Session
  imports Flow_Checks
begin

text \<open>
  The session workflow of a flow (\<open>validateSessionWorkflow\<close> and below in
  \<open>src/internal/core/flow/validate.go\<close>): lanes, triggers, the region an entry node reaches
  over the static edges, and the routes its branch nodes append. A set of the source is the
  list of its members in the order they were added; a range over it goes through
  \<open>ge_range\<close>.
\<close>

section \<open>Lanes\<close>

definition lane_char :: "char \<Rightarrow> bool" where
  "lane_char c \<longleftrightarrow> c = CHR ''_'' \<or> c = CHR ''-'' \<or> c = CHR ''.'' \<or> char_in CHR ''a'' CHR ''z'' c \<or>
    char_in CHR ''A'' CHR ''Z'' c \<or> char_in CHR ''0'' CHR ''9'' c"

definition cadence_err :: "session_lane \<Rightarrow> string \<Rightarrow> go_error option" where
  "cadence_err lane path =
    (let cadence = (if norm_word (sl_Cadence lane) = [] then ''event'' else norm_word (sl_Cadence lane)) in
     if cadence = ''event'' then
       check (sl_IntervalMS lane \<noteq> 0)
         (verr (path @ ''.interval_ms'') ''is only valid for periodic or hybrid cadence'' [])
     else if cadence = ''periodic'' \<or> cadence = ''hybrid'' then
       check (sl_IntervalMS lane < 10 \<or> sl_IntervalMS lane > 24 * 60 * 60 * 1000)
         (verr (path @ ''.interval_ms'') ''must be between 10 and 86400000 milliseconds'' [])
     else Some (verr (path @ ''.cadence'') ''must be \"event\", \"periodic\" or \"hybrid\"'' []))"

definition validateSessionLane :: "session_lane \<Rightarrow> string \<Rightarrow> go_error + string" where
  "validateSessionLane lane path =
    (let i = trim_space (sl_ID lane) in
     if i = [] \<or> length i > 64 then Inl (verr (path @ ''.id'') ''must be between 1 and 64 characters'' [])
     else if \<not> list_all lane_char i then
       Inl (verr (path @ ''.id'') ''may contain only letters, numbers, _, - and .'' [])
     else (case cadence_err lane path of
       Some e \<Rightarrow> Inl e
     | None \<Rightarrow>
         if sl_DeadlineMS lane < 10 \<or> sl_DeadlineMS lane > 24 * 60 * 60 * 1000 then
           Inl (verr (path @ ''.deadline_ms'') ''must be between 10 and 86400000 milliseconds'' [])
         else if norm_word (sl_Class lane) \<notin> set [[], ''fast'', ''standard'', ''slow''] then
           Inl (verr (path @ ''.class'') ''must be \"fast\", \"standard\" or \"slow\"'' [])
         else if norm_word (sl_OverloadPolicy lane) \<notin> set [[], ''coalesce_latest'', ''drop_newest''] then
           Inl (verr (path @ ''.overload_policy'') ''must be \"coalesce_latest\" or \"drop_newest\"'' [])
         else Inr i))"

type_synonym lane_index = "(string \<times> session_lane) list"

fun indexLanes :: "nat \<Rightarrow> lane_index \<Rightarrow> session_lane list \<Rightarrow> go_error + lane_index" where
  "indexLanes i lanesByID [] = Inr lanesByID"
| "indexLanes i lanesByID (lane # lanes) =
    (let path = ''session_workflow.lanes'' @ idx i in
     case validateSessionLane lane path of
       Inl e \<Rightarrow> Inl e
     | Inr lid \<Rightarrow>
         if map_of lanesByID lid \<noteq> None then Inl (verr (path @ ''.id'') ''duplicate lane id %q'' [lid])
         else indexLanes (Suc i) (lanesByID @ [(lid, lane)]) lanes)"

definition validateSessionLaneTriggerCompatibility ::
  "session_lane \<Rightarrow> session_trigger \<Rightarrow> string \<Rightarrow> go_error option" where
  "validateSessionLaneTriggerCompatibility lane trigger path =
    (if (norm_word (sl_Cadence lane) = ''periodic'' \<or> norm_word (sl_Cadence lane) = ''hybrid'') \<and>
        EffectiveSessionDelivery (st_Delivery trigger) \<noteq> ''latest_wins'' then
       Some (verr (path @ ''.delivery'') ''periodic and hybrid lanes require latest_wins delivery'' [])
     else check (equal_fold (trim_space (sl_OverloadPolicy lane)) ''drop_newest'' \<and>
          EffectiveSessionDelivery (st_Delivery trigger) \<noteq> ''latest_wins'')
       (verr (path @ ''.lane_id'') ''drop_newest overload requires latest_wins delivery'' []))"

section \<open>The region of a trigger\<close>

definition zero_node :: flow_node where
  "zero_node = \<lparr>n_ID = [], n_Kind = [], n_Title = [], n_Prompt = [], n_AgentType = [], n_CanvasPos = None,
     n_AgentRef = [], n_WriteScope = [], n_Retry = None, n_Decision = None, n_Human = None, n_Branch = None,
     n_Loop = None, n_Function = None, n_Service = None, n_TimeoutSec = 0, n_PreScript = [],
     n_PostScript = [], n_Outputs = []\<rparr>"

definition node_at :: "node_index \<Rightarrow> string \<Rightarrow> flow_node" where
  "node_at byID i = (case map_of byID i of Some n \<Rightarrow> n | None \<Rightarrow> zero_node)"

definition static_edges :: "flow_edge list \<Rightarrow> flow_edge list" where
  "static_edges es = filter (\<lambda>e. normalizeEdgeType (e_EdgeType e) \<noteq> ''condition'') es"

definition incoming_of :: "flow_edge list \<Rightarrow> dep_graph" where
  "incoming_of es = foldl (\<lambda>g e. add_dep g (e_To e) (e_From e)) [] (static_edges es)"

definition outgoing_of :: "flow_edge list \<Rightarrow> dep_graph" where
  "outgoing_of es = foldl (\<lambda>g e. add_dep g (e_From e) (e_To e)) [] (static_edges es)"

definition buildSessionRegionGraph ::
  "flow_definition \<Rightarrow> string \<Rightarrow> string \<Rightarrow> go_error + dep_graph \<times> dep_graph \<times> string list" where
  "buildSessionRegionGraph d entryID path =
    (let incoming = incoming_of (fd_Edges d); outgoing = outgoing_of (fd_Edges d) in
     if length (succs incoming entryID) \<noteq> 0 then
       Inl (verr (path @ ''.entry_node'') ''must not have incoming data_dependency or handoff edges'' [])
     else Inr (incoming, outgoing, reach outgoing entryID))"

definition inline_js :: "flow_node \<Rightarrow> bool" where
  "inline_js n \<longleftrightarrow> (case n_Function n of None \<Rightarrow> False
     | Some f \<Rightarrow> equal_fold (trim_space (f_Runtime f)) ''js'' \<and> blank (f_Ref f))"

definition rejectSessionRegionAppendTarget ::
  "flow_definition \<Rightarrow> node_index \<Rightarrow> string \<Rightarrow> string \<Rightarrow> go_error option" where
  "rejectSessionRegionAppendTarget d byID nodeID path =
    andthen
      (each (\<lambda>owner.
         if normalizeKind (n_Kind owner) = ''branch'' then
           (case n_Branch owner of None \<Rightarrow> None
            | Some b \<Rightarrow> check (nodeID \<in> set (map bc_To (b_Cases b)) \<or> b_DefaultTo b = nodeID)
                (verr path ''region node %q cannot be a branch append target'' [nodeID]))
         else if normalizeKind (n_Kind owner) = ''loop'' then
           (case n_Loop owner of None \<Rightarrow> None
            | Some l \<Rightarrow> check (nodeID \<in> set (l_Body l))
                (verr path ''region node %q cannot be a loop append target'' [nodeID]))
         else None) (fd_Nodes d))
      (each (\<lambda>e. check (n_ID (node_at byID (e_From e)) \<noteq> [] \<and>
             normalizeKind (n_Kind (node_at byID (e_From e))) = ''loop'' \<and> e_To e = nodeID)
          (verr path ''region node %q cannot be a loop append target'' [nodeID])) (fd_Edges d))"

definition validateSessionRegionNode ::
  "flow_definition \<Rightarrow> node_index \<Rightarrow> dep_graph \<Rightarrow> string list \<Rightarrow> string \<Rightarrow> string \<Rightarrow> string \<Rightarrow> go_error option" where
  "validateSessionRegionNode d byID incoming region nodeID path delivery =
    (let node = node_at byID nodeID; kind = normalizeKind (n_Kind node) in
     andthen
       (if kind = ''function'' then
          check (\<not> inline_js node) (verr path ''region node %q must be an inline JavaScript function'' [nodeID])
        else if kind = ''service'' then
          check (n_Service node = None) (verr path ''region node %q must have a service configuration'' [nodeID])
        else if kind = ''llm'' then
          check (length (n_Outputs node) = 0) (verr path ''region LLM node %q must declare outputs'' [nodeID])
        else if kind = ''step'' then
          andthen (check (delivery \<noteq> ''durable'')
              (verr path ''region Agent node %q requires durable event delivery'' [nodeID]))
            (check (length (n_Outputs node) = 0) (verr path ''region Agent node %q must declare outputs'' [nodeID]))
        else if kind = ''branch'' then
          check (n_Branch node = None) (verr path ''region branch node %q must have a branch configuration'' [nodeID])
        else Some (verr path ''region node %q has unsupported kind %q; session runtime supports function, service, LLM, durable Agent, and branch nodes'' [nodeID, kind]))
     (andthen (check (\<not> blank (n_PreScript node) \<or> \<not> blank (n_PostScript node))
         (verr path ''region node %q must not use pre_script or post_script'' [nodeID]))
     (andthen (each (\<lambda>source. check (source \<notin> set region)
         (verr path ''region node %q depends on node %q outside its trigger region'' [nodeID, source]))
         (succs incoming nodeID))
       (rejectSessionRegionAppendTarget d byID nodeID path))))"

definition validateSessionRegionNodes ::
  "go_env \<Rightarrow> flow_definition \<Rightarrow> node_index \<Rightarrow> dep_graph \<Rightarrow> string list \<Rightarrow> string \<Rightarrow> string \<Rightarrow> go_error option" where
  "validateSessionRegionNodes env d byID incoming region path delivery =
    each (\<lambda>nodeID. validateSessionRegionNode d byID incoming region nodeID path delivery)
      (ge_range env region)"

section \<open>The routes of a branch\<close>

fun branchTargets_from ::
  "string \<Rightarrow> string \<Rightarrow> string list \<Rightarrow> branch_case list \<Rightarrow> go_error + string list" where
  "branchTargets_from branchID path seen [] = Inr []"
| "branchTargets_from branchID path seen (c # cs) =
    (let route = (if blank (bc_Name c) then trim_space (bc_To c) else trim_space (bc_Name c)) in
     if route = ''default'' then
       Inl (verr path ''branch node %q case name %q is reserved'' [branchID, ''default''])
     else if route \<in> set seen then Inl (verr path ''branch node %q has duplicate route %q'' [branchID, route])
     else map_sum id ((#) (trim_space (bc_To c))) (branchTargets_from branchID path (route # seen) cs))"

definition sessionBranchTargetIDs :: "string \<Rightarrow> branch_spec \<Rightarrow> string \<Rightarrow> go_error + string list" where
  "sessionBranchTargetIDs branchID b path =
    map_sum id (\<lambda>ts. ts @ [trim_space (b_DefaultTo b)]) (branchTargets_from branchID path [] (b_Cases b))"

type_synonym owners = "(string \<times> string) list"

definition claimSessionBranchTarget :: "string \<Rightarrow> string \<Rightarrow> owners \<Rightarrow> string \<Rightarrow> go_error + owners" where
  "claimSessionBranchTarget branchID targetID owners path =
    (case map_of owners targetID of
       Some owner \<Rightarrow>
         if owner \<noteq> branchID
         then Inl (verr path ''branch route target %q is shared by branch nodes %q and %q'' [targetID, owner, branchID])
         else Inr ((targetID, branchID) # owners)
     | None \<Rightarrow> Inr ((targetID, branchID) # owners))"

definition validateSessionBranchTarget :: "flow_node \<Rightarrow> string \<Rightarrow> string \<Rightarrow> string \<Rightarrow> go_error option" where
  "validateSessionBranchTarget target targetID path delivery =
    (let targetKind = normalizeKind (n_Kind target) in
     andthen
       (if targetKind = ''function'' then
          check (\<not> inline_js target) (verr path ''branch route target %q must be an inline JavaScript function'' [targetID])
        else if targetKind = ''service'' then None
        else if targetKind = ''llm'' then
          check (length (n_Outputs target) = 0) (verr path ''branch route LLM node %q must declare outputs'' [targetID])
        else if targetKind = ''step'' then
          andthen (check (delivery \<noteq> ''durable'')
              (verr path ''branch route Agent node %q requires durable event delivery'' [targetID]))
            (check (length (n_Outputs target) = 0) (verr path ''branch route Agent node %q must declare outputs'' [targetID]))
        else Some (verr path ''branch route target %q has unsupported kind %q'' [targetID, targetKind]))
     (check (\<not> blank (n_PreScript target) \<or> \<not> blank (n_PostScript target))
       (verr path ''branch route target %q must not use pre_script or post_script'' [targetID])))"

definition sessionRouteChain :: "string \<Rightarrow> dep_graph \<Rightarrow> string list" where
  "sessionRouteChain targetID outgoing = reach outgoing targetID"

definition validateSessionRouteChainNode :: "flow_node \<Rightarrow> string \<Rightarrow> string \<Rightarrow> string \<Rightarrow> go_error option" where
  "validateSessionRouteChainNode node nodeID path delivery =
    (let kind = normalizeKind (n_Kind node) in
     andthen
       (if kind = ''function'' then
          check (\<not> inline_js node) (verr path ''branch route chain node %q must be an inline JavaScript function'' [nodeID])
        else if kind = ''service'' then
          check (n_Service node = None) (verr path ''branch route chain node %q must have a service configuration'' [nodeID])
        else if kind = ''llm'' then
          check (length (n_Outputs node) = 0) (verr path ''branch route chain LLM node %q must declare outputs'' [nodeID])
        else if kind = ''step'' then
          andthen (check (delivery \<noteq> ''durable'')
              (verr path ''branch route chain Agent node %q requires durable event delivery'' [nodeID]))
            (check (length (n_Outputs node) = 0) (verr path ''branch route chain Agent node %q must declare outputs'' [nodeID]))
        else if kind = ''branch'' then
          Some (verr path ''nested branch node %q is not supported in a branch route chain'' [nodeID])
        else Some (verr path ''branch route chain node %q has unsupported kind %q'' [nodeID, kind]))
     (check (\<not> blank (n_PreScript node) \<or> \<not> blank (n_PostScript node))
       (verr path ''branch route chain node %q must not use pre_script or post_script'' [nodeID])))"

text \<open>The maps the routes of a region share while its branch nodes are checked.\<close>

record route_state =
  rs_targetOwners :: owners
  rs_chainOwners :: owners
  rs_regionNodes :: "string list"

definition claimSessionBranchChain ::
  "go_env \<Rightarrow> string \<Rightarrow> string list \<Rightarrow> string \<Rightarrow> route_state \<Rightarrow> go_error + route_state" where
  "claimSessionBranchChain env branchID chain path rs =
    each_st (\<lambda>rs nodeID.
      (case map_of (rs_chainOwners rs) nodeID of
         Some owner \<Rightarrow> if owner \<noteq> branchID
           then Inl (verr path ''branch route chains share downstream node %q'' [nodeID])
           else Inr (rs\<lparr>rs_chainOwners := (nodeID, branchID) # rs_chainOwners rs,
                        rs_regionNodes := rs_regionNodes rs @ [nodeID]\<rparr>)
       | None \<Rightarrow> Inr (rs\<lparr>rs_chainOwners := (nodeID, branchID) # rs_chainOwners rs,
                        rs_regionNodes := rs_regionNodes rs @ [nodeID]\<rparr>)))
      rs (ge_range env chain)"

type_synonym route_chains = "(string \<times> string list) list"

definition sessionBranchSiblingSuppliesInput ::
  "string \<Rightarrow> string \<Rightarrow> string \<Rightarrow> string list \<Rightarrow> route_chains \<Rightarrow> bool" where
  "sessionBranchSiblingSuppliesInput targetID nodeID source targetIDs routeChains \<longleftrightarrow>
    list_ex (\<lambda>sibling. trim_space sibling \<noteq> targetID \<and>
      nodeID \<in> set (succs routeChains (trim_space sibling)) \<and>
      source \<in> set (succs routeChains (trim_space sibling))) targetIDs"

definition validateSessionBranchDependencies ::
  "go_env \<Rightarrow> node_index \<Rightarrow> dep_graph \<Rightarrow> string list \<Rightarrow> string list \<Rightarrow> route_chains \<Rightarrow> string \<Rightarrow> string \<Rightarrow>
     go_error option" where
  "validateSessionBranchDependencies env byID incoming region targetIDs routeChains path delivery =
    each (\<lambda>t. let targetID = trim_space t in
      (case map_of routeChains targetID of
         None \<Rightarrow> None
       | Some chain \<Rightarrow> each (\<lambda>nodeID.
           andthen (if nodeID \<noteq> targetID
                    then validateSessionRouteChainNode (node_at byID nodeID) nodeID path delivery else None)
             (each (\<lambda>source. check (source \<notin> set region \<and> source \<notin> set chain \<and>
                 \<not> sessionBranchSiblingSuppliesInput targetID nodeID source targetIDs routeChains)
               (verr path ''branch route chain node %q depends on node %q outside its selected route'' [nodeID, source]))
               (succs incoming nodeID))) (ge_range env chain))) targetIDs"

definition branchTarget_step ::
  "go_env \<Rightarrow> node_index \<Rightarrow> dep_graph \<Rightarrow> string \<Rightarrow> string \<Rightarrow> string \<Rightarrow> route_state \<times> route_chains \<Rightarrow> string \<Rightarrow>
     go_error + route_state \<times> route_chains" where
  "branchTarget_step env byID outgoing branchID path delivery st targetID =
    (let (rs, routeChains) = st in
     case claimSessionBranchTarget branchID targetID (rs_targetOwners rs) path of
       Inl e \<Rightarrow> Inl e
     | Inr owners \<Rightarrow>
         let rs = rs\<lparr>rs_targetOwners := owners\<rparr> in
         (case validateSessionBranchTarget (node_at byID targetID) targetID path delivery of
            Some e \<Rightarrow> Inl e
          | None \<Rightarrow>
              if map_of routeChains targetID \<noteq> None then Inr (rs, routeChains)
              else let chain = sessionRouteChain targetID outgoing in
                (case claimSessionBranchChain env branchID chain path rs of
                   Inl e \<Rightarrow> Inl e
                 | Inr rs' \<Rightarrow> Inr (rs', routeChains @ [(targetID, chain)]))))"

definition validateSessionBranchNode ::
  "go_env \<Rightarrow> node_index \<Rightarrow> dep_graph \<Rightarrow> dep_graph \<Rightarrow> string list \<Rightarrow> string \<Rightarrow> branch_spec \<Rightarrow> string \<Rightarrow> string \<Rightarrow>
     route_state \<Rightarrow> go_error + route_state" where
  "validateSessionBranchNode env byID incoming outgoing region branchID b path delivery rs =
    (case sessionBranchTargetIDs branchID b path of
       Inl e \<Rightarrow> Inl e
     | Inr targetIDs \<Rightarrow>
         (case each_st (branchTarget_step env byID outgoing branchID path delivery) (rs, []) targetIDs of
            Inl e \<Rightarrow> Inl e
          | Inr (rs', routeChains) \<Rightarrow>
              (case validateSessionBranchDependencies env byID incoming region targetIDs routeChains path delivery of
                 Some e \<Rightarrow> Inl e | None \<Rightarrow> Inr rs')))"

definition validateSessionBranchRoutes ::
  "go_env \<Rightarrow> node_index \<Rightarrow> dep_graph \<Rightarrow> dep_graph \<Rightarrow> string list \<Rightarrow> string \<Rightarrow> string \<Rightarrow> route_state \<Rightarrow>
     go_error + route_state" where
  "validateSessionBranchRoutes env byID incoming outgoing region path delivery rs =
    each_st (\<lambda>rs branchID.
      let node = node_at byID branchID in
      if normalizeKind (n_Kind node) \<noteq> ''branch'' then Inr rs
      else (case n_Branch node of None \<Rightarrow> Inr rs
        | Some b \<Rightarrow> validateSessionBranchNode env byID incoming outgoing region branchID b path delivery rs))
      rs (ge_range env region)"

definition validateSessionRegionConditionEdges ::
  "flow_edge list \<Rightarrow> string list \<Rightarrow> string \<Rightarrow> go_error option" where
  "validateSessionRegionConditionEdges es nodes path =
    each (\<lambda>e. check (normalizeEdgeType (e_EdgeType e) = ''condition'' \<and> (e_From e \<in> set nodes \<or> e_To e \<in> set nodes))
      (verr path ''session regions do not support condition edges'' [])) es"

definition validateSessionRegion ::
  "go_env \<Rightarrow> flow_definition \<Rightarrow> node_index \<Rightarrow> string \<Rightarrow> string \<Rightarrow> string \<Rightarrow> go_error option" where
  "validateSessionRegion env d byID entryID path delivery =
    (case buildSessionRegionGraph d entryID path of
       Inl e \<Rightarrow> Some e
     | Inr (incoming, outgoing, region) \<Rightarrow>
         andthen (validateSessionRegionNodes env d byID incoming region path delivery)
           (case validateSessionBranchRoutes env byID incoming outgoing region path delivery
                   \<lparr>rs_targetOwners = [], rs_chainOwners = [], rs_regionNodes = region\<rparr> of
              Inl e \<Rightarrow> Some e
            | Inr rs \<Rightarrow> validateSessionRegionConditionEdges (fd_Edges d) (rs_regionNodes rs) path))"

section \<open>Triggers\<close>

definition validateSessionTrigger ::
  "go_env \<Rightarrow> flow_definition \<Rightarrow> node_index \<Rightarrow> lane_index \<Rightarrow> string list \<times> string list \<Rightarrow> session_trigger \<Rightarrow>
     string \<Rightarrow> go_error + string list \<times> string list" where
  "validateSessionTrigger env d byID lanesByID seen trigger path =
    (let (seenEvents, seenLanes) = seen; eventType = trim_space (st_EventType trigger);
         entryID = trim_space (st_EntryNode trigger); laneID = trim_space (st_LaneID trigger);
         region = validateSessionRegion env d byID entryID path (EffectiveSessionDelivery (st_Delivery trigger))
     in
     if eventType = [] \<or> length eventType > 128 then
       Inl (verr (path @ ''.event_type'') ''must be between 1 and 128 characters'' [])
     else if eventType \<in> set seenEvents then
       Inl (verr (path @ ''.event_type'') ''duplicate trigger for event type %q'' [eventType])
     else if entryID = [] then Inl (verr (path @ ''.entry_node'') ''is required'' [])
     else if map_of byID entryID = None then Inl (verr (path @ ''.entry_node'') ''unknown node %q'' [entryID])
     else if norm_word (st_Delivery trigger) \<notin> set [[], ''durable'', ''latest_wins''] then
       Inl (verr (path @ ''.delivery'') ''must be \"durable\" or \"latest_wins\"'' [])
     else if laneID = [] then
       (case region of Some e \<Rightarrow> Inl e | None \<Rightarrow> Inr (eventType # seenEvents, seenLanes))
     else (case map_of lanesByID laneID of
       None \<Rightarrow> Inl (verr (path @ ''.lane_id'') ''unknown lane %q'' [laneID])
     | Some lane \<Rightarrow>
         if laneID \<in> set seenLanes then
           Inl (verr (path @ ''.lane_id'') ''lane %q may be assigned to only one trigger'' [laneID])
         else (case andthen (validateSessionLaneTriggerCompatibility lane trigger path) region of
             Some e \<Rightarrow> Inl e | None \<Rightarrow> Inr (eventType # seenEvents, laneID # seenLanes))))"

fun validateSessionTriggers ::
  "go_env \<Rightarrow> flow_definition \<Rightarrow> node_index \<Rightarrow> lane_index \<Rightarrow> nat \<Rightarrow> string list \<times> string list \<Rightarrow>
     session_trigger list \<Rightarrow> go_error + string list \<times> string list" where
  "validateSessionTriggers env d byID lanesByID i seen [] = Inr seen"
| "validateSessionTriggers env d byID lanesByID i seen (t # ts) =
    (case validateSessionTrigger env d byID lanesByID seen t (''session_workflow.triggers'' @ idx i) of
       Inl e \<Rightarrow> Inl e
     | Inr seen' \<Rightarrow> validateSessionTriggers env d byID lanesByID (Suc i) seen' ts)"

definition validateSessionWorkflow :: "go_env \<Rightarrow> flow_definition \<Rightarrow> node_index \<Rightarrow> go_error option" where
  "validateSessionWorkflow env d byID =
    (if EffectiveExecutionMode (fd_ExecutionMode d) \<noteq> ''session'' then
       check (fd_SessionWorkflow d \<noteq> None)
         (verr ''session_workflow'' ''is only valid when execution_mode is session'' [])
     else (case fd_SessionWorkflow d of
       None \<Rightarrow> Some (verr ''session_workflow.triggers'' ''session flows require at least one event trigger'' [])
     | Some sw \<Rightarrow>
         if length (sw_Triggers sw) = 0 then
           Some (verr ''session_workflow.triggers'' ''session flows require at least one event trigger'' [])
         else (case indexLanes 0 [] (sw_Lanes sw) of
           Inl e \<Rightarrow> Some e
         | Inr lanesByID \<Rightarrow>
             (case validateSessionTriggers env d byID lanesByID 0 ([], []) (sw_Triggers sw) of
                Inl e \<Rightarrow> Some e
              | Inr (seenEvents, seenLanes) \<Rightarrow>
                  each (\<lambda>laneID. check (laneID \<notin> set seenLanes)
                    (verr ''session_workflow.lanes'' ''lane %q is not assigned to a trigger'' [laneID]))
                    (ge_range env (map fst lanesByID))))))"

end
