(* ===== verification/Flow_Validate.thy ===== *)
theory Flow_Validate
  imports Flow_Session
begin

text \<open>
  \<open>Validate\<close> of \<open>src/internal/core/flow/validate.go\<close>, composed from the checks, and what an
  accepted definition satisfies: unique node ids, edges between declared nodes, an acyclic
  dependency relation, resolved branch and loop targets, resolved variable references, and
  session regions that are closed under their dependencies. The node cap is proved for loops
  small enough not to overflow, and the overflow itself is exhibited.
\<close>

definition Validate :: "go_env \<Rightarrow> flow_definition option \<Rightarrow> go_error option" where
  "Validate env def =
    andthen (validateDefinitionHeader def)
      (case def of
         None \<Rightarrow> None
       | Some d \<Rightarrow>
           (case indexDefinitionNodes d of
              Inl e \<Rightarrow> Some e
            | Inr byID \<Rightarrow>
                andthen (validateFlowOutputSources d byID)
                (andthen (validateStaticNodes env d byID)
                (andthen (validateDependencyEdges env d byID)
                (andthen (validateSessionWorkflow env d byID)
                  (validateExpandedNodeLimit d))))))"

section \<open>The node index\<close>

lemma indexNode_Inr:
  "indexNode byID n = Inr byID' \<longleftrightarrow>
    trim_space (n_ID n) \<noteq> [] \<and> trim_space (n_ID n) \<notin> fst ` set byID \<and> byID' = byID @ [(trim_space (n_ID n), n)]"
  by (auto simp: indexNode_def Let_def map_of_eq_None_iff)

lemma indexNodes_Inr:
  "each_st indexNode byID ns = Inr byID' \<longleftrightarrow>
    byID' = byID @ map (\<lambda>n. (trim_space (n_ID n), n)) ns \<and>
    distinct (map (trim_space \<circ> n_ID) ns) \<and> [] \<notin> set (map (trim_space \<circ> n_ID) ns) \<and>
    set (map (trim_space \<circ> n_ID) ns) \<inter> fst ` set byID = {}"
proof (induction ns arbitrary: byID)
  case (Cons n ns)
  show ?case
  proof (cases "indexNode byID n")
    case (Inl e)
    then have "trim_space (n_ID n) = [] \<or> trim_space (n_ID n) \<in> fst ` set byID"
      using indexNode_Inr [of byID n "byID @ [(trim_space (n_ID n), n)]"] by auto
    with Inl show ?thesis by auto
  next
    case (Inr b)
    then have "trim_space (n_ID n) \<noteq> []" "trim_space (n_ID n) \<notin> fst ` set byID"
      "b = byID @ [(trim_space (n_ID n), n)]" by (auto simp: indexNode_Inr)
    with Inr Cons.IH [of b] show ?thesis by auto
  qed
qed auto

definition node_ids :: "flow_definition \<Rightarrow> string list" where
  "node_ids d = map (trim_space \<circ> n_ID) (fd_Nodes d)"

lemma indexDefinitionNodes_Inr:
  "indexDefinitionNodes d = Inr byID \<longleftrightarrow>
    byID = map (\<lambda>n. (trim_space (n_ID n), n)) (fd_Nodes d) \<and> distinct (node_ids d) \<and> [] \<notin> set (node_ids d)"
  by (auto simp: indexDefinitionNodes_def indexNodes_Inr node_ids_def)

lemma index_lookup:
  assumes "indexDefinitionNodes d = Inr byID"
  shows "map_of byID i = None \<longleftrightarrow> i \<notin> set (node_ids d)"
    and "map fst byID = node_ids d"
  using assms by (auto simp: indexDefinitionNodes_Inr map_of_eq_None_iff node_ids_def image_image)

section \<open>The dependency edges\<close>

definition static_deps :: "flow_edge list \<Rightarrow> (string \<times> string) set" where
  "static_deps es = {(e_To e, e_From e) | e. e \<in> set es \<and>
     normalizeEdgeType (e_EdgeType e) \<in> {''data_dependency'', ''handoff''}}"

lemma succs_add_dep: "succs (add_dep g t f) k = (if k = t then succs g t @ [f] else succs g k)"
proof -
  have "map_of (map (\<lambda>(k, ds). (k, if k = t then ds @ [f] else ds)) g) k =
      map_option (\<lambda>ds. if k = t then ds @ [f] else ds) (map_of g k)"
    by (induction g) auto
  then show ?thesis
    by (auto simp: succs_def add_dep_def map_add_def split: option.splits)
qed

lemma edges_of_add_dep: "edges_of (add_dep g t f) = insert (t, f) (edges_of g)"
  by (auto simp: edges_of_def succs_add_dep split: if_splits)

lemma validateDependencyEdge_cases:
  assumes "validateDependencyEdge byID g e = Inr g'"
  obtains "map_of byID (e_From e) \<noteq> None" "map_of byID (e_To e) \<noteq> None"
      "normalizeEdgeType (e_EdgeType e) \<in> {''data_dependency'', ''handoff''}" "g' = add_dep g (e_To e) (e_From e)"
  | "map_of byID (e_From e) \<noteq> None" "map_of byID (e_To e) \<noteq> None"
      "normalizeEdgeType (e_EdgeType e) = ''condition''" "g' = g"
  using assms unfolding validateDependencyEdge_def Let_def
  by (simp split: if_splits option.splits)

lemma validateDependencyEdge_Inr:
  assumes "validateDependencyEdge byID g e = Inr g'"
  shows "e_From e \<in> set (map fst byID) \<and> e_To e \<in> set (map fst byID) \<and>
    edges_of g' = edges_of g \<union> static_deps [e] \<and>
    normalizeEdgeType (e_EdgeType e) \<in> {''data_dependency'', ''handoff'', ''condition''}"
  using assms
proof (cases rule: validateDependencyEdge_cases)
  case 1
  then have "e_From e \<in> set (map fst byID)" "e_To e \<in> set (map fst byID)"
    by (simp_all add: map_of_eq_None_iff)
  with 1 show ?thesis
    by (auto simp: static_deps_def edges_of_add_dep simp del: set_map)
next
  case 2
  have "''condition'' \<noteq> ''data_dependency''" "''condition'' \<noteq> ''handoff''" by simp_all
  with 2 show ?thesis by (simp add: map_of_eq_None_iff static_deps_def)
qed

lemma static_deps_append: "static_deps (es @ fs) = static_deps es \<union> static_deps fs"
  by (auto simp: static_deps_def)

lemma dependencyEdges_Inr:
  "each_st (validateDependencyEdge byID) g es = Inr g' \<Longrightarrow>
    (\<forall>e \<in> set es. e_From e \<in> set (map fst byID) \<and> e_To e \<in> set (map fst byID) \<and>
       normalizeEdgeType (e_EdgeType e) \<in> {''data_dependency'', ''handoff'', ''condition''}) \<and>
    edges_of g' = edges_of g \<union> static_deps es"
proof (induction es arbitrary: g)
  case Nil
  then show ?case by (simp add: static_deps_def)
next
  case (Cons e es)
  then obtain h where h: "validateDependencyEdge byID g e = Inr h"
    "each_st (validateDependencyEdge byID) h es = Inr g'" by (auto split: sum.splits)
  have "static_deps (e # es) = static_deps [e] \<union> static_deps es"
    using static_deps_append [of "[e]" es] by simp
  with Cons.IH [OF h(2)] validateDependencyEdge_Inr [OF h(1)] show ?case by auto
qed

lemma succs_empty: "succs (map (\<lambda>k. (k, [])) ks) x = []"
  by (induction ks) (auto simp: succs_def)

lemma edges_of_empty: "edges_of (map (\<lambda>k. (k, [])) ks) = {}"
  by (simp add: edges_of_def succs_empty)

text \<open>The cycle check of an edge list whose edges are fine one by one decides acyclicity.\<close>

lemma cycle_check:
  assumes "fair_range env"
    and "each_st (validateDependencyEdge byID) (map (\<lambda>k. (k, [])) (ge_range env (map fst byID))) (fd_Edges d) = Inr g"
  shows "validateDependencyEdges env d byID = None \<longleftrightarrow> acyclic (static_deps (fd_Edges d))"
    and "validateDependencyEdges env d byID \<noteq> None \<Longrightarrow>
      \<exists>c. closed_path g c \<and> validateDependencyEdges env d byID =
        Some (verr ''edges'' ''dependency cycle: %s'' [join '' -> '' c])"
proof -
  have "edges_of g = static_deps (fd_Edges d)"
    using dependencyEdges_Inr [OF assms(2)] by (simp add: edges_of_empty)
  moreover have "set (map fst g) \<subseteq> set (ge_range env (map fst g))"
    using assms(1) by (simp add: fair_range_def)
  ultimately have "findCycle env g = None \<longleftrightarrow> acyclic (static_deps (fd_Edges d))"
    using dfs_search.search_None [of g "ge_range env (map fst g)"] by (simp add: findCycle_def)
  with assms(2) show "validateDependencyEdges env d byID = None \<longleftrightarrow> acyclic (static_deps (fd_Edges d))"
    by (cases "findCycle env g") (simp_all add: validateDependencyEdges_def)
  show "validateDependencyEdges env d byID \<noteq> None \<Longrightarrow>
      \<exists>c. closed_path g c \<and> validateDependencyEdges env d byID =
        Some (verr ''edges'' ''dependency cycle: %s'' [join '' -> '' c])"
    using assms(2) dfs_search.search_Some [of g "ge_range env (map fst g)"]
    by (auto simp: validateDependencyEdges_def findCycle_def split: option.splits)
qed

lemma validateDependencyEdges_None:
  assumes "fair_range env" "validateDependencyEdges env d byID = None"
  shows "acyclic (static_deps (fd_Edges d))"
    and "\<forall>e \<in> set (fd_Edges d). e_From e \<in> set (map fst byID) \<and> e_To e \<in> set (map fst byID) \<and>
       normalizeEdgeType (e_EdgeType e) \<in> {''data_dependency'', ''handoff'', ''condition''}"
proof -
  obtain g where g: "each_st (validateDependencyEdge byID)
      (map (\<lambda>k. (k, [])) (ge_range env (map fst byID))) (fd_Edges d) = Inr g"
    using assms(2) by (auto simp: validateDependencyEdges_def split: sum.splits)
  show "acyclic (static_deps (fd_Edges d))" using cycle_check(1) [OF assms(1) g] assms(2) by simp
  show "\<forall>e \<in> set (fd_Edges d). e_From e \<in> set (map fst byID) \<and> e_To e \<in> set (map fst byID) \<and>
       normalizeEdgeType (e_EdgeType e) \<in> {''data_dependency'', ''handoff'', ''condition''}"
    using dependencyEdges_Inr [OF g] by blast
qed


section \<open>What an accepted definition satisfies\<close>

lemma Validate_None:
  assumes "Validate env (Some d) = None"
  obtains byID where "indexDefinitionNodes d = Inr byID" "validateDefinitionHeader (Some d) = None"
    "validateFlowOutputSources d byID = None" "validateStaticNodes env d byID = None"
    "validateDependencyEdges env d byID = None" "validateSessionWorkflow env d byID = None"
    "validateExpandedNodeLimit d = None"
  using assms by (auto simp: Validate_def andthen_None split: sum.splits)

definition branch_ok :: "string list \<Rightarrow> flow_node \<Rightarrow> bool" where
  "branch_ok ids n \<longleftrightarrow> (\<exists>b. n_Branch n = Some b \<and> b_Cases b \<noteq> [] \<and> trim_space (b_DefaultTo b) \<in> set ids \<and>
     (\<forall>c \<in> set (b_Cases b). trim_space (bc_To c) \<in> set ids \<and> \<not> ConditionEmpty (bc_Condition c)))"

definition loop_ok :: "string list \<Rightarrow> flow_node \<Rightarrow> bool" where
  "loop_ok ids n \<longleftrightarrow> (\<exists>l. n_Loop n = Some l \<and> l_Body l \<noteq> [] \<and> 1 \<le> l_MaxIterations l \<and>
     \<not> ConditionEmpty (l_ExitWhen l) \<and> (\<forall>i \<in> set (l_Body l). trim_space i \<in> set ids))"

lemma validateBranch_None:
  "validateBranch b p byID = None \<Longrightarrow> b_Cases b \<noteq> [] \<and> map_of byID (trim_space (b_DefaultTo b)) \<noteq> None \<and>
    (\<forall>c \<in> set (b_Cases b). map_of byID (trim_space (bc_To c)) \<noteq> None \<and> \<not> ConditionEmpty (bc_Condition c))"
  by (simp add: validateBranch_def andthen_None check_None each_i_None Let_def split: if_splits)
     (metis in_set_conv_nth option.distinct(1))

lemma validateLoop_None:
  "validateLoop l p byID = None \<Longrightarrow> l_Body l \<noteq> [] \<and> 1 \<le> l_MaxIterations l \<and> \<not> ConditionEmpty (l_ExitWhen l) \<and>
    (\<forall>i \<in> set (l_Body l). map_of byID (trim_space i) \<noteq> None)"
  by (simp add: validateLoop_def andthen_None check_None each_None split: if_splits)

lemma validateStaticNode_None:
  assumes "validateStaticNode env d n byID = None"
  shows "normalizeKind (n_Kind n) \<noteq> []"
    and "0 \<le> n_TimeoutSec n \<and> n_TimeoutSec n \<le> MaxTimeoutSeconds"
    and "validateVarRefs (n_Prompt n) (''nodes['' @ n_ID n @ '']'' @ ''.prompt'') d byID (allow_session d) = None"
    and "validateNodeKindSpec env n (normalizeKind (n_Kind n)) (''nodes['' @ n_ID n @ '']'') d byID = None"
    and "normalizeKind (n_Kind n) \<in> {''step'', ''llm'', ''decision'', ''human''} \<Longrightarrow> \<not> blank (n_Prompt n)"
  using assms by (auto simp: validateStaticNode_def andthen_None Let_def split: if_splits)

lemma index_known:
  assumes "indexDefinitionNodes d = Inr byID" "map_of byID i \<noteq> None" shows "i \<in> set (node_ids d)"
  using assms index_lookup(1) [OF assms(1), of i] by simp

lemma static_node_targets:
  assumes "indexDefinitionNodes d = Inr byID" "validateStaticNode env d n byID = None"
  shows "normalizeKind (n_Kind n) = ''branch'' \<Longrightarrow> branch_ok (node_ids d) n"
    and "normalizeKind (n_Kind n) = ''loop'' \<Longrightarrow> loop_ok (node_ids d) n"
  using validateStaticNode_None(4) [OF assms(2)] index_known [OF assms(1)]
  by (auto simp: validateNodeKindSpec_def branch_ok_def loop_ok_def
      dest!: validateBranch_None validateLoop_None split: option.splits)

definition references :: "flow_definition \<Rightarrow> bool \<Rightarrow> string \<Rightarrow> bool" where
  "references d session expr \<longleftrightarrow>
    (case split_char CHR ''.'' expr of
       a # b # rest \<Rightarrow>
         a = ''inputs'' \<and> (\<exists>v \<in> set (fd_Inputs d). trim_space (v_Name v) = b) \<or>
         a = ''nodes'' \<and> (\<exists>n field more. n \<in> set (fd_Nodes d) \<and> trim_space (n_ID n) = b \<and>
            rest = ''outputs'' # field # more \<and> nodeOutputsField n field) \<or>
         a = ''event'' \<and> session \<and> b \<in> set event_fields \<or>
         a = ''session'' \<and> session \<and> b \<in> {''id'', ''state'', ''version''}
     | _ \<Rightarrow> False)"

lemma index_member:
  "indexDefinitionNodes d = Inr byID \<Longrightarrow> map_of byID i = Some n \<Longrightarrow> n \<in> set (fd_Nodes d) \<and> trim_space (n_ID n) = i"
  by (auto simp: indexDefinitionNodes_Inr dest: map_of_SomeD)

lemma varRef_resolves:
  assumes "indexDefinitionNodes d = Inr byID" "varRef_err expr p d byID session = None"
  shows "references d session expr"
proof -
  define segs where "segs = split_char CHR ''.'' expr"
  have "\<not> length segs < 2" using assms(2) by (auto simp: varRef_err_def segs_def Let_def)
  then obtain a b rest where s: "segs = a # b # rest"
    by (cases segs; cases "tl segs") auto
  have long: "\<not> length rest < 2 \<Longrightarrow> rest ! 0 = x \<Longrightarrow> \<exists>y ys. rest = x # y # ys" for x
    by (cases rest; cases "tl rest") auto
  have dist: "''nodes'' \<noteq> ''inputs''" "''event'' \<noteq> ''inputs''" "''event'' \<noteq> ''nodes''"
    "''session'' \<noteq> ''inputs''" "''session'' \<noteq> ''nodes''" "''session'' \<noteq> ''event''" by simp_all
  from assms(2) s consider "a = ''inputs''" "flowVarDefExists (fd_Inputs d) b"
    | n where "a = ''nodes''" "map_of byID b = Some n" "\<not> length rest < 2" "rest ! 0 = ''outputs''"
        "nodeOutputsField n (rest ! 1)"
    | "a = ''event''" "session" "b \<in> set event_fields"
    | "a = ''session''" "session" "b \<in> {''id'', ''state'', ''version''}"
    unfolding varRef_err_def Let_def segs_def [symmetric]
    by (simp add: check_None dist split: if_splits option.splits)
  then show ?thesis
  proof cases
    case 2
    with long obtain y ys where "rest = ''outputs'' # y # ys" by blast
    with 2 index_member [OF assms(1) 2(2)] s show ?thesis
      by (auto simp: references_def segs_def)
  qed (use s in \<open>auto simp: references_def segs_def flowVarDefExists_def list_ex_iff\<close>)
qed


text \<open>The number of nodes a run may create, without wrap-around.\<close>

definition expanded_nodes :: "flow_node list \<Rightarrow> int" where
  "expanded_nodes ns = sum_list (map (\<lambda>n. 1 + (case n_Loop n of
     Some l \<Rightarrow> if l_MaxIterations l > 0 then l_MaxIterations l * int (length (l_Body l)) else 0
   | None \<Rightarrow> 0)) ns)"

lemma expanded_count_foldl:
  "0 \<le> k \<Longrightarrow> k + expanded_nodes ns < 2 ^ 63 \<Longrightarrow>
   foldl (\<lambda>expanded n.
     let expanded = wrap64 (expanded + 1) in
     case n_Loop n of
       Some l \<Rightarrow> if l_MaxIterations l > 0
                then wrap64 (expanded + wrap64 (l_MaxIterations l * int (length (l_Body l)))) else expanded
     | None \<Rightarrow> expanded) k ns = k + expanded_nodes ns"
proof (induction ns arbitrary: k)
  case (Cons n ns)
  define m where "m = (case n_Loop n of
     Some l \<Rightarrow> if l_MaxIterations l > 0 then l_MaxIterations l * int (length (l_Body l)) else 0
   | None \<Rightarrow> 0)"
  have m0: "0 \<le> m" by (auto simp: m_def split: option.splits)
  have e: "expanded_nodes (n # ns) = 1 + m + expanded_nodes ns" by (simp add: expanded_nodes_def m_def)
  have n0: "0 \<le> expanded_nodes ns"
    unfolding expanded_nodes_def by (rule sum_list_nonneg) (auto split: option.splits)
  have w: "wrap64 m = m" "wrap64 (k + 1) = k + 1" "wrap64 (k + 1 + m) = k + 1 + m"
    using Cons.prems e m0 n0 by (auto intro!: wrap64_id)
  have step: "(let expanded = wrap64 (k + 1) in
     case n_Loop n of
       Some l \<Rightarrow> if l_MaxIterations l > 0
                then wrap64 (expanded + wrap64 (l_MaxIterations l * int (length (l_Body l)))) else expanded
     | None \<Rightarrow> expanded) = k + 1 + m"
    using w by (auto simp: m_def Let_def split: option.splits)
  have "k + 1 + m + expanded_nodes ns < 2 ^ 63" using Cons.prems(2) e by simp
  with Cons.IH [of "k + 1 + m"] Cons.prems(1) m0 e show ?case by (simp only: foldl.simps step)
qed (simp add: expanded_nodes_def)

lemma expanded_limit:
  "expanded_nodes (fd_Nodes d) < 2 ^ 63 \<Longrightarrow>
   validateExpandedNodeLimit d = None \<longleftrightarrow> expanded_nodes (fd_Nodes d) \<le> MaxNodes"
  using expanded_count_foldl [of 0 "fd_Nodes d"]
  by (auto simp: validateExpandedNodeLimit_def expanded_count_def check_None)

lemma Validate_nodes:
  assumes "Validate env (Some d) = None" "n \<in> set (fd_Nodes d)"
  obtains byID where "indexDefinitionNodes d = Inr byID" "validateStaticNode env d n byID = None"
  using assms(1)
proof (rule Validate_None)
  fix byID
  assume "indexDefinitionNodes d = Inr byID" "validateStaticNodes env d byID = None"
  with assms(2) that show thesis by (auto simp: validateStaticNodes_def each_None)
qed

text \<open>
  The flow of the comment of \<open>model.go\<close>: a decision that a branch routes by its choice, with
  two routes that join in a node appended by condition edges.
\<close>

definition demo_env :: go_env where
  "demo_env = \<lparr>ge_parse_url = (\<lambda>_. Some \<lparr>pu_Scheme = ''https'', pu_Hostname = ''h'', pu_HasUser = False\<rparr>),
     ge_range = id\<rparr>"

definition mk_node :: "string \<Rightarrow> string \<Rightarrow> string \<Rightarrow> flow_node" where
  "mk_node i kind prompt = zero_node\<lparr>n_ID := i, n_Kind := kind, n_Prompt := prompt\<rparr>"

definition mk_edge :: "string \<Rightarrow> string \<Rightarrow> string \<Rightarrow> string \<Rightarrow> condition option \<Rightarrow> flow_edge" where
  "mk_edge i f t ty w = \<lparr>e_ID = i, e_From = f, e_To = t, e_EdgeType = ty, e_When = w, e_MaxIterations = 0, e_IterationKey = []\<rparr>"

definition status_cond :: "string \<Rightarrow> condition" where
  "status_cond s = Cond s [] [] [] None None None [] []"

definition choice_cond :: "string \<Rightarrow> condition" where
  "choice_cond c = Cond [] [] [] c None None None [] []"

definition mk_flow :: "flow_node list \<Rightarrow> flow_edge list \<Rightarrow> flow_definition" where
  "mk_flow ns es = \<lparr>fd_FlowID = ''fl_demo'', fd_Name = [], fd_Description = [], fd_Version = ''1'', fd_Status = ''draft'',
     fd_ExecutionMode = [], fd_SessionWorkflow = None, fd_TemplateID = [],
     fd_Inputs = [\<lparr>v_Name = ''task'', v_Type = ''string'', v_Desc = [], v_Required = False, v_Source = [], v_Schema = RawEmpty\<rparr>],
     fd_Outputs = [], fd_TimeoutSec = 0, fd_Nodes = ns, fd_Edges = es, fd_Network = None, fd_Retry = None, fd_OnComplete = None\<rparr>"

definition demo_nodes :: "flow_node list" where
  "demo_nodes =
    [mk_node ''classify'' ''step'' ''classify {{inputs.task}}'',
     (mk_node ''decide'' ''decision'' ''auto?'')\<lparr>n_Decision := Some \<lparr>d_Provider = [], d_DecisionType = ''choice'',
        d_Choices = [\<lparr>ch_ID = ''auto'', ch_Label = []\<rparr>, \<lparr>ch_ID = ''human'', ch_Label = []\<rparr>],
        d_TimeoutMS = 0, d_OnError = [], d_DefaultChoice = []\<rparr>\<rparr>,
     (mk_node ''br'' ''branch'' [])\<lparr>n_Branch := Some \<lparr>b_Cases =
        [\<lparr>bc_Name = ''auto'', bc_To = ''auto_run'', bc_Condition = choice_cond ''auto''\<rparr>,
         \<lparr>bc_Name = ''human'', bc_To = ''human_run'', bc_Condition = choice_cond ''human''\<rparr>],
        b_DefaultTo = ''auto_run''\<rparr>\<rparr>,
     mk_node ''auto_run'' ''llm'' ''reply {{ nodes.decide.outputs.choice }}'',
     (mk_node ''human_run'' ''human'' ''look'')\<lparr>n_Human := Some \<lparr>h_Queue = ''ops'', h_AssigneePolicy = ''any'',
        h_Form = JNull, h_Prompt = [], h_TimeoutMS = 0, h_OnTimeout = [], h_ResultVar = ''approved''\<rparr>\<rparr>,
     mk_node ''finalize'' ''step'' ''sum up'']"

definition demo_edges :: "flow_edge list" where
  "demo_edges =
    [mk_edge ''e1'' ''classify'' ''decide'' ''data_dependency'' None,
     mk_edge ''e2'' ''decide'' ''br'' ''data_dependency'' None,
     mk_edge ''e3'' ''auto_run'' ''finalize'' ''condition'' (Some (status_cond ''completed'')),
     mk_edge ''e4'' ''human_run'' ''finalize'' ''condition'' (Some (status_cond ''completed''))]"

definition demo_flow :: flow_definition where
  "demo_flow = mk_flow demo_nodes demo_edges"

text \<open>A loop whose iteration bound overflows the count of the expanded nodes.\<close>

definition overflow_flow :: flow_definition where
  "overflow_flow = mk_flow
    [mk_node ''a'' ''step'' ''go'', mk_node ''body'' ''step'' ''work'',
     (mk_node ''lp'' ''loop'' [])\<lparr>n_Loop := Some \<lparr>l_Body = [''body''], l_ExitWhen = status_cond ''completed'',
        l_MaxIterations = max_int64, l_IterationKey = []\<rparr>\<rparr>]
    [mk_edge ''e1'' ''a'' ''lp'' ''data_dependency'' None]"

lemma demo_fair: "fair_range demo_env"
  by (simp add: fair_range_def demo_env_def)

lemma demo_valid: "Validate demo_env (Some demo_flow) = None"
  by code_simp

lemma valid_flow_facts:
  assumes "fair_range env" and "Validate env (Some d) = None"
  shows "fd_Nodes d \<noteq> [] \<and> distinct (node_ids d) \<and> [] \<notin> set (node_ids d) \<and>
    (\<forall>e \<in> set (fd_Edges d). e_From e \<in> set (node_ids d) \<and> e_To e \<in> set (node_ids d) \<and>
       normalizeEdgeType (e_EdgeType e) \<in> {''data_dependency'', ''handoff'', ''condition''}) \<and>
    (\<forall>n \<in> set (fd_Nodes d). normalizeKind (n_Kind n) \<in> set node_kinds \<and>
       (normalizeKind (n_Kind n) = ''branch'' \<longrightarrow> branch_ok (node_ids d) n) \<and>
       (normalizeKind (n_Kind n) = ''loop'' \<longrightarrow> loop_ok (node_ids d) n)) \<and>
    acyclic (static_deps (fd_Edges d))"
  using assms(2)
proof (rule Validate_None)
  fix byID
  assume i: "indexDefinitionNodes d = Inr byID" and h: "validateDefinitionHeader (Some d) = None"
    and e: "validateDependencyEdges env d byID = None" and s: "validateStaticNodes env d byID = None"
  have n: "fd_Nodes d \<noteq> []" using h by (auto simp: validateDefinitionHeader_def split: if_splits)
  have k: "normalizeKind (n_Kind n) \<in> set node_kinds \<and>
       (normalizeKind (n_Kind n) = ''branch'' \<longrightarrow> branch_ok (node_ids d) n) \<and>
       (normalizeKind (n_Kind n) = ''loop'' \<longrightarrow> loop_ok (node_ids d) n)" if "n \<in> set (fd_Nodes d)" for n
  proof -
    have v: "validateStaticNode env d n byID = None" using s that by (simp add: validateStaticNodes_def each_None)
    show ?thesis
      using validateStaticNode_None(1) [OF v] normalizeKind_cases [of "n_Kind n"] static_node_targets [OF i v] by blast
  qed
  have "\<forall>e \<in> set (fd_Edges d). e_From e \<in> set (node_ids d) \<and> e_To e \<in> set (node_ids d) \<and>
       normalizeEdgeType (e_EdgeType e) \<in> {''data_dependency'', ''handoff'', ''condition''}"
    using validateDependencyEdges_None(2) [OF assms(1) e] unfolding index_lookup(2) [OF i] .
  with n k validateDependencyEdges_None(1) [OF assms(1) e] i [unfolded indexDefinitionNodes_Inr]
  show ?thesis by blast
qed


lemma overflow_valid: "Validate demo_env (Some overflow_flow) = None"
  by code_simp

text \<open>
  C2. A flow that \<open>Validate\<close> accepts has nodes, with ids that are neither blank nor repeated;
  every edge connects declared nodes and has a known type; every node has a known kind, every
  branch and loop node carries its specification with targets that are declared nodes; and
  the dependencies of the static edges form no cycle, so the nodes can be scheduled.
\<close>

theorem Validate_sound:
  assumes "fair_range env" and "Validate env (Some d) = None"
  shows "fd_Nodes d \<noteq> [] \<and> distinct (node_ids d) \<and> [] \<notin> set (node_ids d) \<and>
    (\<forall>e \<in> set (fd_Edges d). e_From e \<in> set (node_ids d) \<and> e_To e \<in> set (node_ids d) \<and>
       normalizeEdgeType (e_EdgeType e) \<in> {''data_dependency'', ''handoff'', ''condition''}) \<and>
    (\<forall>n \<in> set (fd_Nodes d). normalizeKind (n_Kind n) \<in> set node_kinds \<and>
       (normalizeKind (n_Kind n) = ''branch'' \<longrightarrow> branch_ok (node_ids d) n) \<and>
       (normalizeKind (n_Kind n) = ''loop'' \<longrightarrow> loop_ok (node_ids d) n)) \<and>
    acyclic (static_deps (fd_Edges d))"
  by (rule valid_flow_facts [OF assms])

theorem Validate_sound_witness:
  "Validate demo_env (Some demo_flow) = None \<and> acyclic (static_deps (fd_Edges demo_flow)) \<and>
   branch_ok (node_ids demo_flow) (demo_nodes ! 2)"
proof -
  have "normalizeKind (n_Kind (demo_nodes ! 2)) = ''branch''" by code_simp
  moreover have "demo_nodes ! 2 \<in> set (fd_Nodes demo_flow)"
    by (simp add: demo_flow_def mk_flow_def demo_nodes_def)
  ultimately show ?thesis using Validate_sound [OF demo_fair demo_valid] demo_valid by blast
qed

text \<open>
  C18. The edge check reports a dependency cycle exactly when there is one, whatever order the
  maps are ranged over in, and the path it reports is a closed path of the dependency graph.
\<close>

theorem dependency_cycle_iff:
  assumes "fair_range env"
    and "each_st (validateDependencyEdge byID) (map (\<lambda>k. (k, [])) (ge_range env (map fst byID))) (fd_Edges d) = Inr g"
  shows "(validateDependencyEdges env d byID = None \<longleftrightarrow> acyclic (static_deps (fd_Edges d))) \<and>
    (\<forall>e. validateDependencyEdges env d byID = Some e \<longrightarrow>
      (\<exists>c. closed_path g c \<and> e = verr ''edges'' ''dependency cycle: %s'' [join '' -> '' c]))"
  using cycle_check [OF assms] by fastforce

definition demo_index :: node_index where
  "demo_index = [(''a'', mk_node ''a'' ''step'' ''x''), (''b'', mk_node ''b'' ''step'' ''x'')]"

definition cyclic_flow :: flow_definition where
  "cyclic_flow = mk_flow (map snd demo_index) [mk_edge ''1'' ''a'' ''b'' [] None, mk_edge ''2'' ''b'' ''a'' [] None]"

theorem dependency_cycle_iff_witness:
  "\<not> acyclic (static_deps (fd_Edges cyclic_flow)) \<and>
   validateDependencyEdges demo_env cyclic_flow demo_index =
     Some (verr ''edges'' ''dependency cycle: %s'' [''a -> b -> a''])"
proof -
  have g: "each_st (validateDependencyEdge demo_index)
      (map (\<lambda>k. (k, [])) (ge_range demo_env (map fst demo_index))) (fd_Edges cyclic_flow) =
    Inr [(''a'', [''b'']), (''b'', [''a''])]" by code_simp
  have "validateDependencyEdges demo_env cyclic_flow demo_index =
     Some (verr ''edges'' ''dependency cycle: %s'' [''a -> b -> a''])" by code_simp
  with dependency_cycle_iff [OF demo_fair g] show ?thesis by simp
qed

text \<open>
  C21. In a flow that \<open>Validate\<close> accepts, every \<open>{{...}}\<close> reference of a node prompt names a
  declared flow input, a declared output of a declared node, or, in a session flow only, a
  known field of the event or the session.
\<close>

theorem prompt_references_resolve:
  assumes "Validate env (Some d) = None" and "n \<in> set (fd_Nodes d)" and "\<not> blank (n_Prompt n)"
    and "expr \<in> set (find_refs (n_Prompt n))"
  shows "references d (EffectiveExecutionMode (fd_ExecutionMode d) = ''session'') (trim_space expr)"
proof -
  obtain byID where i: "indexDefinitionNodes d = Inr byID" and v: "validateStaticNode env d n byID = None"
    using Validate_nodes [OF assms(1,2)] by blast
  have "varRef_err (trim_space expr) (''nodes['' @ n_ID n @ '']'' @ ''.prompt'') d byID (allow_session d) = None"
    using validateStaticNode_None(3) [OF v] assms(3,4) by (simp add: validateVarRefs_def each_None)
  with varRef_resolves [OF i] show ?thesis by (simp add: allow_session_def)
qed

theorem prompt_references_resolve_witness:
  "find_refs (n_Prompt (demo_nodes ! 3)) = [''nodes.decide.outputs.choice''] \<and>
   references demo_flow (EffectiveExecutionMode (fd_ExecutionMode demo_flow) = ''session'')
     (trim_space ''nodes.decide.outputs.choice'')"
proof -
  have r: "find_refs (n_Prompt (demo_nodes ! 3)) = [''nodes.decide.outputs.choice'']"
    "\<not> blank (n_Prompt (demo_nodes ! 3))" by code_simp+
  have m: "demo_nodes ! 3 \<in> set (fd_Nodes demo_flow)"
    by (simp add: demo_flow_def mk_flow_def demo_nodes_def)
  show ?thesis using prompt_references_resolve [OF demo_valid m r(2)] r(1) by simp
qed

text \<open>
  As long as the true expanded node count fits in 63 bits, the cap check accepts a flow
  exactly when a run can create at most 64 nodes, counting every loop with all its iterations.
\<close>

theorem node_cap_exact:
  assumes "expanded_nodes (fd_Nodes d) < 2 ^ 63"
  shows "validateExpandedNodeLimit d = None \<longleftrightarrow> expanded_nodes (fd_Nodes d) \<le> MaxNodes"
  by (rule expanded_limit [OF assms])

theorem node_cap_exact_witness:
  "validateExpandedNodeLimit demo_flow = None \<and> expanded_nodes (fd_Nodes demo_flow) = 6"
proof -
  have e: "expanded_nodes (fd_Nodes demo_flow) = 6" by code_simp
  with node_cap_exact [of demo_flow] show ?thesis by (simp add: MaxNodes_def)
qed

text \<open>
  The cap is not safe against overflow: the count is kept in a 64-bit integer, and a flow
  with a loop of 2^63 - 1 iterations over one body node makes it negative, so that \<open>Validate\<close>
  accepts a flow whose run may create far more than 64 nodes.
\<close>

theorem node_cap_overflow:
  "Validate demo_env (Some overflow_flow) = None \<and> expanded_nodes (fd_Nodes overflow_flow) > MaxNodes"
  using overflow_valid by simp code_simp


section \<open>Session regions\<close>

definition session_edges :: "flow_edge list \<Rightarrow> (string \<times> string) set" where
  "session_edges es = {(e_From e, e_To e) | e. e \<in> set es \<and> normalizeEdgeType (e_EdgeType e) \<noteq> ''condition''}"

lemma edges_of_foldl_add_dep:
  "edges_of (foldl (\<lambda>g e. add_dep g (t e) (f e)) g es) = edges_of g \<union> {(t e, f e) | e. e \<in> set es}"
  by (induction es arbitrary: g) (auto simp: edges_of_add_dep)

lemma edges_of_Nil [simp]: "edges_of [] = {}"
  by (simp add: edges_of_def succs_def)

lemma edges_of_outgoing: "edges_of (outgoing_of es) = session_edges es"
  by (auto simp: outgoing_of_def edges_of_foldl_add_dep session_edges_def static_edges_def)

lemma edges_of_incoming: "edges_of (incoming_of es) = (session_edges es)\<inverse>"
  by (auto simp: incoming_of_def edges_of_foldl_add_dep session_edges_def static_edges_def)

text \<open>Checking the routes of the branch nodes only adds to the nodes of the region.\<close>

lemma claim_chain_region:
  "claimSessionBranchChain env b chain path rs = Inr rs' \<Longrightarrow> set (rs_regionNodes rs) \<subseteq> set (rs_regionNodes rs')"
  unfolding claimSessionBranchChain_def
  by (erule each_st_invariant) (auto split: option.splits if_splits)

lemma branch_node_region:
  assumes "validateSessionBranchNode env byID inc out region b spec path delivery rs = Inr rs'"
  shows "set (rs_regionNodes rs) \<subseteq> set (rs_regionNodes rs')"
proof -
  from assms obtain ts rc where
    "each_st (branchTarget_step env byID out b path delivery) (rs, []) ts = Inr (rs', rc)"
    by (auto simp: validateSessionBranchNode_def split: sum.splits option.splits)
  then have "set (rs_regionNodes rs) \<subseteq> set (rs_regionNodes (fst (rs', rc)))"
  proof (rule each_st_invariant)
    fix st x st'
    assume "set (rs_regionNodes rs) \<subseteq> set (rs_regionNodes (fst st))"
      and "branchTarget_step env byID out b path delivery st x = Inr st'"
    then show "set (rs_regionNodes rs) \<subseteq> set (rs_regionNodes (fst st'))"
      by (auto simp: branchTarget_step_def Let_def dest!: claim_chain_region
          split: prod.splits sum.splits option.splits if_splits) blast
  qed simp
  then show ?thesis by simp
qed

lemma branch_routes_region:
  "validateSessionBranchRoutes env byID inc out region path delivery rs = Inr rs' \<Longrightarrow>
   set (rs_regionNodes rs) \<subseteq> set (rs_regionNodes rs')"
  unfolding validateSessionBranchRoutes_def
  by (erule each_st_invariant)
     (auto simp: Let_def dest!: branch_node_region split: if_splits option.splits)

lemma validateSessionRegion_None:
  assumes "validateSessionRegion env d byID entry path delivery = None"
  obtains rs :: route_state where "succs (incoming_of (fd_Edges d)) entry = []"
    "validateSessionRegionNodes env d byID (incoming_of (fd_Edges d)) (reach (outgoing_of (fd_Edges d)) entry) path delivery = None"
    "set (reach (outgoing_of (fd_Edges d)) entry) \<subseteq> set (rs_regionNodes rs)"
    "validateSessionRegionConditionEdges (fd_Edges d) (rs_regionNodes rs) path = None"
proof -
  let ?r = "reach (outgoing_of (fd_Edges d)) entry"
  from assms have e: "succs (incoming_of (fd_Edges d)) entry = []"
    by (auto simp: validateSessionRegion_def buildSessionRegionGraph_def Let_def split: if_splits)
  with assms obtain rs where
    a: "validateSessionRegionNodes env d byID (incoming_of (fd_Edges d)) ?r path delivery = None"
    and b: "validateSessionBranchRoutes env byID (incoming_of (fd_Edges d)) (outgoing_of (fd_Edges d)) ?r path delivery
       \<lparr>rs_targetOwners = [], rs_chainOwners = [], rs_regionNodes = ?r\<rparr> = Inr rs"
    and c: "validateSessionRegionConditionEdges (fd_Edges d) (rs_regionNodes rs) path = None"
    by (auto simp: validateSessionRegion_def buildSessionRegionGraph_def Let_def andthen_None split: sum.splits)
  show thesis by (rule that [OF e a _ c]) (use branch_routes_region [OF b] in simp)
qed

lemma region_node_kind:
  assumes "validateSessionRegionNode d byID inc region n path delivery = None"
  shows "normalizeKind (n_Kind (node_at byID n)) \<in> {''function'', ''service'', ''llm'', ''step'', ''branch''}"
    and "normalizeKind (n_Kind (node_at byID n)) = ''step'' \<Longrightarrow> delivery = ''durable''"
    and "set (succs inc n) \<subseteq> set region"
  using assms
  by (auto simp: validateSessionRegionNode_def Let_def andthen_None check_None each_None split: if_splits)

text \<open>
  C20. The region of an accepted session trigger is exactly what its entry node reaches over
  the static edges. It is closed: the entry has no static predecessor, every static
  predecessor of a region node is in the region, no condition edge touches it; and every
  region node has a kind the session runtime runs, agent steps only under durable delivery.
\<close>

theorem session_region_closed:
  assumes "fair_range env" and "validateSessionRegion env d byID entry path delivery = None"
    and "R = {n. (entry, n) \<in> (session_edges (fd_Edges d))\<^sup>*}"
  shows "(\<forall>m. (m, entry) \<notin> session_edges (fd_Edges d)) \<and>
    (\<forall>m n. n \<in> R \<longrightarrow> (m, n) \<in> session_edges (fd_Edges d) \<longrightarrow> m \<in> R) \<and>
    (\<forall>e \<in> set (fd_Edges d). normalizeEdgeType (e_EdgeType e) = ''condition'' \<longrightarrow> e_From e \<notin> R \<and> e_To e \<notin> R) \<and>
    (\<forall>n \<in> R. normalizeKind (n_Kind (node_at byID n)) \<in> {''function'', ''service'', ''llm'', ''step'', ''branch''} \<and>
       (normalizeKind (n_Kind (node_at byID n)) = ''step'' \<longrightarrow> delivery = ''durable''))"
  using assms(2)
proof (rule validateSessionRegion_None)
  fix rs :: route_state
  let ?r = "reach (outgoing_of (fd_Edges d)) entry"
  assume e: "succs (incoming_of (fd_Edges d)) entry = []"
    and n: "validateSessionRegionNodes env d byID (incoming_of (fd_Edges d)) ?r path delivery = None"
    and s: "set ?r \<subseteq> set (rs_regionNodes rs)"
    and c: "validateSessionRegionConditionEdges (fd_Edges d) (rs_regionNodes rs) path = None"
  have R: "R = set ?r" using assms(3) reach_iff [of _ "outgoing_of (fd_Edges d)" entry] by (auto simp: edges_of_outgoing)
  have inc: "y \<in> set (succs (incoming_of (fd_Edges d)) x) \<longleftrightarrow> (y, x) \<in> session_edges (fd_Edges d)" for x y
    using edges_of_incoming [of "fd_Edges d"] by (auto simp: edges_of_def)
  have nodes: "validateSessionRegionNode d byID (incoming_of (fd_Edges d)) ?r x path delivery = None" if "x \<in> R" for x
    using n that assms(1) by (simp add: validateSessionRegionNodes_def each_None R fair_range_def)
  have "\<forall>m. (m, entry) \<notin> session_edges (fd_Edges d)" using e inc [of _ entry] by simp
  moreover have "m \<in> R" if "x \<in> R" "(m, x) \<in> session_edges (fd_Edges d)" for m x
    using region_node_kind(3) [OF nodes [OF that(1)]] that(2) inc R by blast
  moreover have "\<forall>e \<in> set (fd_Edges d). normalizeEdgeType (e_EdgeType e) = ''condition'' \<longrightarrow> e_From e \<notin> R \<and> e_To e \<notin> R"
    using c s R by (auto simp: validateSessionRegionConditionEdges_def each_None check_None)
  ultimately show ?thesis using region_node_kind(1,2) [OF nodes] by blast
qed

definition session_nodes :: "flow_node list" where
  "session_nodes = map (\<lambda>i. (mk_node i ''function'' [])\<lparr>n_Function := Some \<lparr>f_Runtime = ''js'', f_Source = ''x'',
     f_Ref = [], f_Handler = [], f_InputSchema = RawEmpty, f_OutputSchema = RawEmpty\<rparr>\<rparr>) [''f1'', ''f2'']"

definition session_flow :: flow_definition where
  "session_flow = (mk_flow session_nodes [mk_edge ''1'' ''f1'' ''f2'' ''handoff'' None])\<lparr>fd_ExecutionMode := ''Session'',
     fd_SessionWorkflow := Some \<lparr>sw_Triggers = [\<lparr>st_EventType = ''tick'', st_EntryNode = ''f1'', st_Delivery = ''latest_wins'',
       st_LaneID = ''main''\<rparr>], sw_Lanes = [\<lparr>sl_ID = ''main'', sl_Cadence = ''periodic'', sl_IntervalMS = 100,
       sl_DeadlineMS = 1000, sl_Class = ''fast'', sl_OverloadPolicy = ''drop_newest''\<rparr>]\<rparr>\<rparr>"

theorem session_region_closed_witness:
  "Validate demo_env (Some session_flow) = None \<and>
   (\<forall>m. (m, ''f1'') \<notin> session_edges (fd_Edges session_flow)) \<and>
   normalizeKind (n_Kind (node_at (map (\<lambda>n. (n_ID n, n)) session_nodes) ''f2'')) \<in>
     {''function'', ''service'', ''llm'', ''step'', ''branch''}"
proof -
  let ?i = "map (\<lambda>n. (n_ID n, n)) session_nodes" and ?R = "{n. (''f1'', n) \<in> (session_edges (fd_Edges session_flow))\<^sup>*}"
  have r: "validateSessionRegion demo_env session_flow ?i ''f1'' ''t'' ''latest_wins'' = None"
    and v: "Validate demo_env (Some session_flow) = None" by code_simp+
  have "mk_edge ''1'' ''f1'' ''f2'' ''handoff'' None \<in> set (fd_Edges session_flow)"
    by (simp add: session_flow_def mk_flow_def)
  moreover have "normalizeEdgeType ''handoff'' \<noteq> ''condition''" by code_simp
  ultimately have "(''f1'', ''f2'') \<in> session_edges (fd_Edges session_flow)"
    unfolding session_edges_def by (force simp: mk_edge_def)
  then have "''f2'' \<in> ?R" by blast
  with v session_region_closed [OF demo_fair r refl] show ?thesis by blast
qed

end
