(* ===== verification/Flow_Compile.thy ===== *)
theory Flow_Compile
  imports Flow_Validate "HOL-Library.Multiset"
begin

text \<open>
  The compiler from flow definitions to engine nodes and control-flow edges
  (\<open>src/internal/core/flow/compile.go\<close>). Maps of compiled nodes are association lists;
  the scan over the iterations of a loop is the only loop of the compiler that may not end,
  so it is a partial function and the compiler's result is an option. The digest (SHA-256 of
  the JSON of the compiled parts) is a parameter, a function of what is hashed.
\<close>

section \<open>Compiled flows\<close>

record compiled_branch_case =
  cbc_Name :: string
  cbc_To :: string
  cbc_Condition :: condition

record compiled_branch =
  cb_Source :: string
  cb_Cases :: "compiled_branch_case list"
  cb_DefaultTo :: string

record compiled_node =
  cn_ID :: string
  cn_Kind :: string
  cn_Title :: string
  cn_Prompt :: string
  cn_AgentType :: string
  cn_AgentRef :: string
  cn_WriteScope :: "string list"
  cn_TimeoutSec :: int
  cn_DependsOn :: "string list"
  cn_HandoffFrom :: "string list"
  cn_Retry :: "retry_policy option"
  cn_Decision :: "decision_spec option"
  cn_Human :: "human_spec option"
  cn_Branch :: "compiled_branch option"
  cn_Function :: "function_spec option"
  cn_Service :: "service_spec option"
  cn_Outputs :: "var_def list"
  cn_PreScript :: string
  cn_PostScript :: string

record compiled_edge =
  ce_ID :: string
  ce_From :: string
  ce_FromPrefix :: string
  ce_When :: condition
  ce_Append :: compiled_node
  ce_MaxIterations :: int
  ce_IterationKey :: string

record compiled =
  co_FlowID :: string
  co_Version :: string
  co_ExecutionMode :: string
  co_SessionWorkflow :: "session_workflow_spec option"
  co_TimeoutSec :: int
  co_Inputs :: "var_def list"
  co_Outputs :: "var_def list"
  co_Nodes :: "compiled_node list"
  co_Edges :: "compiled_edge list"
  co_Digest :: string
  co_Network :: "network_policy option"

record digest_payload =
  dp_ExecutionMode :: string
  dp_SessionWorkflow :: "session_workflow_spec option"
  dp_TimeoutSec :: int
  dp_Inputs :: "var_def list"
  dp_Outputs :: "var_def list"
  dp_Network :: "network_policy option"
  dp_Nodes :: "compiled_node list"
  dp_Edges :: "compiled_edge list"

section \<open>Sources, routes and templates\<close>

definition appendUnique :: "string list \<Rightarrow> string \<Rightarrow> string list" where
  "appendUnique items v0 =
    (let v = trim_space v0 in if v = [] \<or> v \<in> set items then items else items @ [v])"

fun branchSource_from :: "string \<Rightarrow> string \<Rightarrow> flow_edge list \<Rightarrow> string" where
  "branchSource_from i src [] = src"
| "branchSource_from i src (e # es) =
    (if normalizeEdgeType (e_EdgeType e) = ''data_dependency'' \<and> e_To e = i
     then (if src \<noteq> [] \<and> src \<noteq> e_From e then [] else branchSource_from i (e_From e) es)
     else branchSource_from i src es)"

definition branchSource :: "string \<Rightarrow> flow_edge list \<Rightarrow> string" where
  "branchSource i es = branchSource_from i [] es"

definition branchRoute :: "branch_case \<Rightarrow> string" where
  "branchRoute c = (if blank (bc_Name c) then bc_To c else trim_space (bc_Name c))"

definition compileBranch :: "branch_spec \<Rightarrow> compiled_branch" where
  "compileBranch b = \<lparr>cb_Source = [],
     cb_Cases = map (\<lambda>c. \<lparr>cbc_Name = branchRoute c, cbc_To = bc_To c, cbc_Condition = bc_Condition c\<rparr>) (b_Cases b),
     cb_DefaultTo = b_DefaultTo b\<rparr>"

definition lower_node :: "flow_node \<Rightarrow> string \<Rightarrow> compiled_node" where
  "lower_node n kind = \<lparr>cn_ID = n_ID n, cn_Kind = kind, cn_Title = n_Title n, cn_Prompt = n_Prompt n,
     cn_AgentType = n_AgentType n, cn_AgentRef = n_AgentRef n, cn_WriteScope = n_WriteScope n,
     cn_TimeoutSec = n_TimeoutSec n, cn_DependsOn = [], cn_HandoffFrom = [], cn_Retry = n_Retry n,
     cn_Decision = n_Decision n, cn_Human = n_Human n, cn_Branch = None, cn_Function = n_Function n,
     cn_Service = n_Service n, cn_Outputs = n_Outputs n, cn_PreScript = n_PreScript n,
     cn_PostScript = n_PostScript n\<rparr>"

definition compileTemplate :: "flow_node \<Rightarrow> compiled_node" where
  "compileTemplate n =
    (let kind = normalizeKind (n_Kind n)
     in lower_node n (if kind = ''branch'' \<or> kind = ''loop'' then [] else kind))"

definition compile_index :: "flow_definition \<Rightarrow> node_index" where
  "compile_index d = rev (map (\<lambda>n. (n_ID n, n)) (fd_Nodes d))"

section \<open>Static nodes\<close>

definition node_append_targets :: "flow_definition \<Rightarrow> flow_node \<Rightarrow> string list" where
  "node_append_targets d n =
    (if normalizeKind (n_Kind n) = ''branch'' then
       (case n_Branch n of None \<Rightarrow> [] | Some b \<Rightarrow> map bc_To (b_Cases b) @ [b_DefaultTo b])
     else if normalizeKind (n_Kind n) = ''loop'' then
       (case n_Loop n of None \<Rightarrow> []
        | Some l \<Rightarrow> l_Body l @ map e_To (filter (\<lambda>e. e_From e = n_ID n \<and>
            normalizeEdgeType (e_EdgeType e) \<noteq> ''condition'') (fd_Edges d)))
     else [])"

definition collectCompileTargets :: "flow_definition \<Rightarrow> string list \<times> dep_graph" where
  "collectCompileTargets d =
    (map e_To (filter (\<lambda>e. normalizeEdgeType (e_EdgeType e) = ''condition'') (fd_Edges d)) @
       concat (map (node_append_targets d) (fd_Nodes d)),
     foldl (\<lambda>g e. if normalizeEdgeType (e_EdgeType e) \<in> set [''data_dependency'', ''handoff'']
                  then add_dep g (e_To e) (e_From e) else g) [] (fd_Edges d))"

definition compile_branch_node :: "flow_definition \<Rightarrow> flow_node \<Rightarrow> go_error + compiled_node" where
  "compile_branch_node d n =
    (let kind = normalizeKind (n_Kind n); cn = lower_node n kind in
     if kind = ''branch'' then
       (case n_Branch n of
          None \<Rightarrow> Inr cn
        | Some b \<Rightarrow>
            let src = branchSource (n_ID n) (fd_Edges d) in
            if src = [] then Inl (Errorf ''branch %s: requires exactly one data_dependency source'' [n_ID n])
            else Inr (cn\<lparr>cn_Branch := Some ((compileBranch b)\<lparr>cb_Source := src\<rparr>)\<rparr>))
     else Inr cn)"

definition compileStaticNode ::
  "flow_definition \<Rightarrow> node_index \<Rightarrow> string list \<Rightarrow> dep_graph \<Rightarrow> compiled_node list \<Rightarrow> flow_node \<Rightarrow>
     go_error + compiled_node list" where
  "compileStaticNode d byID appendTargets staticIn nodes n =
    (let kind = normalizeKind (n_Kind n) in
     if kind = ''loop'' then Inr nodes
     else if kind \<noteq> ''branch'' \<and> n_ID n \<in> set appendTargets then
       (if list_ex (\<lambda>from. normalizeKind (n_Kind (node_at byID from)) \<noteq> ''loop'') (succs staticIn (n_ID n))
        then Inl (Errorf ''node %s: mixed use as static target and append target is not supported in F1a'' [n_ID n])
        else Inr nodes)
     else map_sum id (\<lambda>cn. nodes @ [cn]) (compile_branch_node d n))"

definition compileStaticNodes ::
  "flow_definition \<Rightarrow> node_index \<Rightarrow> string list \<Rightarrow> dep_graph \<Rightarrow> go_error + compiled_node list" where
  "compileStaticNodes d byID appendTargets staticIn =
    each_st (compileStaticNode d byID appendTargets staticIn) [] (fd_Nodes d)"

text \<open>
  The source keeps the compiled nodes twice, as a list and as a map by id, folds the edges
  into the map and copies the map back to the list (\<open>syncCompiledNodes\<close>). The ids are unique,
  so the model folds the edges into the entry of the list with the id.
\<close>

definition is_loop_at :: "node_index \<Rightarrow> string \<Rightarrow> bool" where
  "is_loop_at byID i \<longleftrightarrow> n_ID (node_at byID i) \<noteq> [] \<and> normalizeKind (n_Kind (node_at byID i)) = ''loop''"

definition foldStaticEdge :: "node_index \<Rightarrow> compiled_node list \<Rightarrow> flow_edge \<Rightarrow> go_error + compiled_node list" where
  "foldStaticEdge byID nodes e =
    (let et = normalizeEdgeType (e_EdgeType e) in
     if et = ''data_dependency'' \<or> et = ''handoff'' then
       (if is_loop_at byID (e_To e) \<or> is_loop_at byID (e_From e) then Inr nodes
        else if e_To e \<notin> set (map cn_ID nodes) then
          Inl (Errorf ''edge %s: static edge into append-only node %q'' [e_ID e, e_To e])
        else Inr (map (\<lambda>cn. if cn_ID cn = e_To e
               then cn\<lparr>cn_DependsOn := appendUnique (cn_DependsOn cn) (e_From e),
                       cn_HandoffFrom := (if et = ''handoff'' then appendUnique (cn_HandoffFrom cn) (e_From e)
                                          else cn_HandoffFrom cn)\<rparr>
               else cn) nodes))
     else Inr nodes)"

definition foldStaticEdges :: "flow_edge list \<Rightarrow> node_index \<Rightarrow> compiled_node list \<Rightarrow> go_error + compiled_node list" where
  "foldStaticEdges es byID nodes = each_st (foldStaticEdge byID) nodes es"

section \<open>Control-flow edges\<close>

definition compileConditionEdge :: "node_index \<Rightarrow> compiled_edge list \<Rightarrow> flow_edge \<Rightarrow> go_error + compiled_edge list" where
  "compileConditionEdge byID edges e =
    (if normalizeEdgeType (e_EdgeType e) \<noteq> ''condition'' then Inr edges
     else if normalizeKind (n_Kind (node_at byID (e_From e))) = ''loop'' then
       Inl (Errorf ''loop %s: condition edges from loop nodes are not supported; connect loop exits with data_dependency or handoff edges'' [e_From e])
     else (case map_of byID (e_To e) of
       None \<Rightarrow> Inl (Errorf ''edge %s: unknown target %q'' [e_ID e, e_To e])
     | Some toNode \<Rightarrow>
         (case e_When e of
            None \<Rightarrow> Inl Panic
          | Some w \<Rightarrow> Inr (edges @ [\<lparr>ce_ID = (if e_ID e = [] then ''edge_'' @ e_From e @ ''_to_'' @ e_To e else e_ID e),
              ce_From = e_From e, ce_FromPrefix = [], ce_When = w, ce_Append = compileTemplate toNode,
              ce_MaxIterations = e_MaxIterations e, ce_IterationKey = e_IterationKey e\<rparr>]))))"

definition compileConditionEdges :: "flow_definition \<Rightarrow> node_index \<Rightarrow> go_error + compiled_edge list" where
  "compileConditionEdges d byID = each_st (compileConditionEdge byID) [] (fd_Edges d)"

definition route_cond :: "string \<Rightarrow> condition" where
  "route_cond route = Cond [] [] [] route None None None [] []"

definition route_edge :: "string \<Rightarrow> string \<Rightarrow> string \<Rightarrow> flow_node \<Rightarrow> compiled_edge" where
  "route_edge i from route target = \<lparr>ce_ID = i, ce_From = from, ce_FromPrefix = [], ce_When = route_cond route,
     ce_Append = compileTemplate target, ce_MaxIterations = 0, ce_IterationKey = []\<rparr>"

fun branchCaseEdges :: "node_index \<Rightarrow> string \<Rightarrow> nat \<Rightarrow> branch_case list \<Rightarrow> go_error + compiled_edge list" where
  "branchCaseEdges byID branchID i [] = Inr []"
| "branchCaseEdges byID branchID i (c # cs) =
    (case map_of byID (bc_To c) of
       None \<Rightarrow> Inl (Errorf ''branch %s: case %d unknown target %q'' [branchID, itoa (int i), bc_To c])
     | Some target \<Rightarrow>
         map_sum id ((#) (route_edge (branchID @ ''_case_'' @ itoa (int i)) branchID (branchRoute c) target))
           (branchCaseEdges byID branchID (Suc i) cs))"

definition branchEdges :: "node_index \<Rightarrow> flow_node \<Rightarrow> branch_spec \<Rightarrow> go_error + compiled_edge list" where
  "branchEdges byID n b =
    map_sum id (\<lambda>es. es @ (case map_of byID (b_DefaultTo b) of
        None \<Rightarrow> [] | Some target \<Rightarrow> [route_edge (n_ID n @ ''_default'') (n_ID n) ''default'' target]))
      (branchCaseEdges byID (n_ID n) 0 (b_Cases b))"

definition compileBranchEdges :: "flow_definition \<Rightarrow> node_index \<Rightarrow> go_error + compiled_edge list" where
  "compileBranchEdges d byID =
    each_st (\<lambda>edges n.
      if normalizeKind (n_Kind n) \<noteq> ''branch'' then Inr edges
      else (case n_Branch n of None \<Rightarrow> Inr edges
        | Some b \<Rightarrow> map_sum id (\<lambda>es. edges @ es) (branchEdges byID n b))) [] (fd_Nodes d)"


section \<open>Loops\<close>

text \<open>
  The scan for ids that collide with generated ones counts in a 64-bit integer up to the
  iteration bound; with the largest bound it never ends.
\<close>

partial_function (option) scan_iterations ::
  "node_index \<Rightarrow> string \<Rightarrow> int \<Rightarrow> int \<Rightarrow> string option option" where
  "scan_iterations byID bodyID iteration bound =
    (if iteration > bound then Some None
     else if map_of byID (bodyID @ ''_'' @ itoa iteration) \<noteq> None
     then Some (Some (bodyID @ ''_'' @ itoa iteration))
     else scan_iterations byID bodyID (wrap64 (iteration + 1)) bound)"

record loop_maps =
  lm_bodyOwners :: owners
  lm_iterationKeys :: owners

fun exitEdges :: "flow_node \<Rightarrow> flow_node \<Rightarrow> condition \<Rightarrow> node_index \<Rightarrow> flow_edge list \<Rightarrow> go_error + compiled_edge list" where
  "exitEdges n body exitWhen byID [] = Inr []"
| "exitEdges n body exitWhen byID (e # es) =
    (if e_From e \<noteq> n_ID n \<or> normalizeEdgeType (e_EdgeType e) = ''condition'' then exitEdges n body exitWhen byID es
     else (case map_of byID (e_To e) of
       None \<Rightarrow> Inl (Errorf ''loop %s: exit edge references unknown node %q'' [n_ID n, e_To e])
     | Some target \<Rightarrow>
         if normalizeKind (n_Kind target) = ''branch'' \<or> normalizeKind (n_Kind target) = ''loop'' then
           Inl (Errorf ''loop %s: exit target %q has unsupported kind %q'' [n_ID n, n_ID target, n_Kind target])
         else
           let edgeID = (if blank (e_ID e) then n_ID n @ ''_to_'' @ e_To e else e_ID e);
               exitTemplate = (compileTemplate target)\<lparr>cn_DependsOn := [''{source}''],
                 cn_HandoffFrom := (if normalizeEdgeType (e_EdgeType e) = ''handoff'' then [''{source}''] else [])\<rparr>
           in map_sum id ((#) \<lparr>ce_ID = n_ID n @ ''_exit_'' @ edgeID, ce_From = [], ce_FromPrefix = n_ID body @ ''_'',
                 ce_When = exitWhen, ce_Append = exitTemplate, ce_MaxIterations = 1,
                 ce_IterationKey = n_ID n @ ''_exit_'' @ edgeID\<rparr>)
               (exitEdges n body exitWhen byID es)))"

definition compileLoopExitEdges ::
  "flow_node \<Rightarrow> flow_edge list \<Rightarrow> flow_node \<Rightarrow> condition \<Rightarrow> node_index \<Rightarrow> go_error + compiled_edge list" where
  "compileLoopExitEdges n es body exitWhen byID = exitEdges n body exitWhen byID es"

definition not_cond :: "condition \<Rightarrow> condition" where
  "not_cond c = Cond [] [] [] [] None None (Some c) [] []"

definition loopEdges ::
  "flow_node \<Rightarrow> loop_spec \<Rightarrow> flow_edge list \<Rightarrow> node_index \<Rightarrow> flow_node \<Rightarrow> loop_maps \<Rightarrow>
     go_error + compiled_edge list \<times> loop_maps" where
  "loopEdges n l es byID bodyFirst maps =
    (let from = branchSource (n_ID n) es;
         iterationKey = (if blank (l_IterationKey l) then n_ID n else trim_space (l_IterationKey l)) in
     if from = [] then Inl (Errorf ''loop %s: requires exactly one data_dependency source'' [n_ID n])
     else (case map_of (lm_iterationKeys maps) iterationKey of
       Some owner \<Rightarrow> Inl (Errorf ''loop %s: iteration_key %q is already used by loop %s'' [n_ID n, iterationKey, owner])
     | None \<Rightarrow>
         let bodyTemplate = (compileTemplate bodyFirst)\<lparr>cn_ID := n_ID bodyFirst @ ''_{iteration}'',
               cn_DependsOn := [''{source}'']\<rparr>;
             entry = \<lparr>ce_ID = n_ID n @ ''_entry'', ce_From = from, ce_FromPrefix = [],
               ce_When = Cond ''completed'' [] [] [] None None None [] [], ce_Append = bodyTemplate,
               ce_MaxIterations = l_MaxIterations l, ce_IterationKey = iterationKey\<rparr>;
             continue = \<lparr>ce_ID = n_ID n @ ''_continue'', ce_From = [], ce_FromPrefix = n_ID bodyFirst @ ''_'',
               ce_When = not_cond (l_ExitWhen l), ce_Append = bodyTemplate,
               ce_MaxIterations = l_MaxIterations l, ce_IterationKey = iterationKey\<rparr>
         in map_sum id (\<lambda>exits. ([entry, continue] @ exits,
                maps\<lparr>lm_iterationKeys := (iterationKey, n_ID n) # lm_iterationKeys maps\<rparr>))
              (compileLoopExitEdges n es bodyFirst (l_ExitWhen l) byID)))"

definition compileLoop ::
  "flow_node \<Rightarrow> loop_spec \<Rightarrow> flow_edge list \<Rightarrow> node_index \<Rightarrow> loop_maps \<Rightarrow>
     (go_error + compiled_edge list \<times> loop_maps) option" where
  "compileLoop n l es byID maps =
    (if length (l_Body l) \<noteq> 1 then
       Some (Inl (Errorf ''loop %s: currently requires exactly one body node; multi-node loop bodies are not supported yet'' [n_ID n]))
     else (case map_of byID (l_Body l ! 0) of
       None \<Rightarrow> Some (Inl (Errorf ''loop %s: body references unknown node %q'' [n_ID n, l_Body l ! 0]))
     | Some bodyFirst \<Rightarrow>
         let bodyKind = normalizeKind (n_Kind bodyFirst) in
         if bodyKind = ''branch'' \<or> bodyKind = ''loop'' then
           Some (Inl (Errorf ''loop %s: body node %q has unsupported kind %q'' [n_ID n, n_ID bodyFirst, bodyKind]))
         else (case map_of (lm_bodyOwners maps) (n_ID bodyFirst) of
           Some owner \<Rightarrow>
             Some (Inl (Errorf ''loop %s: body node %q is already used by loop %s'' [n_ID n, n_ID bodyFirst, owner]))
         | None \<Rightarrow>
             let maps = maps\<lparr>lm_bodyOwners := (n_ID bodyFirst, n_ID n) # lm_bodyOwners maps\<rparr> in
             map_option (\<lambda>collision.
               (case collision of
                  Some generatedID \<Rightarrow>
                    Inl (Errorf ''loop %s: node id %q conflicts with a generated loop iteration id'' [n_ID n, generatedID])
                | None \<Rightarrow> loopEdges n l es byID bodyFirst maps))
               (scan_iterations byID (n_ID bodyFirst) 1 (l_MaxIterations l)))))"

fun compileLoops ::
  "flow_edge list \<Rightarrow> node_index \<Rightarrow> loop_maps \<Rightarrow> flow_node list \<Rightarrow> (go_error + compiled_edge list) option" where
  "compileLoops es byID maps [] = Some (Inr [])"
| "compileLoops es byID maps (n # ns) =
    (if normalizeKind (n_Kind n) \<noteq> ''loop'' then compileLoops es byID maps ns
     else (case n_Loop n of
       None \<Rightarrow> compileLoops es byID maps ns
     | Some l \<Rightarrow>
         (case compileLoop n l es byID maps of
            None \<Rightarrow> None
          | Some (Inl e) \<Rightarrow> Some (Inl e)
          | Some (Inr (edges, maps')) \<Rightarrow>
              map_option (map_sum id (\<lambda>more. edges @ more)) (compileLoops es byID maps' ns))))"

definition compileLoopEdges :: "flow_definition \<Rightarrow> node_index \<Rightarrow> (go_error + compiled_edge list) option" where
  "compileLoopEdges d byID =
    compileLoops (fd_Edges d) byID \<lparr>lm_bodyOwners = [], lm_iterationKeys = []\<rparr> (fd_Nodes d)"

section \<open>The compiler\<close>

fun edgeIDs_err :: "string list \<Rightarrow> compiled_edge list \<Rightarrow> go_error option" where
  "edgeIDs_err seen [] = None"
| "edgeIDs_err seen (e # es) =
    (if ce_ID e \<in> set seen then Some (Errorf ''compiled edge id %q is duplicated'' [ce_ID e])
     else edgeIDs_err (ce_ID e # seen) es)"

definition validateCompiledEdgeIDs :: "compiled_edge list \<Rightarrow> go_error option" where
  "validateCompiledEdgeIDs es = edgeIDs_err [] es"

text \<open>Insertion sort by swaps: the element sinks past the larger ids before it, kept in reverse.\<close>

fun sink :: "compiled_node \<Rightarrow> compiled_node list \<Rightarrow> compiled_node list" where
  "sink x [] = [x]"
| "sink x (y # ys) = (if cn_ID y > cn_ID x then y # sink x ys else x # y # ys)"

definition sortNodes :: "compiled_node list \<Rightarrow> compiled_node list" where
  "sortNodes ns = rev (foldl (\<lambda>acc x. sink x acc) [] ns)"

definition normalizeTrigger :: "session_trigger \<Rightarrow> session_trigger" where
  "normalizeTrigger t = \<lparr>st_EventType = trim_space (st_EventType t), st_EntryNode = trim_space (st_EntryNode t),
     st_Delivery = EffectiveSessionDelivery (st_Delivery t), st_LaneID = trim_space (st_LaneID t)\<rparr>"

definition or_default :: "string \<Rightarrow> string \<Rightarrow> string" where
  "or_default s dflt = (if norm_word s = [] then dflt else norm_word s)"

definition normalizeLane :: "session_lane \<Rightarrow> session_lane" where
  "normalizeLane l = l\<lparr>sl_ID := trim_space (sl_ID l), sl_Cadence := or_default (sl_Cadence l) ''event'',
     sl_Class := or_default (sl_Class l) ''standard'',
     sl_OverloadPolicy := or_default (sl_OverloadPolicy l) ''coalesce_latest''\<rparr>"

definition normalizeSessionWorkflow :: "session_workflow_spec option \<Rightarrow> session_workflow_spec option" where
  "normalizeSessionWorkflow spec = map_option (\<lambda>s. \<lparr>sw_Triggers = map normalizeTrigger (sw_Triggers s),
     sw_Lanes = map normalizeLane (sw_Lanes s)\<rparr>) spec"

definition computeDigest :: "(digest_payload \<Rightarrow> string) \<Rightarrow> compiled \<Rightarrow> string" where
  "computeDigest hash c = hash \<lparr>
     dp_ExecutionMode = (if co_ExecutionMode c = ''request'' then [] else co_ExecutionMode c),
     dp_SessionWorkflow = co_SessionWorkflow c, dp_TimeoutSec = co_TimeoutSec c, dp_Inputs = co_Inputs c,
     dp_Outputs = co_Outputs c, dp_Network = co_Network c, dp_Nodes = co_Nodes c, dp_Edges = co_Edges c\<rparr>"

definition compile_nodes :: "flow_definition \<Rightarrow> node_index \<Rightarrow> go_error + compiled_node list" where
  "compile_nodes d byID =
    (let (appendTargets, staticIn) = collectCompileTargets d in
     case compileStaticNodes d byID appendTargets staticIn of
       Inl e \<Rightarrow> Inl e
     | Inr nodes \<Rightarrow> foldStaticEdges (fd_Edges d) byID nodes)"

definition compile_edges :: "flow_definition \<Rightarrow> node_index \<Rightarrow> (go_error + compiled_edge list) option" where
  "compile_edges d byID =
    (case compileConditionEdges d byID of
       Inl e \<Rightarrow> Some (Inl e)
     | Inr edges \<Rightarrow>
         (case compileBranchEdges d byID of
            Inl e \<Rightarrow> Some (Inl e)
          | Inr bEdges \<Rightarrow>
              map_option (\<lambda>r. case r of Inl e \<Rightarrow> Inl e
                 | Inr lEdges \<Rightarrow>
                     let edges = edges @ bEdges @ lEdges in
                     (case validateCompiledEdgeIDs edges of Some e \<Rightarrow> Inl e | None \<Rightarrow> Inr edges))
                (compileLoopEdges d byID)))"

definition assemble :: "(digest_payload \<Rightarrow> string) \<Rightarrow> flow_definition \<Rightarrow> compiled_node list \<Rightarrow> compiled_edge list \<Rightarrow> compiled" where
  "assemble hash d nodes edges =
    (let c = \<lparr>co_FlowID = fd_FlowID d, co_Version = fd_Version d,
       co_ExecutionMode = EffectiveExecutionMode (fd_ExecutionMode d),
       co_SessionWorkflow = normalizeSessionWorkflow (fd_SessionWorkflow d), co_TimeoutSec = fd_TimeoutSec d,
       co_Inputs = fd_Inputs d, co_Outputs = fd_Outputs d, co_Nodes = sortNodes nodes, co_Edges = edges,
       co_Digest = [], co_Network = fd_Network d\<rparr>
     in c\<lparr>co_Digest := computeDigest hash c\<rparr>)"

definition Compile ::
  "go_env \<Rightarrow> (digest_payload \<Rightarrow> string) \<Rightarrow> flow_definition option \<Rightarrow> (go_error + compiled) option" where
  "Compile env hash def =
    (case Validate env def of
       Some e \<Rightarrow> Some (Inl e)
     | None \<Rightarrow>
         (case def of
            None \<Rightarrow> Some (Inl Panic)
          | Some d \<Rightarrow>
              (case compile_nodes d (compile_index d) of
                 Inl e \<Rightarrow> Some (Inl e)
               | Inr nodes \<Rightarrow>
                   map_option (map_sum id (assemble hash d nodes)) (compile_edges d (compile_index d)))))"


section \<open>Sorting\<close>

lemma mset_sink: "mset (sink x ys) = add_mset x (mset ys)"
  by (induction ys) auto

lemma sink_sorted:
  "sorted_wrt (\<lambda>a b. cn_ID a \<ge> cn_ID b) ys \<Longrightarrow> sorted_wrt (\<lambda>a b. cn_ID a \<ge> cn_ID b) (sink x ys)"
proof (induction ys)
  case (Cons y ys)
  have "set (sink x ys) = insert x (set ys)" using arg_cong [OF mset_sink [of x ys], of set_mset] by simp
  with Cons show ?case by (auto dest: order.trans)
qed simp

lemma foldl_sink:
  "mset (foldl (\<lambda>acc x. sink x acc) acc ns) = mset acc + mset ns \<and>
   (sorted_wrt (\<lambda>a b. cn_ID a \<ge> cn_ID b) acc \<longrightarrow>
    sorted_wrt (\<lambda>a b. cn_ID a \<ge> cn_ID b) (foldl (\<lambda>acc x. sink x acc) acc ns))"
  by (induction ns arbitrary: acc) (auto simp: mset_sink sink_sorted)

lemma mset_sortNodes: "mset (sortNodes ns) = mset ns"
  using foldl_sink [of "[]" ns] by (simp add: sortNodes_def)

lemma set_sortNodes [simp]: "set (sortNodes ns) = set ns"
  using mset_sortNodes [of ns] by (metis set_mset_mset)

lemma sorted_sortNodes: "sorted (map cn_ID (sortNodes ns))"
  using foldl_sink [of "[]" ns]
  by (simp add: sortNodes_def sorted_wrt_map sorted_wrt_rev)

lemma mset_ids_sortNodes: "mset (map cn_ID (sortNodes ns)) = mset (map cn_ID ns)"
  by (simp add: mset_sortNodes)

section \<open>The static nodes\<close>

definition is_static :: "flow_definition \<Rightarrow> flow_node \<Rightarrow> bool" where
  "is_static d n \<longleftrightarrow> normalizeKind (n_Kind n) \<noteq> ''loop'' \<and>
    (normalizeKind (n_Kind n) = ''branch'' \<or> n_ID n \<notin> set (fst (collectCompileTargets d)))"

lemma compile_branch_node_Inr:
  "compile_branch_node d n = Inr cn \<Longrightarrow>
    cn_ID cn = n_ID n \<and> cn_Kind cn = normalizeKind (n_Kind n) \<and> cn_DependsOn cn = [] \<and> cn_HandoffFrom cn = []"
  by (auto simp: compile_branch_node_def Let_def lower_node_def split: if_splits option.splits)

lemma compileStaticNodes_Inr:
  "each_st (compileStaticNode d byID (fst (collectCompileTargets d)) staticIn) acc ns = Inr nodes \<Longrightarrow>
   map cn_ID nodes = map cn_ID acc @ map n_ID (filter (is_static d) ns) \<and>
   (\<forall>cn \<in> set nodes - set acc. cn_DependsOn cn = [] \<and> cn_HandoffFrom cn = [])"
proof (induction ns arbitrary: acc)
  case (Cons n ns)
  then obtain acc' where a: "compileStaticNode d byID (fst (collectCompileTargets d)) staticIn acc n = Inr acc'"
    "each_st (compileStaticNode d byID (fst (collectCompileTargets d)) staticIn) acc' ns = Inr nodes"
    by (auto split: sum.splits)
  have s: "(\<not> is_static d n \<and> acc' = acc) \<or>
      (is_static d n \<and> (\<exists>cn. compile_branch_node d n = Inr cn \<and> acc' = acc @ [cn]))"
    using a(1) by (auto simp: compileStaticNode_def is_static_def Let_def split: if_splits)
       (cases "compile_branch_node d n"; auto)+
  from Cons.IH [OF a(2)] s show ?case
    by (auto dest!: compile_branch_node_Inr)
qed simp

definition folds :: "node_index \<Rightarrow> flow_edge \<Rightarrow> bool" where
  "folds byID e \<longleftrightarrow> normalizeEdgeType (e_EdgeType e) \<in> {''data_dependency'', ''handoff''} \<and>
    \<not> is_loop_at byID (e_To e) \<and> \<not> is_loop_at byID (e_From e)"

definition folded_deps :: "node_index \<Rightarrow> flow_edge list \<Rightarrow> string \<Rightarrow> string set" where
  "folded_deps byID es i = {trim_space (e_From e) | e. e \<in> set es \<and> folds byID e \<and> e_To e = i} - {[]}"

lemma set_appendUnique: "set (appendUnique xs v) = set xs \<union> ({trim_space v} - {[]})"
  by (auto simp: appendUnique_def Let_def)

definition node_step :: "node_index \<Rightarrow> flow_edge list \<Rightarrow> compiled_node \<Rightarrow> compiled_node \<Rightarrow> bool" where
  "node_step byID es a b \<longleftrightarrow> cn_ID b = cn_ID a \<and>
    set (cn_DependsOn b) = set (cn_DependsOn a) \<union> folded_deps byID es (cn_ID a) \<and>
    (set (cn_HandoffFrom a) \<subseteq> set (cn_DependsOn a) \<longrightarrow> set (cn_HandoffFrom b) \<subseteq> set (cn_DependsOn b))"

lemma foldStaticEdge_Inr:
  assumes "foldStaticEdge byID nodes e = Inr nodes'"
  shows "list_all2 (node_step byID [e]) nodes nodes'"
    and "folds byID e \<Longrightarrow> e_To e \<in> set (map cn_ID nodes)"
proof -
  have f: "folded_deps byID [e] i = (if folds byID e \<and> i = e_To e then {trim_space (e_From e)} - {[]} else {})" for i
    by (auto simp: folded_deps_def)
  have "nodes' = map (\<lambda>cn. if folds byID e \<and> cn_ID cn = e_To e
               then cn\<lparr>cn_DependsOn := appendUnique (cn_DependsOn cn) (e_From e),
                       cn_HandoffFrom := (if normalizeEdgeType (e_EdgeType e) = ''handoff'' then appendUnique (cn_HandoffFrom cn) (e_From e)
                                          else cn_HandoffFrom cn)\<rparr>
               else cn) nodes"
    using assms by (auto simp: foldStaticEdge_def folds_def Let_def split: if_splits)
  then show "list_all2 (node_step byID [e]) nodes nodes'"
    by (auto simp: list_all2_map2 node_step_def f set_appendUnique intro!: list.rel_refl_strong)
  show "folds byID e \<Longrightarrow> e_To e \<in> set (map cn_ID nodes)"
    using assms by (auto simp: foldStaticEdge_def folds_def Let_def split: if_splits)
qed

lemma folded_deps_Cons: "folded_deps byID (e # es) i = folded_deps byID [e] i \<union> folded_deps byID es i"
  by (auto simp: folded_deps_def)

lemma node_step_trans:
  "node_step byID [e] a b \<Longrightarrow> node_step byID es b c \<Longrightarrow> node_step byID (e # es) a c"
  unfolding node_step_def folded_deps_Cons [of byID e es] by auto

lemma node_step_ids: "list_all2 (node_step byID es) xs ys \<Longrightarrow> map cn_ID ys = map cn_ID xs"
  by (induction rule: list_all2_induct) (auto simp: node_step_def)

lemma foldStaticEdges_Inr:
  "each_st (foldStaticEdge byID) nodes es = Inr nodes' \<Longrightarrow>
   list_all2 (node_step byID es) nodes nodes' \<and> (\<forall>e \<in> set es. folds byID e \<longrightarrow> e_To e \<in> set (map cn_ID nodes))"
proof (induction es arbitrary: nodes)
  case Nil
  then show ?case by (auto simp: node_step_def folded_deps_def intro!: list.rel_refl_strong)
next
  case (Cons e es)
  then obtain m where m: "foldStaticEdge byID nodes e = Inr m" "each_st (foldStaticEdge byID) m es = Inr nodes'"
    by (auto split: sum.splits)
  note a = foldStaticEdge_Inr [OF m(1)] and b = Cons.IH [OF m(2)]
  have "list_all2 (node_step byID (e # es)) nodes nodes'"
    by (rule list_all2_trans [OF node_step_trans a(1) conjunct1 [OF b]])
  moreover have "set (map cn_ID m) = set (map cn_ID nodes)" using node_step_ids [OF a(1)] by simp
  ultimately show ?case using a(2) b by (simp only: set_simps ball_simps insert_iff) auto
qed

lemma compile_nodes_Inr:
  assumes "compile_nodes d byID = Inr nodes"
  shows "map cn_ID nodes = map n_ID (filter (is_static d) (fd_Nodes d))"
    and "\<forall>e \<in> set (fd_Edges d). folds byID e \<longrightarrow> e_To e \<in> set (map cn_ID nodes)"
    and "\<forall>cn \<in> set nodes. set (cn_DependsOn cn) = folded_deps byID (fd_Edges d) (cn_ID cn) \<and>
      set (cn_HandoffFrom cn) \<subseteq> set (cn_DependsOn cn)"
proof -
  from assms obtain ns where ns:
    "each_st (compileStaticNode d byID (fst (collectCompileTargets d)) (snd (collectCompileTargets d))) [] (fd_Nodes d) = Inr ns"
    "each_st (foldStaticEdge byID) ns (fd_Edges d) = Inr nodes"
    by (auto simp: compile_nodes_def compileStaticNodes_def foldStaticEdges_def split: prod.splits sum.splits)
  note a = compileStaticNodes_Inr [OF ns(1)] and b = foldStaticEdges_Inr [OF ns(2)]
  note ids = node_step_ids [OF conjunct1 [OF b]]
  from a ids show "map cn_ID nodes = map n_ID (filter (is_static d) (fd_Nodes d))" by simp
  from b ids show "\<forall>e \<in> set (fd_Edges d). folds byID e \<longrightarrow> e_To e \<in> set (map cn_ID nodes)" by simp
  have l: "list_all2 (node_step byID (fd_Edges d)) ns nodes" using b by blast
  show "\<forall>cn \<in> set nodes. set (cn_DependsOn cn) = folded_deps byID (fd_Edges d) (cn_ID cn) \<and>
      set (cn_HandoffFrom cn) \<subseteq> set (cn_DependsOn cn)"
  proof
    fix cn
    assume "cn \<in> set nodes"
    then obtain k where k: "k < length nodes" "cn = nodes ! k" by (auto simp: in_set_conv_nth)
    then have "node_step byID (fd_Edges d) (ns ! k) cn" "ns ! k \<in> set ns"
      using list_all2_nthD2 [OF l, of k] list_all2_lengthD [OF l] by simp_all
    with a show "set (cn_DependsOn cn) = folded_deps byID (fd_Edges d) (cn_ID cn) \<and>
      set (cn_HandoffFrom cn) \<subseteq> set (cn_DependsOn cn)" by (auto simp: node_step_def)
  qed
qed

section \<open>What the compiler guarantees\<close>

lemma Compile_Inr:
  assumes "Compile env hash (Some d) = Some (Inr c)"
  obtains nodes edges where "Validate env (Some d) = None" "compile_nodes d (compile_index d) = Inr nodes"
    "compile_edges d (compile_index d) = Some (Inr edges)" "c = assemble hash d nodes edges"
  using assms
  by (auto simp: Compile_def split: option.splits sum.splits) (metis map_sum.simps(2) obj_sumE sum.inject(2) map_sum.simps(1) sum.distinct(1))


lemma edgeIDs_err_None: "edgeIDs_err seen es = None \<longleftrightarrow> distinct (map ce_ID es) \<and> set (map ce_ID es) \<inter> set seen = {}"
  by (induction es arbitrary: seen) auto

lemma compile_edges_distinct:
  assumes "compile_edges d byID = Some (Inr edges)"
  shows "distinct (map ce_ID edges)"
proof -
  obtain ces where c: "compileConditionEdges d byID = Inr ces"
    using assms by (cases "compileConditionEdges d byID") (auto simp: compile_edges_def)
  obtain bes where b: "compileBranchEdges d byID = Inr bes"
    using assms c by (cases "compileBranchEdges d byID") (auto simp: compile_edges_def)
  obtain q where q: "compileLoopEdges d byID = Some q"
    using assms c b by (cases "compileLoopEdges d byID") (auto simp: compile_edges_def)
  have r: "(case q of Inl e \<Rightarrow> Inl e
         | Inr les \<Rightarrow> case validateCompiledEdgeIDs (ces @ bes @ les) of Some e \<Rightarrow> Inl e | None \<Rightarrow> Inr (ces @ bes @ les)) = Inr edges"
    using assms c b q by (simp add: compile_edges_def Let_def)
  from r have "validateCompiledEdgeIDs edges = None" by (auto split: sum.split_asm option.split_asm)
  then show ?thesis by (simp add: validateCompiledEdgeIDs_def edgeIDs_err_None)
qed

lemma distinct_ids: "distinct (node_ids d) \<Longrightarrow> distinct (map n_ID (filter P (fd_Nodes d)))"
proof -
  assume "distinct (node_ids d)"
  then have "distinct (map trim_space (map n_ID (fd_Nodes d)))" by (simp add: node_ids_def)
  then have "distinct (map n_ID (fd_Nodes d))" by (simp only: distinct_map)
  then show ?thesis by (simp add: distinct_map_filter)
qed

lemma node_ids_trimmed: "i \<in> set (node_ids d) \<Longrightarrow> trim_space i = i"
  by (auto simp: node_ids_def)

lemma folded_deps_declared:
  assumes "\<forall>e \<in> set es. e_From e \<in> set (node_ids d)" "[] \<notin> set (node_ids d)"
  shows "folded_deps byID es i = {e_From e | e. e \<in> set es \<and> folds byID e \<and> e_To e = i}"
proof -
  have "trim_space (e_From e) = e_From e \<and> e_From e \<noteq> []" if "e \<in> set es" for e
    using assms that node_ids_trimmed by metis
  then show ?thesis unfolding folded_deps_def by force
qed

lemma compiled_graph:
  assumes "fair_range env" and "Compile env hash (Some d) = Some (Inr c)"
  shows "sorted (map cn_ID (co_Nodes c)) \<and> distinct (map cn_ID (co_Nodes c)) \<and>
    cn_ID ` set (co_Nodes c) = n_ID ` {n \<in> set (fd_Nodes d). is_static d n} \<and>
    (\<forall>cn \<in> set (co_Nodes c).
       set (cn_DependsOn cn) = {e_From e | e. e \<in> set (fd_Edges d) \<and> folds (compile_index d) e \<and> e_To e = cn_ID cn} \<and>
       set (cn_HandoffFrom cn) \<subseteq> set (cn_DependsOn cn)) \<and>
    acyclic {(cn_ID cn, dep) | cn dep. cn \<in> set (co_Nodes c) \<and> dep \<in> set (cn_DependsOn cn)}"
  using assms(2)
proof (rule Compile_Inr)
  fix nodes edges
  assume v: "Validate env (Some d) = None" and n: "compile_nodes d (compile_index d) = Inr nodes"
    and c: "c = assemble hash d nodes edges"
  have co: "co_Nodes c = sortNodes nodes" by (simp add: c assemble_def Let_def)
  note sound = valid_flow_facts [OF assms(1) v] and ids = compile_nodes_Inr(1) [OF n]
  have fdx: "folded_deps (compile_index d) (fd_Edges d) i =
      {e_From e | e. e \<in> set (fd_Edges d) \<and> folds (compile_index d) e \<and> e_To e = i}" for i
    by (rule folded_deps_declared [of _ d]) (use sound in auto)
  have dep: "\<forall>cn \<in> set (co_Nodes c).
       set (cn_DependsOn cn) = {e_From e | e. e \<in> set (fd_Edges d) \<and> folds (compile_index d) e \<and> e_To e = cn_ID cn} \<and>
       set (cn_HandoffFrom cn) \<subseteq> set (cn_DependsOn cn)"
    using compile_nodes_Inr(3) [OF n] unfolding fdx co set_sortNodes .
  have "(cn_ID cn, dp) \<in> static_deps (fd_Edges d)" if cn: "cn \<in> set (co_Nodes c)" "dp \<in> set (cn_DependsOn cn)" for cn dp
  proof -
    from dep cn obtain e where "e \<in> set (fd_Edges d)" "folds (compile_index d) e" "e_To e = cn_ID cn" "e_From e = dp" by auto
    then show ?thesis unfolding static_deps_def folds_def by force
  qed
  then have "{(cn_ID cn, dep) | cn dep. cn \<in> set (co_Nodes c) \<and> dep \<in> set (cn_DependsOn cn)} \<subseteq> static_deps (fd_Edges d)"
    by blast
  then have "acyclic {(cn_ID cn, dep) | cn dep. cn \<in> set (co_Nodes c) \<and> dep \<in> set (cn_DependsOn cn)}"
    using sound by (meson acyclic_subset)
  moreover have "cn_ID ` set (co_Nodes c) = n_ID ` {n \<in> set (fd_Nodes d). is_static d n}"
    using arg_cong [OF ids, of set] by (simp add: co)
  moreover have "distinct (map cn_ID (co_Nodes c))"
    using mset_eq_imp_distinct_iff [OF mset_ids_sortNodes [of nodes]] distinct_ids [of d "is_static d"] sound ids
    by (simp add: co)
  moreover have "sorted (map cn_ID (co_Nodes c))" by (simp add: co sorted_sortNodes)
  ultimately show ?thesis using dep by blast
qed



section \<open>Termination of the compiler\<close>

lemma scan_returns:
  assumes "bound < max_int64" "- (2 ^ 63) \<le> i"
  shows "\<exists>r. scan_iterations byID b i bound = Some r"
  using assms(2)
proof (induction "nat (bound + 1 - i)" arbitrary: i)
  case 0
  then show ?case by (subst scan_iterations.simps) simp
next
  case (Suc k)
  then have i: "i \<le> bound" by simp
  then have w: "wrap64 (i + 1) = i + 1" using Suc.prems assms(1) by (intro wrap64_id) auto
  have "\<exists>r. scan_iterations byID b (i + 1) bound = Some r"
    using Suc.hyps(2) Suc.prems by (intro Suc.hyps(1)) auto
  then show ?case using i w by (subst scan_iterations.simps) auto
qed

lemma scan_never_passes:
  "scan_iterations byID b i m = Some r \<Longrightarrow>
   (\<forall>k. map_of byID (b @ ''_'' @ itoa k) = None) \<longrightarrow> m = max_int64 \<longrightarrow> \<not> i \<le> max_int64"
proof (rule scan_iterations.raw_induct [where P = "\<lambda>byID b i m r.
    (\<forall>k. map_of byID (b @ ''_'' @ itoa k) = None) \<longrightarrow> m = max_int64 \<longrightarrow> \<not> i \<le> max_int64"])
  fix scan :: "node_index \<Rightarrow> string \<Rightarrow> int \<Rightarrow> int \<Rightarrow> string option option" and byID b i m r
  assume IH: "\<And>byID b i m r. scan byID b i m = Some r \<Longrightarrow>
      (\<forall>k. map_of byID (b @ ''_'' @ itoa k) = None) \<longrightarrow> m = max_int64 \<longrightarrow> \<not> i \<le> max_int64"
    and e: "(if m < i then Some None
       else if map_of byID (b @ ''_'' @ itoa i) \<noteq> None then Some (Some (b @ ''_'' @ itoa i))
       else scan byID b (wrap64 (i + 1)) m) = Some r"
  have "wrap64 (i + 1) \<le> max_int64" using wrap64_bounds [of "i + 1"] by simp
  then show "(\<forall>k. map_of byID (b @ ''_'' @ itoa k) = None) \<longrightarrow> m = max_int64 \<longrightarrow> \<not> i \<le> max_int64"
    using IH [of byID b "wrap64 (i + 1)" m r] e by (auto split: if_splits)
qed

lemma scan_diverges:
  assumes "\<And>k. map_of byID (b @ ''_'' @ itoa k) = None" "i \<le> max_int64"
  shows "scan_iterations byID b i max_int64 = None"
  using scan_never_passes [of byID b i max_int64] assms
  by (cases "scan_iterations byID b i max_int64") auto

lemma compileLoops_returns:
  assumes "\<forall>n \<in> set ns. \<forall>l. n_Loop n = Some l \<longrightarrow> l_MaxIterations l < max_int64"
  shows "\<exists>r. compileLoops es byID maps ns = Some r"
  using assms
proof (induction ns arbitrary: maps)
  case (Cons n ns)
  then have IH: "\<exists>r. compileLoops es byID m ns = Some r" for m by simp
  have c: "\<exists>r. compileLoop n l es byID maps = Some r" if "n_Loop n = Some l" for l
  proof -
    have "l_MaxIterations l < max_int64" using Cons.prems that by simp
    then have "\<exists>r. scan_iterations byID b 1 (l_MaxIterations l) = Some r" for b
      by (rule scan_returns) simp
    then show ?thesis by (force simp: compileLoop_def Let_def split: option.splits)
  qed
  show ?case
  proof (cases "normalizeKind (n_Kind n) = ''loop'' \<and> n_Loop n \<noteq> None")
    case True
    then obtain l r where r: "n_Loop n = Some l" "compileLoop n l es byID maps = Some r" using c by blast
    show ?thesis
    proof (cases r)
      case (Inr p)
      obtain edges maps' where "p = (edges, maps')" by fastforce
      with True r Inr IH [of maps'] show ?thesis by auto
    qed (use True r in simp)
  qed (use IH in auto)
qed simp

text \<open>
  C22. The compiler returns, with a result or an error, on every definition in which no loop has
  the largest 64-bit iteration bound.
\<close>

theorem Compile_returns:
  assumes "\<forall>n \<in> set (fd_Nodes d). \<forall>l. n_Loop n = Some l \<longrightarrow> l_MaxIterations l < max_int64"
  shows "\<exists>r. Compile env hash (Some d) = Some r"
  using compileLoops_returns [OF assms, of "fd_Edges d" "compile_index d"]
  by (auto simp: Compile_def compile_edges_def compileLoopEdges_def split: option.splits sum.splits)

theorem Compile_returns_witness:
  "\<exists>r. Compile demo_env (\<lambda>_. []) (Some demo_flow) = Some r"
proof -
  have "\<forall>n \<in> set (fd_Nodes demo_flow). \<forall>l. n_Loop n = Some l \<longrightarrow> l_MaxIterations l < max_int64"
    by (simp add: demo_flow_def mk_flow_def demo_nodes_def mk_node_def zero_node_def)
  then show ?thesis by (rule Compile_returns)
qed

lemma overflow_no_collision: "map_of (compile_index overflow_flow) (''body'' @ ''_'' @ itoa k) = None"
  by (simp add: compile_index_def overflow_flow_def mk_flow_def mk_node_def zero_node_def)

text \<open>
  The compiler does not return on the accepted flow with a loop of 2^63 - 1 iterations: the
  counter of the collision scan wraps around below the bound for ever.
\<close>

theorem Compile_overflow_diverges:
  "Validate demo_env (Some overflow_flow) = None \<and> Compile demo_env hash (Some overflow_flow) = None"
proof -
  have n: "\<exists>nodes. compile_nodes overflow_flow (compile_index overflow_flow) = Inr nodes"
    by (rule exI [of _ "projr (compile_nodes overflow_flow (compile_index overflow_flow))"]) code_simp
  have e: "compileConditionEdges overflow_flow (compile_index overflow_flow) = Inr []"
    "compileBranchEdges overflow_flow (compile_index overflow_flow) = Inr []" by code_simp+
  have k: "normalizeKind ''step'' = ''step''" "normalizeKind ''loop'' = ''loop''" by code_simp+
  have b: "map_of (compile_index overflow_flow) ''body'' = Some (mk_node ''body'' ''step'' ''work'')"
    by (simp add: compile_index_def overflow_flow_def mk_flow_def mk_node_def zero_node_def)
  have "compileLoopEdges overflow_flow (compile_index overflow_flow) = None"
    using scan_diverges [OF overflow_no_collision, of 1] b k
    by (simp add: compileLoopEdges_def compileLoop_def Let_def overflow_flow_def [THEN arg_cong, of fd_Nodes]
        mk_flow_def mk_node_def zero_node_def)
  with n e overflow_valid show ?thesis by (auto simp: Compile_def compile_edges_def)
qed

text \<open>A static node may depend on a node that is only appended.\<close>

definition orphan_flow :: flow_definition where
  "orphan_flow = mk_flow
    [mk_node ''s'' ''step'' ''go'', (mk_node ''br'' ''branch'' [])\<lparr>n_Branch := Some \<lparr>b_Cases =
        [\<lparr>bc_Name = [], bc_To = ''x'', bc_Condition = choice_cond ''a''\<rparr>], b_DefaultTo = ''x''\<rparr>\<rparr>,
     mk_node ''x'' ''step'' ''work'', mk_node ''y'' ''step'' ''more'']
    [mk_edge ''1'' ''s'' ''br'' [] None, mk_edge ''2'' ''x'' ''y'' [] None]"

lemma orphan_dependency:
  "case Compile demo_env (\<lambda>_. ''h'') (Some orphan_flow) of
     Some (Inr c) \<Rightarrow> map (\<lambda>cn. (cn_ID cn, cn_DependsOn cn)) (co_Nodes c) = [(''br'', [''s'']), (''s'', []), (''y'', [''x''])]
   | _ \<Rightarrow> False"
  by code_simp

end
