(* ===== verification/Workflow_Adapter.thy ===== *)
theory Workflow_Adapter
  imports Flow_Compile Workflow_Correct
begin

text \<open>
  The adapter that lowers a compiled flow to inputs of the engine
  (\<open>src/internal/agent/workflow_flow_compile.go\<close>), and what it preserves: the run the engine
  creates has the dependency graph of the flow.
\<close>

section \<open>Lowering\<close>

definition flowKindToEngine :: "string \<Rightarrow> string" where
  "flowKindToEngine k =
    (if k = ''step'' then ''subagent_task'' else if k = ''llm'' then ''llm_task'' else if k = ''decision'' then ''decision''
     else if k = ''branch'' then ''branch'' else if k = ''human'' then ''user_input''
     else if k = ''function'' then ''function'' else if k = ''service'' then ''service'' else k)"

fun flowConditionToWorkflow :: "condition \<Rightarrow> workflow_edge_condition" where
  "flowConditionToWorkflow (Cond status verdict node choice confidence output neg alls anys) =
    WCond status verdict node choice
      (map_option (\<lambda>c. \<lparr>wnc_Op = nc_Op c, wnc_Value = nc_Value c\<rparr>) confidence)
      (map_option (\<lambda>c. \<lparr>wfc_Path = fc_Path c, wfc_Op = fc_Op c, wfc_Value = fc_Value c\<rparr>) output)
      (map_option flowConditionToWorkflow neg)
      (map flowConditionToWorkflow alls) (map flowConditionToWorkflow anys)"

text \<open>The timeout of the node, when it is shorter, replaces the one of its decision or human task.\<close>

definition node_timeout_ms :: "int \<Rightarrow> int \<Rightarrow> int" where
  "node_timeout_ms timeoutSec timeoutMS =
    (let nodeTimeoutMS = wrap64 (timeoutSec * 1000) in
     if timeoutSec > 0 \<and> (timeoutMS \<le> 0 \<or> nodeTimeoutMS < timeoutMS) then nodeTimeoutMS else timeoutMS)"

definition compile_retry :: "retry_policy \<Rightarrow> workflow_retry_policy" where
  "compile_retry r = \<lparr>wr_MaxAttempts = rp_MaxAttempts r, wr_InitialIntervalMS = rp_InitialIntervalMS r,
     wr_BackoffCoefficient = rp_BackoffCoefficient r, wr_MaxIntervalMS = rp_MaxIntervalMS r, wr_Jitter = rp_Jitter r,
     wr_RetryOn = rp_RetryOn r, wr_NonRetryable = rp_NonRetryable r\<rparr>"

definition compile_decision :: "compiled_node \<Rightarrow> decision_spec \<Rightarrow> workflow_decision_spec" where
  "compile_decision n d = \<lparr>wd_Provider = d_Provider d, wd_Question = cn_Prompt n, wd_DecisionType = d_DecisionType d,
     wd_Choices = map (\<lambda>c. \<lparr>wdc_ID = ch_ID c, wdc_Label = ch_Label c\<rparr>) (d_Choices d),
     wd_TimeoutMS = node_timeout_ms (cn_TimeoutSec n) (d_TimeoutMS d), wd_OnError = d_OnError d,
     wd_DefaultChoice = d_DefaultChoice d\<rparr>"

definition compile_human :: "compiled_node \<Rightarrow> human_spec \<Rightarrow> workflow_human_spec" where
  "compile_human n h = \<lparr>wh_Queue = h_Queue h, wh_AssigneePolicy = h_AssigneePolicy h, wh_Form = h_Form h,
     wh_TimeoutMS = node_timeout_ms (cn_TimeoutSec n) (h_TimeoutMS h), wh_OnTimeout = h_OnTimeout h,
     wh_ResultVar = h_ResultVar h\<rparr>"

definition compile_function :: "compiled_node \<Rightarrow> function_spec \<Rightarrow> workflow_function_spec" where
  "compile_function n f = \<lparr>wf_Runtime = f_Runtime f, wf_Source = f_Source f, wf_Ref = f_Ref f, wf_Handler = f_Handler f,
     wf_TimeoutSec = cn_TimeoutSec n, wf_InputSchema = f_InputSchema f, wf_OutputSchema = f_OutputSchema f, wf_Network = None\<rparr>"

definition compile_service :: "service_spec \<Rightarrow> workflow_service_spec" where
  "compile_service s = \<lparr>ws_Method = s_Method s, ws_URL = s_URL s, ws_Headers = s_Headers s, ws_Body = s_Body s,
     ws_Auth = s_Auth s, ws_Network = None\<rparr>"

definition compile_branch_spec :: "compiled_branch \<Rightarrow> workflow_branch_spec" where
  "compile_branch_spec b = \<lparr>wb_Source = cb_Source b,
     wb_Cases = map (\<lambda>c. \<lparr>wbc_Name = cbc_Name c, wbc_To = cbc_To c, wbc_Condition = flowConditionToWorkflow (cbc_Condition c)\<rparr>)
       (cb_Cases b), wb_DefaultTo = cb_DefaultTo b\<rparr>"

text \<open>An empty slice and \<open>nil\<close> are the same to the engine, so both calls copy the dependencies.\<close>

definition compileFlowNode :: "compiled_node \<Rightarrow> workflow_node_input" where
  "compileFlowNode n =
    \<lparr>ni_ID = cn_ID n, ni_Kind = flowKindToEngine (cn_Kind n), ni_Title = cn_Title n, ni_Prompt = cn_Prompt n,
     ni_TimeoutSec = cn_TimeoutSec n, ni_DependsOn = cn_DependsOn n, ni_HandoffPolicy = [], ni_HandoffFrom = cn_HandoffFrom n,
     ni_HandoffMaxBytes = 0, ni_PreviewMerge = None, ni_AgentType = cn_AgentType n, ni_AgentRef = cn_AgentRef n,
     ni_WriteScope = cn_WriteScope n, ni_Retry = map_option compile_retry (cn_Retry n),
     ni_Decision = map_option (compile_decision n) (cn_Decision n), ni_Human = map_option (compile_human n) (cn_Human n),
     ni_Branch = map_option compile_branch_spec (cn_Branch n), ni_Function = map_option (compile_function n) (cn_Function n),
     ni_Service = map_option compile_service (cn_Service n), ni_PreScript = cn_PreScript n, ni_PostScript = cn_PostScript n,
     ni_OutputSpec = map (\<lambda>v. \<lparr>wv_Name = v_Name v, wv_Type = v_Type v, wv_Desc = v_Desc v, wv_Required = v_Required v,
       wv_Schema = v_Schema v\<rparr>) (cn_Outputs n)\<rparr>"

definition with_network :: "network_policy option \<Rightarrow> workflow_node_input \<Rightarrow> workflow_node_input" where
  "with_network np i = i\<lparr>ni_Function := map_option (\<lambda>f. f\<lparr>wf_Network := np\<rparr>) (ni_Function i),
     ni_Service := map_option (\<lambda>s. s\<lparr>ws_Network := np\<rparr>) (ni_Service i)\<rparr>"

definition compileFlowToWorkflowInputs ::
  "compiled option \<Rightarrow> go_error + workflow_node_input list \<times> workflow_edge_input list" where
  "compileFlowToWorkflowInputs c =
    (case c of
       None \<Rightarrow> Inl (Errorf ''nil compiled flow'' [])
     | Some c \<Rightarrow> Inr
         (map (\<lambda>n. with_network (co_Network c) (compileFlowNode n)) (co_Nodes c),
          map (\<lambda>e. \<lparr>ei_ID = ce_ID e, ei_From = ce_From e, ei_FromPrefix = ce_FromPrefix e, ei_FromKind = [],
            ei_When = flowConditionToWorkflow (ce_When e), ei_Append = with_network (co_Network c) (compileFlowNode (ce_Append e)),
            ei_MaxIterations = ce_MaxIterations e, ei_IterationKey = ce_IterationKey e\<rparr>) (co_Edges c)))"

section \<open>What reaches the engine\<close>

lemma lowered_simps [simp]:
  "ni_ID (with_network np (compileFlowNode n)) = cn_ID n" "ni_DependsOn (with_network np (compileFlowNode n)) = cn_DependsOn n"
  "ni_HandoffFrom (with_network np (compileFlowNode n)) = cn_HandoffFrom n"
  "ni_Kind (with_network np (compileFlowNode n)) = flowKindToEngine (cn_Kind n)"
  by (simp_all add: with_network_def compileFlowNode_def)

text \<open>What the compiler guarantees of the ids and dependencies of its nodes.\<close>

lemma compiled_ids:
  assumes "fair_range env" "Compile env hash (Some d) = Some (Inr c)" "cn \<in> set (co_Nodes c)"
  shows "\<not> blank (cn_ID cn)" "Ball (set (cn_DependsOn cn)) clean" "set (cn_HandoffFrom cn) \<subseteq> set (cn_DependsOn cn)"
    "cn_DependsOn cn \<noteq> [] \<Longrightarrow> trim_space (cn_ID cn) = cn_ID cn"
proof -
  have v: "Validate env (Some d) = None" using assms(2) by (rule Compile_Inr)
  note sound = valid_flow_facts [OF assms(1) v] and g = compiled_graph [OF assms(1,2)]
  have "cn_ID cn \<in> n_ID ` set (fd_Nodes d)" using g assms(3) by blast
  then have "trim_space (cn_ID cn) \<in> set (node_ids d)" by (auto simp: node_ids_def)
  then show "\<not> blank (cn_ID cn)" using sound by metis
  have dep: "set (cn_DependsOn cn) = {e_From e | e. e \<in> set (fd_Edges d) \<and> folds (compile_index d) e \<and> e_To e = cn_ID cn}"
    "set (cn_HandoffFrom cn) \<subseteq> set (cn_DependsOn cn)" using g assms(3) by blast+
  then show "set (cn_HandoffFrom cn) \<subseteq> set (cn_DependsOn cn)" by simp
  have e: "e_From e \<in> set (node_ids d)" "e_To e \<in> set (node_ids d)" if "e \<in> set (fd_Edges d)" for e using sound that by blast+
  then show "Ball (set (cn_DependsOn cn)) clean"
    using dep(1) node_ids_trimmed sound unfolding clean_def by fastforce
  show "trim_space (cn_ID cn) = cn_ID cn" if ne: "cn_DependsOn cn \<noteq> []"
  proof -
    obtain x where "x \<in> set (cn_DependsOn cn)" using ne by (cases "cn_DependsOn cn") auto
    then obtain ed where "ed \<in> set (fd_Edges d)" "e_To ed = cn_ID cn" using dep(1) by auto
    with e(2) node_ids_trimmed show ?thesis by metis
  qed
qed

text \<open>How a node of the engine corresponds to the node of the compiled flow it was lowered from.\<close>

definition lowered :: "compiled_node \<Rightarrow> workflow_node \<Rightarrow> bool" where
  "lowered cn n \<longleftrightarrow> wn_ID n = trim_space (cn_ID cn) \<and> set (wn_DependsOn n) = set (cn_DependsOn cn) \<and>
     set (wn_HandoffFrom n) = set (cn_HandoffFrom cn) \<and>
     wn_Kind n = normalizeWorkflowNodeKind (flowKindToEngine (cn_Kind cn)) (wn_ID n) \<and> wn_Status n = ''pending''"

lemma lowered_nodes:
  assumes "fair_range env" "Compile env hash (Some d) = Some (Inr c)"
    "compileFlowToWorkflowInputs (Some c) = Inr (inputs, edges)" "workflowNodesFromInputs inputs existing now = Inr nodes"
  shows "list_all2 lowered (co_Nodes c) nodes"
proof -
  have i: "inputs = map (\<lambda>n. with_network (co_Network c) (compileFlowNode n)) (co_Nodes c)"
    using assms(3) by (simp add: compileFlowToWorkflowInputs_def)
  have "list_all2 (\<lambda>cn n. built (with_network (co_Network c) (compileFlowNode cn)) n) (co_Nodes c) nodes"
    using workflowNodesFromInputs_Inr(1) [OF assms(4)] by (simp add: i list_all2_map1)
  moreover have "lowered cn n"
    if "cn \<in> set (co_Nodes c)" "built (with_network (co_Network c) (compileFlowNode cn)) n" for cn n
  proof -
    note ids = compiled_ids [OF assms(1,2) that(1)]
    have "Ball (set (cn_HandoffFrom cn)) clean" using ids(2,3) by blast
    then show ?thesis
      using that(2) ids(1,2) by (simp add: built_def lowered_def clean_normalize fresh_node_def)
  qed
  ultimately show ?thesis by (auto simp: list_all2_conv_all_nth)
qed

lemma lowered_ids: "list_all2 lowered cns nodes \<Longrightarrow> map wn_ID nodes = map (\<lambda>cn. trim_space (cn_ID cn)) cns"
  by (induction rule: list_all2_induct) (simp_all add: lowered_def)

lemma lowered_depends:
  assumes "fair_range env" "Compile env hash (Some d) = Some (Inr c)" "list_all2 lowered (co_Nodes c) nodes"
  shows "depends nodes = {(cn_ID cn, dep) | cn dep. cn \<in> set (co_Nodes c) \<and> dep \<in> set (cn_DependsOn cn)}"
    "wn_ID ` set nodes = trim_space ` cn_ID ` set (co_Nodes c)"
proof -
  have fwd: "\<exists>cn \<in> set (co_Nodes c). lowered cn n" if "n \<in> set nodes" for n
    using list_all2_origin [OF assms(3) that] .
  have bwd: "\<exists>n \<in> set nodes. lowered cn n" if "cn \<in> set (co_Nodes c)" for cn
    using assms(3) that by (metis in_set_conv_nth list_all2_conv_all_nth)
  have same: "wn_ID n = cn_ID cn" if "lowered cn n" "cn \<in> set (co_Nodes c)" "x \<in> set (cn_DependsOn cn)" for cn n x
  proof -
    have "cn_DependsOn cn \<noteq> []" using that(3) by auto
    with compiled_ids(4) [OF assms(1,2) that(2)] that(1) show ?thesis by (simp add: lowered_def)
  qed
  show "wn_ID ` set nodes = trim_space ` cn_ID ` set (co_Nodes c)"
    using arg_cong [OF lowered_ids [OF assms(3)], of set] by (simp add: image_image)
  show "depends nodes = {(cn_ID cn, dep) | cn dep. cn \<in> set (co_Nodes c) \<and> dep \<in> set (cn_DependsOn cn)}"
  proof (intro equalityI subsetI)
    fix p assume "p \<in> depends nodes"
    then obtain n x where n: "p = (wn_ID n, x)" "n \<in> set nodes" "x \<in> set (wn_DependsOn n)" by (auto simp: depends_def)
    then obtain cn where cn: "cn \<in> set (co_Nodes c)" "lowered cn n" using fwd by blast
    then have "x \<in> set (cn_DependsOn cn)" using n(3) by (simp add: lowered_def)
    with same [OF cn(2,1)] n(1) cn(1) show "p \<in> {(cn_ID cn, dep) | cn dep. cn \<in> set (co_Nodes c) \<and> dep \<in> set (cn_DependsOn cn)}"
      by blast
  next
    fix p assume "p \<in> {(cn_ID cn, dep) | cn dep. cn \<in> set (co_Nodes c) \<and> dep \<in> set (cn_DependsOn cn)}"
    then obtain cn x where cn: "p = (cn_ID cn, x)" "cn \<in> set (co_Nodes c)" "x \<in> set (cn_DependsOn cn)" by blast
    then obtain n where n: "n \<in> set nodes" "lowered cn n" using bwd by blast
    then have "x \<in> set (wn_DependsOn n)" using cn(3) by (simp add: lowered_def)
    with same [OF n(2) cn(2,3)] n(1) cn(1) show "p \<in> depends nodes" by (force simp: depends_def)
  qed
qed

text \<open>
  C6. A run of a flow has the graph of the flow. Every node of the compiled flow becomes one
  pending node of the engine, in the same order, of the kind the flow declares, with the same
  dependencies and handoffs, and the engine's dependency check accepts them exactly when every
  static dependency of the flow is itself a static node: cycles and self-dependencies cannot
  occur any more, but a dependency on a node that is only appended at run time is rejected.
\<close>

theorem flow_graph_in_engine:
  assumes "fair_range env" "Compile env hash (Some d) = Some (Inr c)"
    "compileFlowToWorkflowInputs (Some c) = Inr (inputs, edges)" "workflowNodesFromInputs inputs [] now = Inr nodes"
  shows "list_all2 lowered (co_Nodes c) nodes \<and>
    (validateWorkflowDeps nodes = None \<longleftrightarrow>
       (\<forall>cn \<in> set (co_Nodes c). set (cn_DependsOn cn) \<subseteq> trim_space ` cn_ID ` set (co_Nodes c)))"
proof -
  note l = lowered_nodes [OF assms] and g = compiled_graph [OF assms(1,2)]
  note dep = lowered_depends [OF assms(1,2) l] and n = workflowNodesFromInputs_Inr [OF assms(4)]
  have ac: "acyclic (depends nodes)" using g by (simp add: dep(1))
  have "validateWorkflowDeps nodes = None \<longleftrightarrow> wf_nodes nodes"
    using n(4) fresh_clean [OF n(3)] by (intro validateWorkflowDeps_None) simp_all
  also have "\<dots> \<longleftrightarrow> deps_known nodes" using ac n(4) fresh_clean [OF n(3)] by (simp add: wf_nodes_def)
  also have "\<dots> \<longleftrightarrow> (\<forall>cn \<in> set (co_Nodes c). set (cn_DependsOn cn) \<subseteq> trim_space ` cn_ID ` set (co_Nodes c))"
  proof
    assume k: "deps_known nodes"
    show "\<forall>cn \<in> set (co_Nodes c). set (cn_DependsOn cn) \<subseteq> trim_space ` cn_ID ` set (co_Nodes c)"
    proof (intro ballI subsetI)
      fix cn x assume cn: "cn \<in> set (co_Nodes c)" "x \<in> set (cn_DependsOn cn)"
      then obtain m where "m \<in> set nodes" "lowered cn m" using l by (metis in_set_conv_nth list_all2_conv_all_nth)
      with cn(2) k show "x \<in> trim_space ` cn_ID ` set (co_Nodes c)"
        unfolding dep(2) [symmetric] by (simp add: deps_known_def lowered_def)
    qed
  next
    assume s: "\<forall>cn \<in> set (co_Nodes c). set (cn_DependsOn cn) \<subseteq> trim_space ` cn_ID ` set (co_Nodes c)"
    show "deps_known nodes"
      unfolding deps_known_def
    proof (intro ballI)
      fix m x assume m: "m \<in> set nodes" "x \<in> set (wn_DependsOn m) \<union> set (wn_HandoffFrom m)"
      obtain cn where cn: "cn \<in> set (co_Nodes c)" "lowered cn m" using list_all2_origin [OF l m(1)] by blast
      then have x: "x \<in> set (cn_DependsOn cn)"
        using m(2) compiled_ids(3) [OF assms(1,2) cn(1)] by (auto simp: lowered_def)
      have "x \<in> set (wn_DependsOn m)" using cn(2) x by (simp add: lowered_def)
      then have "(wn_ID m, x) \<in> depends nodes" using m(1) by (auto simp: depends_def)
      then have "x \<noteq> wn_ID m" using ac unfolding acyclic_def by blast
      with s cn(1) x show "x \<noteq> wn_ID m \<and> x \<in> wn_ID ` set nodes" unfolding dep(2) by blast
    qed
  qed
  finally show ?thesis using l by blast
qed

lemma compiled_case:
  assumes "case Compile env hash f of Some (Inr c) \<Rightarrow> P c | _ \<Rightarrow> False"
  obtains c where "Compile env hash f = Some (Inr c)" "P c"
  using assms by (auto split: option.splits sum.splits)

definition lowered_inputs :: "compiled \<Rightarrow> workflow_node_input list" where
  "lowered_inputs c = fst (projr (compileFlowToWorkflowInputs (Some c)))"

lemma lowered_inputs_eq: "compileFlowToWorkflowInputs (Some c) = Inr (lowered_inputs c, snd (projr (compileFlowToWorkflowInputs (Some c))))"
  by (simp add: lowered_inputs_def compileFlowToWorkflowInputs_def)

text \<open>The engine rejects a flow that validates and compiles: its last step depends on a node that a branch appends.\<close>

lemma orphan_lowered:
  "case Compile Flow_Validate.demo_env (\<lambda>_. ''h'') (Some orphan_flow) of
     Some (Inr c) \<Rightarrow> \<not> isl (workflowNodesFromInputs (lowered_inputs c) [] 1) \<and>
       validateWorkflowDeps (projr (workflowNodesFromInputs (lowered_inputs c) [] 1)) =
         Some (Errorf ''workflow node %s depends on unknown node %s'' [''y'', ''x''])
   | _ \<Rightarrow> False"
  by code_simp

theorem flow_graph_in_engine_witness:
  "\<exists>c cn. Compile Flow_Validate.demo_env (\<lambda>_. ''h'') (Some orphan_flow) = Some (Inr c) \<and> cn \<in> set (co_Nodes c) \<and>
     \<not> set (cn_DependsOn cn) \<subseteq> trim_space ` cn_ID ` set (co_Nodes c)"
proof -
  obtain c where c: "Compile Flow_Validate.demo_env (\<lambda>_. ''h'') (Some orphan_flow) = Some (Inr c)"
    and n: "\<not> isl (workflowNodesFromInputs (lowered_inputs c) [] 1)"
    and v: "validateWorkflowDeps (projr (workflowNodesFromInputs (lowered_inputs c) [] 1)) \<noteq> None"
    by (rule compiled_case [OF orphan_lowered]) auto
  obtain nodes where nodes: "workflowNodesFromInputs (lowered_inputs c) [] 1 = Inr nodes"
    using n by (cases "workflowNodesFromInputs (lowered_inputs c) [] 1") auto
  have "fair_range Flow_Validate.demo_env" by (simp add: fair_range_def Flow_Validate.demo_env_def)
  from flow_graph_in_engine [OF this c lowered_inputs_eq nodes] v nodes c show ?thesis by auto
qed

end
