(* ===== verification/Session_Graph.thy ===== *)
theory Session_Graph
  imports Prelude "HOL-Library.Mapping" "HOL-Library.AList_Mapping"
begin

text \<open>
  The session graph (\<open>src/internal/sessiongraph/graph.go\<close>): checkpoint and merge nodes linked
  to their parents, and branches that point at a head node. A Go map is a
  \<open>mapping\<close>; a nil map and an empty one read the same, so \<open>ensureMaps\<close> changes nothing the
  model can observe. Every failing operation returns before it writes, so an error carries
  no new graph. The view \<open>summarizeSessionGraph\<close> of
  \<open>src/internal/services/backend/session_tree.go\<close> is modelled at the end.

  The graph refines an abstract state: a map from branches to histories, the list of nodes
  from the head back to the root. The locale \<open>branch_histories\<close> states what the clients of the
  graph rely on, and \<open>sg\<close> interprets it on the operations below.
\<close>

section \<open>Data and operations\<close>

record branch_head =
  bh_BranchID :: string
  bh_Head :: string

record checkpoint_record =
  cp_CheckpointID :: string
  cp_Summary :: string

record merge_record =
  mr_MergeID :: string
  mr_SourceBranch :: string
  mr_SourceHead :: string
  mr_Summary :: string

record graph_node =
  gn_ID :: string
  gn_BranchID :: string
  gn_Parent :: string
  gn_Checkpoint :: "checkpoint_record option"
  gn_Merge :: "merge_record option"

record session_graph =
  Branches :: "(string, branch_head) mapping"
  NodeSet :: "(string, graph_node) mapping"

datatype sg_error =
    ErrEmptyID
  | ErrDuplicateID string
  | ErrBranchExists string
  | ErrNotFoundBranch string
  | ErrNotFoundNode string

definition MainBranchID :: string where
  "MainBranchID = ''branch:main''"

definition empty_graph :: session_graph where
  "empty_graph = \<lparr>Branches = Mapping.empty, NodeSet = Mapping.empty\<rparr>"

definition set_head :: "session_graph \<Rightarrow> string \<Rightarrow> string \<Rightarrow> session_graph" where
  "set_head g b n = g\<lparr>Branches := Mapping.update b \<lparr>bh_BranchID = b, bh_Head = n\<rparr> (Branches g)\<rparr>"

definition put_node :: "session_graph \<Rightarrow> graph_node \<Rightarrow> session_graph" where
  "put_node g nd = g\<lparr>NodeSet := Mapping.update (gn_ID nd) nd (NodeSet g)\<rparr>"

definition EnsureMainBranch :: "session_graph \<Rightarrow> branch_head \<times> session_graph" where
  "EnsureMainBranch g =
    (case Mapping.lookup (Branches g) MainBranchID of
       Some head \<Rightarrow> (head, g)
     | None \<Rightarrow> (\<lparr>bh_BranchID = MainBranchID, bh_Head = []\<rparr>, set_head g MainBranchID []))"

definition AppendNode ::
  "session_graph \<Rightarrow> string \<Rightarrow> string \<Rightarrow> checkpoint_record \<Rightarrow> sg_error + graph_node \<times> session_graph" where
  "AppendNode g branchID nodeID checkpoint =
    (if branchID = [] \<or> nodeID = [] then Inl ErrEmptyID
     else case Mapping.lookup (Branches g) branchID of
       None \<Rightarrow> Inl (ErrNotFoundBranch branchID)
     | Some head \<Rightarrow>
         if Mapping.lookup (NodeSet g) nodeID \<noteq> None then Inl (ErrDuplicateID nodeID)
         else
           let node = \<lparr>gn_ID = nodeID, gn_BranchID = branchID, gn_Parent = bh_Head head,
                       gn_Checkpoint = Some checkpoint, gn_Merge = None\<rparr>
           in Inr (node, set_head (put_node g node) branchID nodeID))"

definition CloneBranch ::
  "session_graph \<Rightarrow> string \<Rightarrow> string \<Rightarrow> sg_error + branch_head \<times> session_graph" where
  "CloneBranch g from to =
    (if from = [] \<or> to = [] then Inl ErrEmptyID
     else case Mapping.lookup (Branches g) from of
       None \<Rightarrow> Inl (ErrNotFoundBranch from)
     | Some source \<Rightarrow>
         if Mapping.lookup (Branches g) to \<noteq> None then Inl (ErrBranchExists to)
         else Inr (\<lparr>bh_BranchID = to, bh_Head = bh_Head source\<rparr>, set_head g to (bh_Head source)))"

definition RollbackBranch ::
  "session_graph \<Rightarrow> string \<Rightarrow> string \<Rightarrow> sg_error + branch_head \<times> session_graph" where
  "RollbackBranch g branchID nodeID =
    (if branchID = [] then Inl ErrEmptyID
     else if Mapping.lookup (Branches g) branchID = None then Inl (ErrNotFoundBranch branchID)
     else if nodeID \<noteq> [] \<and> Mapping.lookup (NodeSet g) nodeID = None then Inl (ErrNotFoundNode nodeID)
     else Inr (\<lparr>bh_BranchID = branchID, bh_Head = nodeID\<rparr>, set_head g branchID nodeID))"

definition MergeBranch ::
  "session_graph \<Rightarrow> string \<Rightarrow> string \<Rightarrow> string \<Rightarrow> merge_record \<Rightarrow>
     sg_error + graph_node \<times> session_graph" where
  "MergeBranch g target source nodeID rc =
    (if target = [] \<or> source = [] \<or> nodeID = [] then Inl ErrEmptyID
     else case Mapping.lookup (Branches g) target of
       None \<Rightarrow> Inl (ErrNotFoundBranch target)
     | Some targetHead \<Rightarrow>
         (case Mapping.lookup (Branches g) source of
            None \<Rightarrow> Inl (ErrNotFoundBranch source)
          | Some sourceHead \<Rightarrow>
              if Mapping.lookup (NodeSet g) nodeID \<noteq> None then Inl (ErrDuplicateID nodeID)
              else
                let node = \<lparr>gn_ID = nodeID, gn_BranchID = target, gn_Parent = bh_Head targetHead,
                            gn_Checkpoint = None,
                            gn_Merge = Some (rc\<lparr>mr_SourceBranch := source,
                                                mr_SourceHead := bh_Head sourceHead\<rparr>)\<rparr>
                in Inr (node, set_head (put_node g node) target nodeID)))"

definition Head :: "session_graph \<Rightarrow> string \<Rightarrow> branch_head option" where
  "Head g branchID = Mapping.lookup (Branches g) branchID"

definition Nodes :: "session_graph \<Rightarrow> graph_node list" where
  "Nodes g = map (\<lambda>i. the (Mapping.lookup (NodeSet g) i)) (Mapping.ordered_keys (NodeSet g))"

definition Clone :: "session_graph option \<Rightarrow> session_graph" where
  "Clone g = (case g of None \<Rightarrow> empty_graph
     | Some g \<Rightarrow> \<lparr>Branches = Mapping.tabulate (Mapping.ordered_keys (Branches g))
                    (\<lambda>i. the (Mapping.lookup (Branches g) i)),
                  NodeSet = Mapping.tabulate (Mapping.ordered_keys (NodeSet g))
                    (\<lambda>i. the (Mapping.lookup (NodeSet g) i))\<rparr>)"

record session_graph_view =
  sv_MainHead :: string
  sv_Branches :: "string list"
  sv_Nodes :: nat
  sv_Checkpoints :: nat
  sv_Merges :: nat

definition summarizeSessionGraph :: "session_graph \<Rightarrow> session_graph_view" where
  "summarizeSessionGraph g =
    \<lparr>sv_MainHead = (case Head g MainBranchID of None \<Rightarrow> [] | Some h \<Rightarrow> bh_Head h),
     sv_Branches = Mapping.ordered_keys (Branches g),
     sv_Nodes = Mapping.size (NodeSet g),
     sv_Checkpoints = length (filter (\<lambda>nd. gn_Checkpoint nd \<noteq> None) (Nodes g)),
     sv_Merges = length (filter (\<lambda>nd. gn_Merge nd \<noteq> None) (Nodes g))\<rparr>"


section \<open>Histories\<close>

text \<open>
  The history of a node is the list of nodes from it back to the root. \<open>hist\<close> defines it by
  the parent links; \<open>history\<close> computes it with as much fuel as the graph has nodes.
\<close>

inductive hist :: "session_graph \<Rightarrow> string \<Rightarrow> graph_node list \<Rightarrow> bool" for g where
  hist_root: "hist g [] []"
| hist_node: "n \<noteq> [] \<Longrightarrow> Mapping.lookup (NodeSet g) n = Some nd \<Longrightarrow> hist g (gn_Parent nd) hs \<Longrightarrow>
    hist g n (nd # hs)"

inductive_simps hist_Nil_simp [simp]: "hist g [] hs"
inductive_simps hist_Cons_simp: "hist g n (nd # hs)"
inductive_simps hist_empty_simp [simp]: "hist g n []"

fun history :: "nat \<Rightarrow> session_graph \<Rightarrow> string \<Rightarrow> graph_node list option" where
  "history k g [] = Some []"
| "history 0 g (c # n) = None"
| "history (Suc k) g (c # n) =
    (case Mapping.lookup (NodeSet g) (c # n) of None \<Rightarrow> None
     | Some nd \<Rightarrow> map_option ((#) nd) (history k g (gn_Parent nd)))"

lemma hist_unique: "hist g n hs \<Longrightarrow> hist g n hs' \<Longrightarrow> hs = hs'"
proof (induction arbitrary: hs' rule: hist.induct)
  case (hist_node n nd hs)
  from hist_node.prems hist_node.hyps(1,2) obtain hs2
    where "hs' = nd # hs2" "hist g (gn_Parent nd) hs2"
    by (cases rule: hist.cases) auto
  with hist_node.IH show ?case by blast
qed simp

lemma hist_history: "hist g n hs \<Longrightarrow> length hs \<le> k \<Longrightarrow> history k g n = Some hs"
proof (induction arbitrary: k rule: hist.induct)
  case (hist_node n nd hs)
  then obtain c n' k' where "n = c # n'" "k = Suc k'" by (cases n; cases k) auto
  with hist_node show ?case by simp
qed simp

lemma history_hist: "history k g n = Some hs \<Longrightarrow> hist g n hs"
  by (induction k g n arbitrary: hs rule: history.induct)
     (auto split: option.splits intro: hist.intros)

text \<open>A history never meets a node twice, so it is no longer than the graph has nodes.\<close>

lemma hist_suffix: "hist g n (hs @ nd # hs') \<Longrightarrow> \<exists>m. Mapping.lookup (NodeSet g) m = Some nd \<and> hist g m (nd # hs')"
  by (induction hs arbitrary: n) (auto simp: hist_Cons_simp)

lemma hist_set: "hist g n hs \<Longrightarrow> nd \<in> set hs \<Longrightarrow> \<exists>m. Mapping.lookup (NodeSet g) m = Some nd"
  using hist_suffix [of g n] split_list [of nd hs] by blast

definition wf_graph :: "session_graph \<Rightarrow> bool" where
  "wf_graph g \<longleftrightarrow>
    finite (Mapping.keys (Branches g)) \<and> finite (Mapping.keys (NodeSet g)) \<and>
    (\<forall>b h. Mapping.lookup (Branches g) b = Some h \<longrightarrow>
       b \<noteq> [] \<and> bh_BranchID h = b \<and> (\<exists>hs. hist g (bh_Head h) hs)) \<and>
    (\<forall>n nd. Mapping.lookup (NodeSet g) n = Some nd \<longrightarrow>
       n \<noteq> [] \<and> gn_ID nd = n \<and> (\<exists>hs. hist g n hs) \<and>
       (gn_Checkpoint nd \<noteq> None \<longleftrightarrow> gn_Merge nd = None))"


lemma wf_graphD:
  assumes "wf_graph g"
  shows "Mapping.lookup (Branches g) b = Some h \<Longrightarrow> b \<noteq> [] \<and> bh_BranchID h = b \<and> (\<exists>hs. hist g (bh_Head h) hs)"
    and "Mapping.lookup (NodeSet g) n = Some nd \<Longrightarrow> n \<noteq> [] \<and> gn_ID nd = n \<and> (\<exists>hs. hist g n hs)"
    and "finite (Mapping.keys (NodeSet g))" and "finite (Mapping.keys (Branches g))"
    and "Mapping.lookup (NodeSet g) n = Some nd \<Longrightarrow> gn_Checkpoint nd \<noteq> None \<longleftrightarrow> gn_Merge nd = None"
  using assms unfolding wf_graph_def by blast+

lemma hist_distinct:
  assumes "wf_graph g" and "hist g n hs"
  shows "distinct (map gn_ID hs)"
  using assms(2)
proof (induction rule: hist.induct)
  case (hist_node n nd hs)
  have "gn_ID nd \<noteq> gn_ID x" if x: "x \<in> set hs" for x
  proof
    assume eq: "gn_ID nd = gn_ID x"
    from x obtain ys zs where hs: "hs = ys @ x # zs" by (meson split_list)
    with hist_suffix [of g "gn_Parent nd" ys x zs] hist_node obtain m
      where m: "Mapping.lookup (NodeSet g) m = Some x" "hist g m (x # zs)" by auto
    with eq hist_node assms(1) have "m = n" by (metis wf_graphD(2))
    with m hist_node hist_unique [of g n "x # zs" "nd # hs"] have "x # zs = nd # hs"
      by (metis hist.hist_node)
    then have "length zs = length hs" by simp
    with hs show False by simp
  qed
  with hist_node show ?case by auto
qed simp


lemma hist_bound:
  assumes "wf_graph g" and "hist g n hs"
  shows "length hs \<le> Mapping.size (NodeSet g)"
proof -
  have "set (map gn_ID hs) \<subseteq> Mapping.keys (NodeSet g)"
    using hist_set [OF assms(2)] wf_graphD(2) [OF assms(1)] by (fastforce simp: keys_is_none_rep Option.is_none_def)
  then have "card (set (map gn_ID hs)) \<le> card (Mapping.keys (NodeSet g))"
    by (rule card_mono [OF wf_graphD(3) [OF assms(1)]])
  then show ?thesis
    using wf_graphD(3) [OF assms(1)] distinct_card [OF hist_distinct [OF assms]]
    by (simp add: Mapping.size_def)
qed

definition node_history :: "session_graph \<Rightarrow> string \<Rightarrow> graph_node list option" where
  "node_history g n = history (Mapping.size (NodeSet g)) g n"

definition branch_history :: "session_graph \<Rightarrow> string \<Rightarrow> graph_node list option" where
  "branch_history g b = Option.bind (Head g b) (\<lambda>h. node_history g (bh_Head h))"

lemma node_history_iff: "wf_graph g \<Longrightarrow> node_history g n = Some hs \<longleftrightarrow> hist g n hs"
  unfolding node_history_def
  using history_hist [of _ g n hs] hist_history [of g n hs] hist_bound [of g n hs] by blast

text \<open>
  A graph write is one of two kinds: a fresh node whose parent is a head, or a branch that
  points at a node with a history. Both keep the histories of all the nodes already there.
\<close>

lemma hist_set_head [simp]: "hist (set_head g b n) m hs \<longleftrightarrow> hist g m hs"
proof
  show "hist (set_head g b n) m hs \<Longrightarrow> hist g m hs"
    by (induction rule: hist.induct) (auto intro: hist.intros simp: set_head_def)
  show "hist g m hs \<Longrightarrow> hist (set_head g b n) m hs"
    by (induction rule: hist.induct) (auto intro: hist.intros simp: set_head_def)
qed

lemma hist_put_node:
  assumes "Mapping.lookup (NodeSet g) (gn_ID nd) = None" and "hist g n hs"
  shows "hist (put_node g nd) n hs"
  using assms(2)
proof (induction rule: hist.induct)
  case (hist_node n x hs)
  then have "n \<noteq> gn_ID nd" using assms(1) by auto
  with hist_node show ?case
    by (auto intro!: hist.hist_node simp: put_node_def lookup_update_neq)
qed (rule hist_root)

lemma wf_set_head:
  assumes "wf_graph g" "b \<noteq> []" "hist g n hs"
  shows "wf_graph (set_head g b n)"
  using assms unfolding wf_graph_def hist_set_head
  by (auto simp: set_head_def lookup_update' split: if_splits)

lemma wf_put_node:
  assumes "wf_graph g" "gn_ID nd \<noteq> []" "Mapping.lookup (NodeSet g) (gn_ID nd) = None"
    "hist g (gn_Parent nd) hs" "gn_Checkpoint nd \<noteq> None \<longleftrightarrow> gn_Merge nd = None"
  shows "wf_graph (put_node g nd)" and "hist (put_node g nd) (gn_ID nd) (nd # hs)"
proof -
  have old: "hist g n ks \<Longrightarrow> hist (put_node g nd) n ks" for n ks
    by (rule hist_put_node [OF assms(3)])
  show new: "hist (put_node g nd) (gn_ID nd) (nd # hs)"
    using assms old by (auto intro!: hist.hist_node simp: put_node_def)
  have nodes: "Mapping.lookup (NodeSet (put_node g nd)) n = (if n = gn_ID nd then Some nd else Mapping.lookup (NodeSet g) n)" for n
    by (simp add: put_node_def lookup_update')
  have brs: "Branches (put_node g nd) = Branches g" by (simp add: put_node_def)
  have fin: "finite (Mapping.keys (NodeSet (put_node g nd)))"
    using assms(1) by (simp add: put_node_def wf_graph_def)
  show "wf_graph (put_node g nd)"
    unfolding wf_graph_def brs nodes
  proof (intro conjI allI impI)
    fix b h
    assume "Mapping.lookup (Branches g) b = Some h"
    from wf_graphD(1) [OF assms(1) this] old
    show "b \<noteq> []" "bh_BranchID h = b" "\<exists>hs. hist (put_node g nd) (bh_Head h) hs" by blast+
  next
    fix n x
    assume *: "(if n = gn_ID nd then Some nd else Mapping.lookup (NodeSet g) n) = Some x"
    show "n \<noteq> []" "gn_ID x = n" "\<exists>hs. hist (put_node g nd) n hs"
      using * wf_graphD(2) [OF assms(1), of n x] old new assms(2) by (auto split: if_splits)
    show "(gn_Checkpoint x \<noteq> None) = (gn_Merge x = None)"
      using * wf_graphD(5) [OF assms(1), of n x] assms(5) by (auto split: if_splits)
  qed (use fin wf_graphD(4) [OF assms(1)] in auto)
qed


section \<open>The abstract specification\<close>

text \<open>
  What a client sees of a graph: the history each branch stands at, and the archive of the
  histories of all nodes ever recorded, which a rollback picks from.
\<close>

record histories =
  hs_branch :: "string \<Rightarrow> graph_node list option"
  hs_archive :: "string \<Rightarrow> graph_node list option"

definition abs_graph :: "session_graph \<Rightarrow> histories" where
  "abs_graph g = \<lparr>hs_branch = branch_history g, hs_archive = node_history g\<rparr>"

datatype sg_op =
    OpMain
  | OpAppend string string checkpoint_record
  | OpClone string string
  | OpRollback string string
  | OpMerge string string string merge_record

fun sg_step :: "session_graph \<Rightarrow> sg_op \<Rightarrow> sg_error + session_graph" where
  "sg_step g OpMain = Inr (snd (EnsureMainBranch g))"
| "sg_step g (OpAppend b n cp) = map_sum id snd (AppendNode g b n cp)"
| "sg_step g (OpClone f t) = map_sum id snd (CloneBranch g f t)"
| "sg_step g (OpRollback b n) = map_sum id snd (RollbackBranch g b n)"
| "sg_step g (OpMerge t s n rc) = map_sum id snd (MergeBranch g t s n rc)"

definition tip :: "graph_node list \<Rightarrow> string" where
  "tip hs = (case hs of [] \<Rightarrow> [] | nd # _ \<Rightarrow> gn_ID nd)"

definition hs_record :: "histories \<Rightarrow> string \<Rightarrow> graph_node list \<Rightarrow> histories" where
  "hs_record s b hs = s\<lparr>hs_branch := (hs_branch s)(b \<mapsto> hs), hs_archive := (hs_archive s)(tip hs \<mapsto> hs)\<rparr>"

fun spec_step :: "histories \<Rightarrow> sg_op \<Rightarrow> sg_error + histories" where
  "spec_step s OpMain =
    Inr (if hs_branch s MainBranchID = None
         then s\<lparr>hs_branch := (hs_branch s)(MainBranchID \<mapsto> [])\<rparr> else s)"
| "spec_step s (OpAppend b n cp) =
    (if b = [] \<or> n = [] then Inl ErrEmptyID
     else case hs_branch s b of
       None \<Rightarrow> Inl (ErrNotFoundBranch b)
     | Some hs \<Rightarrow>
         if hs_archive s n \<noteq> None then Inl (ErrDuplicateID n)
         else Inr (hs_record s b (\<lparr>gn_ID = n, gn_BranchID = b, gn_Parent = tip hs,
                                   gn_Checkpoint = Some cp, gn_Merge = None\<rparr> # hs)))"
| "spec_step s (OpClone f t) =
    (if f = [] \<or> t = [] then Inl ErrEmptyID
     else case hs_branch s f of
       None \<Rightarrow> Inl (ErrNotFoundBranch f)
     | Some hs \<Rightarrow>
         if hs_branch s t \<noteq> None then Inl (ErrBranchExists t)
         else Inr (s\<lparr>hs_branch := (hs_branch s)(t \<mapsto> hs)\<rparr>))"
| "spec_step s (OpRollback b n) =
    (if b = [] then Inl ErrEmptyID
     else if hs_branch s b = None then Inl (ErrNotFoundBranch b)
     else case hs_archive s n of
       None \<Rightarrow> Inl (ErrNotFoundNode n)
     | Some hs \<Rightarrow> Inr (s\<lparr>hs_branch := (hs_branch s)(b \<mapsto> hs)\<rparr>))"
| "spec_step s (OpMerge t f n rc) =
    (if t = [] \<or> f = [] \<or> n = [] then Inl ErrEmptyID
     else case (hs_branch s t, hs_branch s f) of
       (None, _) \<Rightarrow> Inl (ErrNotFoundBranch t)
     | (Some hs, None) \<Rightarrow> Inl (ErrNotFoundBranch f)
     | (Some hs, Some ks) \<Rightarrow>
         if hs_archive s n \<noteq> None then Inl (ErrDuplicateID n)
         else Inr (hs_record s t (\<lparr>gn_ID = n, gn_BranchID = t, gn_Parent = tip hs, gn_Checkpoint = None,
                gn_Merge = Some (rc\<lparr>mr_SourceBranch := f, mr_SourceHead := tip ks\<rparr>)\<rparr> # hs)))"

lemma hist_tip: "wf_graph g \<Longrightarrow> hist g n hs \<Longrightarrow> tip hs = n"
  using wf_graphD(2) [of g n] by (cases hs) (auto simp: tip_def hist_Cons_simp)

lemma node_history_None:
  assumes "wf_graph g" shows "node_history g n = None \<longleftrightarrow> n \<noteq> [] \<and> Mapping.lookup (NodeSet g) n = None"
proof -
  have "(\<exists>hs. hist g n hs) \<longleftrightarrow> n = [] \<or> Mapping.lookup (NodeSet g) n \<noteq> None"
    using wf_graphD(2) [OF assms, of n] by (cases "n = []") (auto elim: hist.cases)
  then show ?thesis using node_history_iff [OF assms, of n] by (cases "node_history g n") auto
qed

lemma branch_history_iff:
  "wf_graph g \<Longrightarrow> branch_history g b = Some hs \<longleftrightarrow> (\<exists>h. Mapping.lookup (Branches g) b = Some h \<and> hist g (bh_Head h) hs)"
  by (auto simp: branch_history_def Head_def node_history_iff bind_eq_Some_conv)

lemma branch_history_None:
  assumes "wf_graph g" shows "branch_history g b = None \<longleftrightarrow> Mapping.lookup (Branches g) b = None"
  using wf_graphD(1) [OF assms, of b] branch_history_iff [OF assms, of b]
  by (cases "branch_history g b"; cases "Mapping.lookup (Branches g) b") auto


lemma option_ext: "(\<And>x. a = Some x \<longleftrightarrow> b = Some x) \<Longrightarrow> a = b"
  by (cases a; cases b) auto

lemma abs_set_head:
  assumes "wf_graph g" "b \<noteq> []" "hist g n hs"
  shows "abs_graph (set_head g b n) = (abs_graph g)\<lparr>hs_branch := (hs_branch (abs_graph g))(b \<mapsto> hs)\<rparr>"
proof -
  have wf: "wf_graph (set_head g b n)" using assms by (rule wf_set_head)
  have nodes: "node_history (set_head g b n) m = node_history g m" for m
    by (rule option_ext) (simp add: node_history_iff wf assms(1))
  have "branch_history (set_head g b n) c = ((branch_history g)(b \<mapsto> hs)) c" for c
    using node_history_iff [OF assms(1), of n hs] assms(3)
    by (simp add: branch_history_def Head_def nodes) (simp add: set_head_def lookup_update')
  with nodes show ?thesis by (simp add: abs_graph_def fun_eq_iff)
qed

lemma abs_put_node:
  assumes "wf_graph g" "gn_ID nd \<noteq> []" "Mapping.lookup (NodeSet g) (gn_ID nd) = None"
    "hist g (gn_Parent nd) hs" "gn_Checkpoint nd \<noteq> None \<longleftrightarrow> gn_Merge nd = None"
  shows "abs_graph (put_node g nd) =
    (abs_graph g)\<lparr>hs_archive := (hs_archive (abs_graph g))(gn_ID nd \<mapsto> nd # hs)\<rparr>"
proof -
  note wf = wf_put_node [OF assms]
  have nodes: "node_history (put_node g nd) m = ((node_history g)(gn_ID nd \<mapsto> nd # hs)) m" for m
  proof (cases "m = gn_ID nd")
    case True
    with wf show ?thesis by (simp add: node_history_iff)
  next
    case False
    show ?thesis
    proof (cases "node_history g m")
      case None
      then have "node_history (put_node g nd) m = None"
        using False assms(1) wf(1) by (simp add: node_history_None) (simp add: put_node_def lookup_update')
      with None False show ?thesis by simp
    next
      case (Some ks)
      then have "node_history (put_node g nd) m = Some ks"
        using assms(1,3) wf(1) by (simp add: node_history_iff hist_put_node)
      with Some False show ?thesis by simp
    qed
  qed
  have "branch_history (put_node g nd) c = branch_history g c" for c
  proof (cases "Mapping.lookup (Branches g) c")
    case (Some h)
    then have "bh_Head h \<noteq> gn_ID nd"
      using wf_graphD(1) [OF assms(1) Some] assms(2,3) by (auto elim: hist.cases)
    with Some show ?thesis
      by (simp add: branch_history_def Head_def nodes) (simp add: put_node_def)
  qed (simp add: branch_history_def Head_def put_node_def)
  with nodes show ?thesis by (simp add: abs_graph_def fun_eq_iff)
qed

text \<open>Recording a node is the two writes, on the graph and on the histories.\<close>

lemma record_node:
  assumes "wf_graph g" "gn_ID nd \<noteq> []" "Mapping.lookup (NodeSet g) (gn_ID nd) = None"
    "hist g (gn_Parent nd) hs" "gn_Checkpoint nd \<noteq> None \<longleftrightarrow> gn_Merge nd = None" "b \<noteq> []"
  shows "abs_graph (set_head (put_node g nd) b (gn_ID nd)) = hs_record (abs_graph g) b (nd # hs)"
    and "wf_graph (set_head (put_node g nd) b (gn_ID nd))"
proof -
  note wf = wf_put_node [OF assms(1-5)]
  show "wf_graph (set_head (put_node g nd) b (gn_ID nd))"
    by (rule wf_set_head [OF wf(1) assms(6) wf(2)])
  show "abs_graph (set_head (put_node g nd) b (gn_ID nd)) = hs_record (abs_graph g) b (nd # hs)"
    by (simp add: abs_set_head [OF wf(1) assms(6) wf(2)] abs_put_node [OF assms(1-5)]
        hs_record_def tip_def)
qed


definition sg_ok :: "sg_error + session_graph \<Rightarrow> sg_error + histories \<Rightarrow> bool" where
  "sg_ok r s \<longleftrightarrow> map_sum id abs_graph r = s \<and> (\<forall>g'. r = Inr g' \<longrightarrow> wf_graph g')"

lemma abs_graph_sel [simp]:
  "hs_branch (abs_graph g) = branch_history g" "hs_archive (abs_graph g) = node_history g"
  by (simp_all add: abs_graph_def)

lemma branch_cases:
  assumes "wf_graph g"
  obtains (missing) "Mapping.lookup (Branches g) b = None" "branch_history g b = None"
  | (present) h hs where "Mapping.lookup (Branches g) b = Some h" "branch_history g b = Some hs"
      "hist g (bh_Head h) hs" "tip hs = bh_Head h"
proof (cases "Mapping.lookup (Branches g) b")
  case None
  with branch_history_None [OF assms] show ?thesis by (auto intro: missing)
next
  case (Some h)
  with wf_graphD(1) [OF assms Some] hist_tip [OF assms] show ?thesis
    by (auto simp: branch_history_iff [OF assms] intro: present)
qed

lemma ok_main: "wf_graph g \<Longrightarrow> sg_ok (sg_step g OpMain) (spec_step (abs_graph g) OpMain)"
proof (rule branch_cases [of g MainBranchID])
  have "MainBranchID \<noteq> []" "hist g [] []" by (auto simp: MainBranchID_def)
  then show "wf_graph g \<Longrightarrow> Mapping.lookup (Branches g) MainBranchID = None \<Longrightarrow>
      branch_history g MainBranchID = None \<Longrightarrow> ?thesis"
    by (simp add: EnsureMainBranch_def sg_ok_def abs_set_head wf_set_head)
qed (simp_all add: EnsureMainBranch_def sg_ok_def)

lemma ok_append:
  assumes "wf_graph g"
  shows "sg_ok (sg_step g (OpAppend b n cp)) (spec_step (abs_graph g) (OpAppend b n cp))"
  using assms
proof (cases rule: branch_cases [of g b])
  case (present h hs)
  then show ?thesis
    using record_node [OF assms, of "\<lparr>gn_ID = n, gn_BranchID = b, gn_Parent = bh_Head h,
                        gn_Checkpoint = Some cp, gn_Merge = None\<rparr>" hs b]
    by (auto simp: sg_ok_def AppendNode_def Let_def node_history_None [OF assms])
qed (simp add: sg_ok_def AppendNode_def)

lemma ok_clone:
  assumes "wf_graph g"
  shows "sg_ok (sg_step g (OpClone f t)) (spec_step (abs_graph g) (OpClone f t))"
  using assms
proof (cases rule: branch_cases [of g f])
  case (present h hs)
  then show ?thesis
    by (auto simp: sg_ok_def CloneBranch_def branch_history_None [OF assms] abs_set_head [OF assms]
        wf_set_head [OF assms])
qed (simp add: sg_ok_def CloneBranch_def)

lemma ok_rollback:
  assumes "wf_graph g"
  shows "sg_ok (sg_step g (OpRollback b n)) (spec_step (abs_graph g) (OpRollback b n))"
proof (cases "node_history g n")
  case None
  then have "n \<noteq> []" "Mapping.lookup (NodeSet g) n = None" by (simp_all add: node_history_None [OF assms])
  with None show ?thesis
    by (simp add: sg_ok_def RollbackBranch_def branch_history_None [OF assms])
next
  case (Some hs)
  then have "\<not> (n \<noteq> [] \<and> Mapping.lookup (NodeSet g) n = None)" "hist g n hs"
    using node_history_None [OF assms, of n] node_history_iff [OF assms, of n hs] by simp_all
  with Some show ?thesis
    by (auto simp: sg_ok_def RollbackBranch_def branch_history_None [OF assms] abs_set_head [OF assms]
        wf_set_head [OF assms])
qed

lemma ok_merge:
  assumes "wf_graph g"
  shows "sg_ok (sg_step g (OpMerge t f n rc)) (spec_step (abs_graph g) (OpMerge t f n rc))"
  using assms
proof (cases rule: branch_cases [of g t])
  case t: (present h hs)
  show ?thesis using assms
  proof (cases rule: branch_cases [of g f])
    case (present k ks)
    with t show ?thesis
      using record_node [OF assms, of "\<lparr>gn_ID = n, gn_BranchID = t, gn_Parent = bh_Head h,
         gn_Checkpoint = None, gn_Merge = Some (rc\<lparr>mr_SourceBranch := f, mr_SourceHead := bh_Head k\<rparr>)\<rparr>" hs t]
      by (auto simp: sg_ok_def MergeBranch_def Let_def node_history_None [OF assms])
  qed (use t in \<open>simp add: sg_ok_def MergeBranch_def\<close>)
qed (simp add: sg_ok_def MergeBranch_def)

lemma sg_step_ok: "wf_graph g \<Longrightarrow> sg_ok (sg_step g op) (spec_step (abs_graph g) op)"
  by (cases op) (simp_all only: ok_main ok_append ok_clone ok_rollback ok_merge)

text \<open>The archive of the specification only grows: a recorded history is never rewritten.\<close>

lemma spec_step_archive:
  "spec_step s op = Inr s' \<Longrightarrow> hs_archive s n = Some hs \<Longrightarrow> hs_archive s' n = Some hs"
  by (cases op) (auto simp: hs_record_def tip_def split: if_splits option.splits)

lemma sg_step_inv: "wf_graph g \<Longrightarrow> sg_step g op = Inr g' \<Longrightarrow> wf_graph g'"
  using sg_step_ok [of g op] by (simp add: sg_ok_def)

lemma sg_step_frame:
  assumes "wf_graph g" "sg_step g op = Inr g'" "node_history g n = Some hs"
  shows "node_history g' n = Some hs"
proof -
  have "spec_step (abs_graph g) op = Inr (abs_graph g')"
    using sg_step_ok [OF assms(1), of op] assms(2) by (simp add: sg_ok_def)
  then show ?thesis using spec_step_archive [of "abs_graph g" op "abs_graph g'" n hs] assms(3) by simp
qed

section \<open>The interface\<close>

text \<open>
  What the session store and the session views rely on: an invariant every operation keeps
  and an archive in which recorded entries stay. Over a whole run of operations both
  survive.
\<close>

locale branch_histories =
  fixes step :: "'s \<Rightarrow> 'op \<Rightarrow> 'e + 's"
    and inv :: "'s \<Rightarrow> bool"
    and archive :: "'s \<Rightarrow> 'k \<Rightarrow> 'h option"
  assumes step_inv: "inv s \<Longrightarrow> step s op = Inr s' \<Longrightarrow> inv s'"
    and step_frame: "inv s \<Longrightarrow> step s op = Inr s' \<Longrightarrow> archive s n = Some h \<Longrightarrow> archive s' n = Some h"
begin

lemma run_inv: "each_st step s ops = Inr s' \<Longrightarrow> inv s \<Longrightarrow> inv s'"
  by (erule each_st_invariant) (auto intro: step_inv)

lemma run_frame:
  assumes "each_st step s ops = Inr s'" "inv s" "archive s n = Some h"
  shows "inv s' \<and> archive s' n = Some h"
  by (rule each_st_invariant [OF assms(1)]) (use assms(2,3) step_inv step_frame in blast)+

end

interpretation sg: branch_histories sg_step wf_graph node_history
  by unfold_locales (blast intro: sg_step_inv sg_step_frame)+

lemma empty_graph_wf: "wf_graph empty_graph"
  by (simp add: wf_graph_def empty_graph_def)


section \<open>Listing, copying and summarising\<close>

lemma in_keys_iff: "k \<in> Mapping.keys m \<longleftrightarrow> Mapping.lookup m k \<noteq> None"
  by (auto simp: keys_is_none_rep Option.is_none_def)

lemma tabulate_all:
  assumes "finite (Mapping.keys m)"
  shows "Mapping.tabulate (Mapping.ordered_keys m) (\<lambda>i. the (Mapping.lookup m i)) = m"
proof (rule mapping_eqI)
  fix x
  show "Mapping.lookup (Mapping.tabulate (Mapping.ordered_keys m) (\<lambda>i. the (Mapping.lookup m i))) x = Mapping.lookup m x"
    using assms by (cases "Mapping.lookup m x")
      (auto simp: lookup_tabulate set_ordered_keys in_keys_iff split: if_splits)
qed

lemma Clone_same: "wf_graph g \<Longrightarrow> Clone (Some g) = g"
  by (simp add: Clone_def tabulate_all wf_graphD(3,4))

lemma Nodes_set: "wf_graph g \<Longrightarrow> set (Nodes g) = {nd. \<exists>n. Mapping.lookup (NodeSet g) n = Some nd}"
  by (force simp: Nodes_def set_ordered_keys wf_graphD(3) in_keys_iff image_def)

lemma Nodes_ids: "wf_graph g \<Longrightarrow> map gn_ID (Nodes g) = Mapping.ordered_keys (NodeSet g)"
  unfolding Nodes_def map_map
  by (rule map_idI) (auto simp: set_ordered_keys wf_graphD(2,3) in_keys_iff)

lemma filter_split_length:
  "(\<And>x. x \<in> set xs \<Longrightarrow> P x \<longleftrightarrow> \<not> Q x) \<Longrightarrow> length (filter P xs) + length (filter Q xs) = length xs"
  by (induction xs) auto

text \<open>A run that uses every operation, on which the properties are evaluated.\<close>

definition demo_ops :: "sg_op list" where
  "demo_ops = [OpMain, OpAppend MainBranchID ''n1'' \<lparr>cp_CheckpointID = ''c1'', cp_Summary = []\<rparr>,
     OpClone MainBranchID ''side'', OpAppend ''side'' ''n2'' \<lparr>cp_CheckpointID = ''c2'', cp_Summary = []\<rparr>,
     OpMerge MainBranchID ''side'' ''m1''
       \<lparr>mr_MergeID = ''x'', mr_SourceBranch = [], mr_SourceHead = [], mr_Summary = []\<rparr>]"

definition demo_graph :: session_graph where
  "demo_graph = projr (each_st sg_step empty_graph demo_ops)"

lemma demo_run: "each_st sg_step empty_graph demo_ops = Inr demo_graph"
  by code_simp

lemma demo_wf: "wf_graph demo_graph"
  by (rule sg.run_inv [OF demo_run empty_graph_wf])

text \<open>
  C23. On a well-formed graph every operation of the session graph, errors included, is the
  operation of the specification on branch histories: appending and merging put one node in
  front of the history of the branch and record it in the archive, cloning copies a history,
  a rollback sets a branch back to an archived one, and nothing else changes.
\<close>

theorem session_graph_refines:
  assumes "wf_graph g"
  shows "map_sum id abs_graph (sg_step g op) = spec_step (abs_graph g) op"
  using sg_step_ok [OF assms] by (simp add: sg_ok_def)

theorem session_graph_refines_witness:
  "wf_graph demo_graph \<and>
   map_sum id abs_graph (sg_step demo_graph (OpRollback MainBranchID ''n2'')) =
     spec_step (abs_graph demo_graph) (OpRollback MainBranchID ''n2'') \<and>
   map_option (map gn_ID) (branch_history demo_graph MainBranchID) = Some [''m1'', ''n1''] \<and>
   map_option (map gn_ID) (branch_history (projr (sg_step demo_graph (OpRollback MainBranchID ''n2''))) MainBranchID)
     = Some [''n2'', ''n1'']"
proof -
  have "map_option (map gn_ID) (branch_history demo_graph MainBranchID) = Some [''m1'', ''n1'']"
    by code_simp
  moreover have "map_option (map gn_ID)
      (branch_history (projr (sg_step demo_graph (OpRollback MainBranchID ''n2''))) MainBranchID)
     = Some [''n2'', ''n1'']"
    by code_simp
  ultimately show ?thesis using session_graph_refines [OF demo_wf] demo_wf by blast
qed

text \<open>
  C24. Whatever operations a session runs, starting from the empty graph, the graph stays
  well formed (every head and every parent exists, every history is finite, no node is both a
  checkpoint and a merge), and the history of a node recorded at any time is never changed
  by what follows.
\<close>

theorem session_graph_runs:
  assumes "each_st sg_step empty_graph ops = Inr g" and "each_st sg_step g ops' = Inr g'"
  shows "wf_graph g' \<and> (\<forall>n hs. node_history g n = Some hs \<longrightarrow> node_history g' n = Some hs)"
  using sg.run_inv [OF assms(1) empty_graph_wf] sg.run_inv [OF assms(2)] sg.run_frame [OF assms(2)]
  by blast

theorem session_graph_runs_witness:
  "\<exists>g'. each_st sg_step demo_graph [OpRollback ''side'' ''n1''] = Inr g' \<and> wf_graph g' \<and>
    map_option (map gn_ID) (node_history g' ''m1'') = Some [''m1'', ''n1'']"
proof -
  have r: "each_st sg_step demo_graph [OpRollback ''side'' ''n1''] =
      Inr (projr (each_st sg_step demo_graph [OpRollback ''side'' ''n1'']))" (is "_ = Inr ?g'")
    by code_simp
  have "map_option (map gn_ID) (node_history demo_graph ''m1'') = Some [''m1'', ''n1'']"
    by code_simp
  then obtain hs where "node_history demo_graph ''m1'' = Some hs" "map gn_ID hs = [''m1'', ''n1'']"
    by auto
  with session_graph_runs [OF demo_run r] have "wf_graph ?g'" "node_history ?g' ''m1'' = Some hs" by blast+
  with r \<open>map gn_ID hs = _\<close> show ?thesis by (intro exI [of _ ?g']) simp
qed

text \<open>
  The session view lists every node once in the order of the node ids and counts each
  one as a checkpoint or as a merge; a clone of the graph equals the graph.
\<close>

theorem session_view_counts:
  assumes "wf_graph g"
  shows "sorted (map gn_ID (Nodes g)) \<and> distinct (map gn_ID (Nodes g)) \<and>
    set (Nodes g) = {nd. \<exists>n. Mapping.lookup (NodeSet g) n = Some nd} \<and>
    sv_Nodes (summarizeSessionGraph g) = length (Nodes g) \<and>
    sv_Checkpoints (summarizeSessionGraph g) + sv_Merges (summarizeSessionGraph g) =
      sv_Nodes (summarizeSessionGraph g) \<and>
    Clone (Some g) = g"
proof -
  have len: "length (Nodes g) = Mapping.size (NodeSet g)"
    using distinct_card [of "Mapping.ordered_keys (NodeSet g)"] wf_graphD(3) [OF assms]
    by (simp add: Nodes_def Mapping.size_def)
  have "length (filter (\<lambda>nd. gn_Checkpoint nd \<noteq> None) (Nodes g)) +
      length (filter (\<lambda>nd. gn_Merge nd \<noteq> None) (Nodes g)) = length (Nodes g)"
    by (rule filter_split_length) (use wf_graphD(5) [OF assms] Nodes_set [OF assms] in fastforce)
  then show ?thesis
    by (simp add: Nodes_ids [OF assms] Nodes_set [OF assms] Clone_same [OF assms] summarizeSessionGraph_def len)
qed

theorem session_view_counts_witness:
  "sv_Checkpoints (summarizeSessionGraph demo_graph) + sv_Merges (summarizeSessionGraph demo_graph) =
     sv_Nodes (summarizeSessionGraph demo_graph) \<and>
   sv_Nodes (summarizeSessionGraph demo_graph) = 3 \<and> sv_Merges (summarizeSessionGraph demo_graph) = 1"
proof -
  have "sv_Nodes (summarizeSessionGraph demo_graph) = 3" "sv_Merges (summarizeSessionGraph demo_graph) = 1"
    by code_simp+
  with session_view_counts [OF demo_wf] show ?thesis by blast
qed

end
