(* ===== verification/Shell_Syntax.thy ===== *)
theory Shell_Syntax
  imports Net_Util Flow_Model
begin

text \<open>
  How the shell guard reads a command (\<open>src/internal/platform/tooling/shell_policy.go\<close>): the
  split into segments at \<open>&&\<close>, \<open>||\<close>, \<open>|\<close>, \<open>;\<close> and line breaks, the split of a segment into
  arguments, the name of the command a segment runs, and the command substitutions in it. The
  quoting that the SSH backend uses (\<open>shellQuote\<close>, \<open>shellJoin\<close> in \<open>tooling.go\<close>) is here too.

  A command is a sequence of bytes in UTF-8, as the JSON decoder of the tool input delivers it;
  the white-space runes are the sequences of \<^const>\<open>space_seqs\<close>.
\<close>

section \<open>The world outside\<close>

text \<open>
  What the guard asks of the rest of Go's library: whether a rune beyond ASCII is a letter or a
  digit, \<open>url.Parse\<close> (scheme, host and host name of a URL it accepts), \<open>net.ParseIP\<close>,
  \<open>filepath.Match\<close> without an error, and the working directory or the error of asking for it.
\<close>

record shell_url =
  su_Scheme :: string
  su_Host :: string
  su_Hostname :: string

record shell_env =
  se_letter :: "string \<Rightarrow> bool"
  se_digit :: "string \<Rightarrow> bool"
  se_parse :: "string \<Rightarrow> shell_url option"
  se_parse_ip :: "string \<Rightarrow> ip option"
  se_match :: "string \<Rightarrow> string \<Rightarrow> bool"
  se_getwd :: "go_error + string"

section \<open>Arguments\<close>

text \<open>The length of the rune after a backslash when the backslash escapes it, 0 otherwise.\<close>

definition escapedRune :: "char option \<Rightarrow> string \<Rightarrow> nat" where
  "escapedRune quote s =
    (case s of
       [] \<Rightarrow> 0
     | c # _ \<Rightarrow>
         let space = lead_len space_seqs s in
         if (c \<in> set [CHR 0x5C, CHR 0x27, CHR 0x22] \<or> 0 < space) \<and>
            (quote = None \<or> quote = Some c \<or> c = CHR 0x5C \<or> 0 < space)
         then max 1 space else 0)"

lemma escapedRune_le: "escapedRune quote s \<le> length s"
  using lead_len_le [of space_seqs s]
  by (cases s) (auto simp: escapedRune_def Let_def)

definition flush :: "string \<Rightarrow> string list \<Rightarrow> string list" where
  "flush cur args = (if cur = [] then args else args @ [cur])"

function split_args :: "char option \<Rightarrow> string \<Rightarrow> string list \<Rightarrow> string \<Rightarrow> char option \<times> string list" where
  "split_args quote cur args [] = (quote, flush cur args)"
| "split_args quote cur args (c # s) =
    (let n = escapedRune quote s; space = lead_len space_seqs (c # s) in
     if c = CHR 0x5C \<and> 0 < n then split_args quote (cur @ take n s) args (drop n s)
     else (case quote of
       Some q \<Rightarrow> if c = q then split_args None cur args s else split_args quote (cur @ [c]) args s
     | None \<Rightarrow>
         if c = CHR 0x5C then split_args None (cur @ [c]) args s
         else if c = CHR 0x27 \<or> c = CHR 0x22 then split_args (Some c) cur args s
         else if 0 < space then split_args None [] (flush cur args) (drop space (c # s))
         else split_args None (cur @ [c]) args s))"
  by pat_completeness auto
termination by (relation "measure (\<lambda>(quote, cur, args, s). length s)") auto

definition SplitCommandLine :: "string \<Rightarrow> go_error + string list" where
  "SplitCommandLine input =
    (if blank input then Inl (Errorf ''empty command'' [])
     else case split_args None [] [] (trim_space input) of
       (Some _, _) \<Rightarrow> Inl (Errorf ''unterminated quote'' [])
     | (None, []) \<Rightarrow> Inl (Errorf ''empty command'' [])
     | (None, args) \<Rightarrow> Inr args)"

section \<open>Segments\<close>

text \<open>\<open>unicode.IsSpace\<close> of one byte taken as a rune.\<close>

definition space_byte :: "char \<Rightarrow> bool" where
  "space_byte c \<longleftrightarrow> c \<in> set [CHR 0x20, CHR 0x09, CHR 0x0A, CHR 0x0B, CHR 0x0C, CHR 0x0D, CHR 0x85, CHR 0xA0]"

definition lastNonSpaceByte :: "string \<Rightarrow> char" where
  "lastNonSpaceByte s = (case dropWhile space_byte (rev s) of [] \<Rightarrow> CHR 0x00 | c # _ \<Rightarrow> c)"

definition add_segment :: "string \<Rightarrow> string list \<Rightarrow> string list" where
  "add_segment cur segs = (if blank cur then segs else segs @ [trim_space cur])"

datatype scan_mode = Plain | Single | Double | Escaped bool

text \<open>
  The scanner. \<open>Escaped d\<close> is the byte after a backslash, inside double quotes or not: a
  backslash sets \<open>escaped\<close> and leaves \<open>inDouble\<close> as it is.
\<close>

fun scan_segments :: "scan_mode \<Rightarrow> string \<Rightarrow> string list \<Rightarrow> string \<Rightarrow> go_error + string list" where
  "scan_segments mode cur segs [] =
    (case mode of
       Escaped _ \<Rightarrow> Inl (Errorf ''unfinished escape sequence'' [])
     | Plain \<Rightarrow> Inr (add_segment cur segs)
     | _ \<Rightarrow> Inl (Errorf ''unterminated quote'' []))"
| "scan_segments (Escaped d) cur segs (c # s) = scan_segments (if d then Double else Plain) (cur @ [c]) segs s"
| "scan_segments Single cur segs (c # s) =
    scan_segments (if c = CHR 0x27 then Plain else Single) (cur @ [c]) segs s"
| "scan_segments mode cur segs (c # s) =
    (if c = CHR 0x60 then Inl (Errorf ''command substitution is not allowed'' [])
     else if (c = CHR ''<'' \<or> c = CHR ''>'') \<and> has_prefix s ''('' then Inl (Errorf ''process substitution is not allowed'' [])
     else if mode = Double then
       scan_segments (if c = CHR 0x5C then Escaped True else if c = CHR 0x22 then Plain else Double) (cur @ [c]) segs s
     else if c = CHR 0x5C then scan_segments (Escaped False) (cur @ [c]) segs s
     else if c = CHR 0x27 then scan_segments Single (cur @ [c]) segs s
     else if c = CHR 0x22 then scan_segments Double (cur @ [c]) segs s
     else if c = CHR ''&'' then
       (if has_prefix s ''&'' then scan_segments Plain [] (add_segment cur segs) (drop 1 s)
        else if has_prefix s ''>'' \<or> lastNonSpaceByte cur = CHR ''>'' \<or> lastNonSpaceByte cur = CHR ''<''
        then scan_segments Plain (cur @ [c]) segs s
        else Inl (Errorf ''background execution is not allowed'' []))
     else if c = CHR ''|'' then
       scan_segments Plain [] (add_segment cur segs) (if has_prefix s ''|'' then drop 1 s else s)
     else if c = CHR '';'' \<or> c = CHR 0x0A then scan_segments Plain [] (add_segment cur segs) s
     else scan_segments Plain (cur @ [c]) segs s)"

definition splitShellCommand :: "string \<Rightarrow> go_error + string list" where
  "splitShellCommand command = scan_segments Plain [] [] (trim_space command)"

section \<open>The name of a command\<close>

text \<open>The runes of a text in UTF-8: a byte and the continuation bytes after it.\<close>

function runes :: "string \<Rightarrow> string list" where
  "runes [] = []"
| "runes (c # s) =
    (c # takeWhile (char_in CHR 0x80 CHR 0xBF) s) # runes (dropWhile (char_in CHR 0x80 CHR 0xBF) s)"
  by pat_completeness auto
termination by (relation "measure length") (auto simp: length_dropWhile_le less_Suc_eq_le)

definition rune_letter :: "shell_env \<Rightarrow> string \<Rightarrow> bool" where
  "rune_letter env r = (case r of
     [c] \<Rightarrow> char_in CHR ''a'' CHR ''z'' c \<or> char_in CHR ''A'' CHR ''Z'' c
   | _ \<Rightarrow> se_letter env r)"

definition rune_digit :: "shell_env \<Rightarrow> string \<Rightarrow> bool" where
  "rune_digit env r = (case r of [c] \<Rightarrow> char_in CHR ''0'' CHR ''9'' c | _ \<Rightarrow> se_digit env r)"

definition isShellEnvAssignment :: "shell_env \<Rightarrow> string \<Rightarrow> bool" where
  "isShellEnvAssignment env token =
    (case index_byte token CHR ''='' of
       None \<Rightarrow> False
     | Some idx \<Rightarrow>
         0 < idx \<and> list_all (\<lambda>(i, r). r = ''_'' \<or> rune_letter env r \<or> rune_digit env r \<and> 0 < i)
           (enumerate 0 (runes (take idx token))))"

definition redirectionConsumesNextToken :: "string \<Rightarrow> bool" where
  "redirectionConsumesNextToken token \<longleftrightarrow> token \<in> set [''<'', ''>'', ''>>'', ''<<'', ''<<<'', ''<>'', ''1>'', ''1>>'', ''1<'',
     ''2>'', ''2>>'', ''2<'', ''&>'', ''&>>'', ''>&'', ''<&'']"

definition isShellRedirectionToken :: "string \<Rightarrow> bool" where
  "isShellRedirectionToken token =
    (if token = [] then False
     else if redirectionConsumesNextToken token then True
     else if has_prefix token ''&>'' then True
     else
       let rest = dropWhile (char_in CHR ''0'' CHR ''9'') token in
       if rest \<noteq> [] \<and> (hd rest = CHR ''<'' \<or> hd rest = CHR ''>'') then True
       else has_prefix token ''<'' \<or> has_prefix token ''>'')"

fun first_name :: "shell_env \<Rightarrow> string list \<Rightarrow> string" where
  "first_name env [] = []"
| "first_name env (token # ts) =
    (if token = [] \<or> isShellEnvAssignment env token then first_name env ts
     else if redirectionConsumesNextToken token then first_name env (drop 1 ts)
     else if isShellRedirectionToken token then first_name env ts
     else token)"

definition firstShellCommandName :: "shell_env \<Rightarrow> string \<Rightarrow> go_error + string" where
  "firstShellCommandName env segment = map_sum id (first_name env) (SplitCommandLine segment)"

section \<open>Command substitutions\<close>

text \<open>
  The text up to the parenthesis that closes a substitution, and what follows it. The scanner
  keeps \<open>depth\<close>, \<open>inSingle\<close>, \<open>inDouble\<close> and \<open>escaped\<close>; one byte changes them, or it is the closing
  parenthesis (\<^const>\<open>None\<close>). A single quote opens a quotation inside double quotes too.
\<close>

fun paren_step :: "nat \<times> bool \<times> bool \<times> bool \<Rightarrow> char \<Rightarrow> (nat \<times> bool \<times> bool \<times> bool) option" where
  "paren_step (depth, sq, dq, esc) c =
    (if esc then Some (depth, sq, dq, False)
     else if c = CHR 0x5C then Some (depth, sq, dq, True)
     else if sq then Some (depth, c \<noteq> CHR 0x27, dq, False)
     else if c = CHR 0x27 then Some (depth, True, dq, False)
     else if dq then Some (depth, False, c \<noteq> CHR 0x22, False)
     else if c = CHR 0x22 then Some (depth, False, True, False)
     else if c = CHR ''('' then Some (Suc depth, False, False, False)
     else if c = CHR '')'' then (if depth = 0 then None else Some (depth - 1, False, False, False))
     else Some (depth, False, False, False))"

fun balanced :: "nat \<times> bool \<times> bool \<times> bool \<Rightarrow> string \<Rightarrow> string \<Rightarrow> (string \<times> string) option" where
  "balanced mode inner [] = None"
| "balanced mode inner (c # s) =
    (case paren_step mode c of
       None \<Rightarrow> Some (trim_space inner, s)
     | Some mode' \<Rightarrow> balanced mode' (inner @ [c]) s)"

definition extractBalancedParen :: "string \<Rightarrow> (string \<times> string) option" where
  "extractBalancedParen s = balanced (0, False, False, False) [] s"

lemma trim_space_length: "length (trim_space s) \<le> length s"
proof -
  have "length (trim_by ps t) \<le> length t" for ps t
    using trim_by_suffix [of ps t] by auto
  then show ?thesis
    by (simp add: trim_space_def trim_right_def trim_left_def) (metis le_trans length_rev)
qed

lemma balanced_length: "balanced mode inner s = Some (t, rest) \<Longrightarrow> length t + length rest < length inner + length s"
proof (induction s arbitrary: mode inner)
  case (Cons c s)
  show ?case
  proof (cases "paren_step mode c")
    case None
    with Cons.prems trim_space_length [of inner] show ?thesis by auto
  next
    case (Some mode')
    with Cons.prems Cons.IH [of mode' "inner @ [c]"] show ?thesis by simp
  qed
qed simp

lemma extractBalancedParen_length: "extractBalancedParen s = Some (t, rest) \<Longrightarrow> length t + length rest < length s"
  using balanced_length [of _ "[]" s t rest] by (simp add: extractBalancedParen_def)

text \<open>\<open>prev\<close> is the byte before, if any; \<open>quoted\<close> is \<open>inSingle\<close>.\<close>

function substitutions :: "char option \<Rightarrow> bool \<Rightarrow> string \<Rightarrow> string list" where
  "substitutions prev quoted [] = []"
| "substitutions prev quoted (c # s) =
    (if c = CHR 0x27 \<and> prev \<noteq> Some CHR 0x5C then substitutions (Some c) (\<not> quoted) s
     else if quoted \<or> c \<noteq> CHR ''$'' \<or> \<not> has_prefix s ''('' \<or> has_prefix s ''(('' then substitutions (Some c) quoted s
     else (case extractBalancedParen (drop 1 s) of
       None \<Rightarrow> substitutions (Some c) quoted s
     | Some (inner, rest) \<Rightarrow> inner # substitutions (Some CHR '')'') quoted rest))"
  by pat_completeness auto
termination
  by (relation "measure (\<lambda>(prev, quoted, s). length s)") (auto dest!: extractBalancedParen_length)

definition extractCommandSubstitutions :: "string \<Rightarrow> string list" where
  "extractCommandSubstitutions command = substitutions None False command"

section \<open>Quoting\<close>

definition shellQuote :: "string \<Rightarrow> string" where
  "shellQuote value =
    (if value = [] then [CHR 0x27, CHR 0x27]
     else [CHR 0x27] @ replace_all value [CHR 0x27] [CHR 0x27, CHR 0x22, CHR 0x27, CHR 0x22, CHR 0x27] @ [CHR 0x27])"

definition shellJoin :: "string list \<Rightarrow> string" where
  "shellJoin argv = join '' '' (map shellQuote argv)"

end
