(* ===== verification/Shell_Policy.thy ===== *)
theory Shell_Policy
  imports Shell_Syntax
begin

text \<open>
  The shell guard (\<open>src/internal/platform/tooling/shell_policy.go\<close>): which commands run without
  asking, which are refused whatever the user says, and which are called high-risk. An error is
  a \<^typ>\<open>go_error\<close>; the reason of a risk is kept as an error too, because the code makes reasons
  of errors. File-name patterns, URLs and the working directory are fields of
  \<^typ>\<open>shell_env\<close>. Paths are Unix paths.
\<close>

record shell_command_options =
  so_AllowUnlistedCommands :: bool
  so_WorkspaceDir :: string
  so_AllowPatterns :: "string list"
  so_DenyPatterns :: "string list"
  so_DenyHighRisk :: bool
  so_AllowedCommands :: "string list"
  so_AllowLocalURLs :: bool
  so_RelaxCommandSubstitution :: bool
  so_RelaxSubstitutionAll :: bool

definition no_options :: shell_command_options where
  "no_options = \<lparr>so_AllowUnlistedCommands = False, so_WorkspaceDir = [], so_AllowPatterns = [], so_DenyPatterns = [],
     so_DenyHighRisk = False, so_AllowedCommands = [], so_AllowLocalURLs = False, so_RelaxCommandSubstitution = False,
     so_RelaxSubstitutionAll = False\<rparr>"

section \<open>Patterns\<close>

text \<open>
  \<open>strings.EqualFold\<close> folds the case of every rune; \<^const>\<open>equal_fold\<close> that of the letters of ASCII,
  which a pattern consists of.
\<close>

definition shellPatternMatches :: "shell_env \<Rightarrow> string \<Rightarrow> string \<Rightarrow> bool" where
  "shellPatternMatches env pattern0 command0 =
    (let pattern = trim_space pattern0; command = trim_space command0 in
     if pattern = [] then False
     else if pattern = ''*'' then True
     else if se_match env pattern command then True
     else if has_suffix pattern ''*'' \<and> has_prefix command (trim_suffix pattern ''*'') then True
     else equal_fold pattern command)"

definition validateShellPatterns :: "shell_env \<Rightarrow> string \<Rightarrow> shell_command_options \<Rightarrow> go_error option" where
  "validateShellPatterns env command0 opts =
    (let command = trim_space command0 in
     if command = [] then None
     else (case find (\<lambda>p. shellPatternMatches env p command) (so_DenyPatterns opts) of
       Some p \<Rightarrow> Some (Errorf ''shell command denied by policy pattern %q'' [p])
     | None \<Rightarrow>
         if length (so_AllowPatterns opts) = 0 then None
         else if list_ex (\<lambda>p. shellPatternMatches env p command) (so_AllowPatterns opts) then None
         else Some (Errorf ''shell command does not match any allowed policy pattern'' [])))"

fun normalizeShellPatterns_from :: "string list \<Rightarrow> string list \<Rightarrow> string list" where
  "normalizeShellPatterns_from seen [] = []"
| "normalizeShellPatterns_from seen (item # items) =
    (let i = trim_space item in
     if i = [] \<or> i \<in> set seen then normalizeShellPatterns_from seen items
     else i # normalizeShellPatterns_from (i # seen) items)"

definition normalizeShellPatterns :: "string list \<Rightarrow> string list" where
  "normalizeShellPatterns items = normalizeShellPatterns_from [] items"

section \<open>Risk\<close>

datatype shell_risk = LowRisk | HighRisk go_error

definition startsShell :: "string \<Rightarrow> bool" where
  "startsShell command = (let c = trim_space command in
     list_ex (has_prefix c) [''sh'', ''bash'', ''zsh'', ''cmd'', ''powershell'', ''pwsh''])"

fun adjacent :: "(string \<Rightarrow> string \<Rightarrow> bool) \<Rightarrow> string list \<Rightarrow> bool" where
  "adjacent P (x # y # xs) = (P (trim_space x) (trim_space y) \<or> adjacent P (y # xs))"
| "adjacent P _ = False"

definition downloadsPipedToShell :: "string \<Rightarrow> bool" where
  "downloadsPipedToShell command =
    adjacent (\<lambda>left right. (has_prefix left ''curl '' \<or> has_prefix left ''wget '') \<and> startsShell right)
      (split_char CHR ''|'' command)"

definition base64DecodedToShell :: "string \<Rightarrow> bool" where
  "base64DecodedToShell command =
    adjacent (\<lambda>left right. contains left ''base64'' \<and> (contains left ''-d'' \<or> contains left ''--decode'') \<and> startsShell right)
      (split_char CHR ''|'' command)"

definition inlineExecFlag :: "string list \<Rightarrow> bool" where
  "inlineExecFlag args = list_ex (\<lambda>arg0.
     let arg = trim_space arg0 in
     arg \<in> set [''-c'', ''-e'', ''/c'', ''/C''] \<or>
     has_prefix arg ''-'' \<and> (contains arg ''c'' \<or> contains arg ''e'')) args"

definition inline_code :: "string \<Rightarrow> go_error option" where
  "inline_code segment =
    (case SplitCommandLine segment of
       Inr (arg # args) \<Rightarrow>
         let name = Base (norm_word arg) in
         if name \<in> set [''python'', ''python3'', ''node'', ''ruby'', ''perl'', ''php''] \<and> inlineExecFlag args
         then Some (Errorf ''%s inline code execution requires review'' [name]) else None
     | _ \<Rightarrow> None)"

definition ClassifyShellCommandRisk :: "string \<Rightarrow> shell_risk" where
  "ClassifyShellCommandRisk command0 =
    (let command = trim_space command0; lower = to_lower command in
     if command = [] then LowRisk
     else if contains lower ''<('' \<or> contains lower ''>(''
     then HighRisk (Errorf ''process substitution can hide executed input'' [])
     else if downloadsPipedToShell lower
     then HighRisk (Errorf ''downloaded content is piped directly into a shell'' [])
     else if base64DecodedToShell lower
     then HighRisk (Errorf ''base64-decoded content is piped directly into a shell'' [])
     else (case splitShellCommand command of
       Inl e \<Rightarrow> HighRisk e
     | Inr segments \<Rightarrow> (case each inline_code segments of Some e \<Rightarrow> HighRisk e | None \<Rightarrow> LowRisk)))"

section \<open>Allowed commands\<close>

definition allowed_commands :: "string list" where
  "allowed_commands =
    [''ls'', ''cd'', ''pwd'', ''cat'', ''head'', ''tail'', ''grep'', ''rg'', ''find'', ''mkdir'', ''rm'', ''cp'', ''mv'', ''touch'',
     ''chmod'', ''git'', ''sed'', ''go'', ''python'', ''pip'', ''npm'', ''npx'', ''node'', ''pnpm'', ''yarn'', ''bun'',
     ''playwright-cli'', ''curl'', ''wget'', ''docker'', ''make'', ''sh'', ''bash'', ''jq'', ''diff'', ''echo'', ''printf'', ''ssh'',
     ''scp'', ''rsync'', ''cmd'', ''powershell'', ''pwsh'', ''type'', ''where'', ''attrib'', ''xcopy'', ''robocopy'', ''tasklist'',
     ''taskkill'', ''findstr'', ''more'', ''sort'', ''fc'', ''comp'', ''systeminfo'', ''ver'', ''ipconfig'', ''ping'', ''tracert'',
     ''netstat'', ''nslookup'', ''whoami'', ''cscript'']"

definition allowedCommand :: "string \<Rightarrow> bool" where
  "allowedCommand name \<longleftrightarrow> Base (trim_space name) \<in> set allowed_commands"

definition allowedCommandWithOptions :: "string \<Rightarrow> shell_command_options \<Rightarrow> bool" where
  "allowedCommandWithOptions name opts \<longleftrightarrow> allowedCommand name \<or>
     list_ex (\<lambda>candidate. equal_fold (Base (trim_space name)) (Base (trim_space candidate))) (so_AllowedCommands opts)"

definition add_name :: "shell_env \<Rightarrow> shell_command_options \<Rightarrow> string list \<Rightarrow> string \<Rightarrow> go_error + string list" where
  "add_name env opts names segment =
    map_sum id (\<lambda>name. if name = [] \<or> allowedCommandWithOptions name opts \<or> name \<in> set names then names else names @ [name])
      (firstShellCommandName env segment)"

definition DisallowedShellCommandsWithOptions ::
  "shell_env \<Rightarrow> string \<Rightarrow> shell_command_options \<Rightarrow> go_error + string list" where
  "DisallowedShellCommandsWithOptions env command opts =
    (case splitShellCommand command of Inl e \<Rightarrow> Inl e | Inr segments \<Rightarrow> each_st (add_name env opts) [] segments)"

section \<open>Arguments\<close>

text \<open>The argument after the first flag, [] when there is none: the loop of the three functions below.\<close>

fun arg_after :: "(string \<Rightarrow> bool) \<Rightarrow> string list \<Rightarrow> string" where
  "arg_after flag [] = []"
| "arg_after flag (arg # args) =
    (if flag (trim_space arg) then (case args of [] \<Rightarrow> [] | s # _ \<Rightarrow> s) else arg_after flag args)"

definition shellScriptArg :: "string list \<Rightarrow> string" where
  "shellScriptArg args = arg_after (\<lambda>a. a = ''-c'' \<or> has_prefix a ''-'' \<and> contains a ''c'') args"

definition cmdScriptArg :: "string list \<Rightarrow> string" where
  "cmdScriptArg args = arg_after (\<lambda>a. a = ''/c'' \<or> a = ''/C'') args"

definition powershellScriptArg :: "string list \<Rightarrow> string" where
  "powershellScriptArg args = arg_after (\<lambda>a. a \<in> set [''-Command'', ''-command'', ''-c'']) args"

lemma arg_after_mem: "arg_after flag args = [] \<or> arg_after flag args \<in> set args"
proof (induction args)
  case (Cons a as)
  have "(case as of [] \<Rightarrow> [] | s # _ \<Rightarrow> s) = [] \<or> (case as of [] \<Rightarrow> [] | s # _ \<Rightarrow> s) \<in> set as" by (cases as) simp_all
  with Cons show ?case by (cases "flag (trim_space a)") (simp_all, blast+)
qed simp

definition hasRecursiveForce :: "string list \<Rightarrow> bool" where
  "hasRecursiveForce args =
    (let flags = filter (\<lambda>a. has_prefix a ''-'' \<and> a \<noteq> ''-'' \<and> a \<noteq> ''--'') args in
     list_ex (\<lambda>a. contains a ''r'' \<or> contains a ''R'') flags \<and> list_ex (\<lambda>a. contains a ''f'') flags)"

definition targetsRoot :: "string list \<Rightarrow> bool" where
  "targetsRoot args = list_ex (\<lambda>arg0.
     let arg = trim_space arg0 in
     if arg = [] \<or> has_prefix arg ''-'' then False
     else if arg \<in> set [''/'', ''/*'', ''/.'', ''/..''] then True
     else if length arg \<ge> 2 \<and> arg ! 1 = CHR '':'' \<and> (length arg = 2 \<or> arg ! 2 = CHR 0x5C \<or> arg ! 2 = CHR ''/'') \<and>
       length (Clean arg) \<le> 3 then True
     else Clean (trim_right_set [CHR ''/'', CHR ''*'', CHR 0x5C] arg) \<in> set [''/'', ''~'']) args"

definition isMetadataHost :: "string \<Rightarrow> bool" where
  "isMetadataHost host \<longleftrightarrow>
     host \<in> set [''169.254.169.254'', ''169.254.170.2'', ''100.100.100.200'', ''metadata'', ''metadata.google.internal'']"

definition local_or_private :: "ip \<Rightarrow> bool" where
  "local_or_private a \<longleftrightarrow>
     IsPrivate a \<or> IsLoopback a \<or> IsLinkLocalUnicast a \<or> IsLinkLocalMulticast a \<or> IsUnspecified a"

abbreviation local_target :: "string \<Rightarrow> go_error" where
  "local_target host \<equiv> Errorf ''shell command URL targets private or local network address: %s'' [host]"

definition validateShellURLArg :: "shell_env \<Rightarrow> string \<Rightarrow> bool \<Rightarrow> go_error option" where
  "validateShellURLArg env arg allowLocalURLs =
    (let raw = trim_set [CHR 0x22, CHR 0x27] (trim_space arg) in
     if raw = [] then None
     else (case se_parse env raw of
       None \<Rightarrow> None
     | Some u \<Rightarrow>
         if su_Scheme u = [] \<or> su_Host u = [] then None
         else if to_lower (su_Scheme u) \<notin> set [''http'', ''https''] then None
         else
           let host = to_lower (su_Hostname u) in
           if isMetadataHost host then Some (Errorf ''shell command URL targets cloud metadata host: %s'' [host])
           else if allowLocalURLs then None
           else if (case se_parse_ip env host of Some a \<Rightarrow> local_or_private a | None \<Rightarrow> False) then Some (local_target host)
           else if host = ''localhost'' \<or> has_suffix host ''.localhost'' then Some (local_target host)
           else None))"

section \<open>The workspace\<close>

definition isLocalPathSensitiveCommand :: "string \<Rightarrow> string list \<Rightarrow> bool" where
  "isLocalPathSensitiveCommand name args \<longleftrightarrow>
     name \<in> set [''rm'', ''cp'', ''mv'', ''chmod'', ''chown'', ''mkdir'', ''touch''] \<or>
     name = ''sed'' \<and> list_ex (\<lambda>a. has_prefix a ''-i'') args"

definition looksLikeURL :: "shell_env \<Rightarrow> string \<Rightarrow> bool" where
  "looksLikeURL env value = (case se_parse env value of None \<Rightarrow> False | Some u \<Rightarrow> su_Scheme u \<noteq> [] \<and> su_Host u \<noteq> [])"

definition looksLikeRemotePath :: "string \<Rightarrow> bool" where
  "looksLikeRemotePath value =
    (if contains value ''://'' then True
     else (case index_byte value CHR '':'' of
       None \<Rightarrow> False
     | Some idx \<Rightarrow>
         if idx = 0 then False
         else if idx = 1 \<and> length value > 2 \<and> (value ! 2 = CHR 0x5C \<or> value ! 2 = CHR ''/'') then False
         else \<not> contains (take idx value) ''/''))"

definition isPotentialPath :: "string \<Rightarrow> bool" where
  "isPotentialPath value \<longleftrightarrow>
     has_prefix value ''.'' \<or> has_prefix value ''~'' \<or> IsAbs value \<or> contains value ''/''"

definition abs_path :: "shell_env \<Rightarrow> string \<Rightarrow> go_error + string" where
  "abs_path env p = (if IsAbs p then Inr (Clean p) else map_sum id (\<lambda>wd. Join2 wd p) (se_getwd env))"

definition path_parts :: "string \<Rightarrow> string list" where
  "path_parts p = filter (\<lambda>x. x \<noteq> []) (split_char CHR ''/'' p)"

fun rel_parts :: "string list \<Rightarrow> string list \<Rightarrow> string list" where
  "rel_parts (b # bs) (t # ts) = (if b = t then rel_parts bs ts else replicate (length (b # bs)) ''..'' @ t # ts)"
| "rel_parts bs ts = replicate (length bs) ''..'' @ ts"

text \<open>\<open>filepath.Rel\<close> of two absolute, cleaned paths.\<close>

definition Rel :: "string \<Rightarrow> string \<Rightarrow> string" where
  "Rel base targ = (if targ = base then ''.'' else join ''/'' (rel_parts (path_parts base) (path_parts targ)))"

definition path_arg :: "shell_env \<Rightarrow> string \<Rightarrow> string \<Rightarrow> string \<Rightarrow> go_error option" where
  "path_arg env workspaceAbs command arg =
    (if has_prefix arg ''-'' \<or> isShellRedirectionToken arg \<or> looksLikeRemotePath arg \<or> looksLikeURL env arg then None
     else if \<not> isPotentialPath arg then None
     else (case abs_path env (if IsAbs arg then arg else Join2 workspaceAbs arg) of
       Inl e \<Rightarrow> Some e
     | Inr cleaned \<Rightarrow>
         let rel = Rel workspaceAbs cleaned in
         check (rel = ''..'' \<or> has_prefix rel ''../'' \<or> IsAbs rel) (Errorf ''%s path escapes workspace: %s'' [command, arg])))"

fun path_args :: "shell_env \<Rightarrow> string \<Rightarrow> string \<Rightarrow> string list \<Rightarrow> go_error option" where
  "path_args env workspaceAbs command [] = None"
| "path_args env workspaceAbs command (arg0 # args) =
    (let arg = trim_set [CHR 0x22, CHR 0x27] (trim_space arg0) in
     if arg = [] \<or> arg = ''--'' then path_args env workspaceAbs command args
     else if redirectionConsumesNextToken arg then path_args env workspaceAbs command (drop 1 args)
     else andthen (path_arg env workspaceAbs command arg) (path_args env workspaceAbs command args))"

definition validateWorkspacePathArgs :: "shell_env \<Rightarrow> string \<Rightarrow> string \<Rightarrow> string list \<Rightarrow> go_error option" where
  "validateWorkspacePathArgs env workspace command args =
    (if blank workspace then None
     else (case abs_path env (trim_space workspace) of
       Inl e \<Rightarrow> Some e
     | Inr workspaceAbs \<Rightarrow> path_args env workspaceAbs command args))"

section \<open>The guard\<close>

definition dangerous :: "string list" where
  "dangerous = [''sudo'', ''su'', ''shutdown'', ''reboot'', ''halt'', ''poweroff'', ''mkfs'', ''mount'', ''umount'']"

text \<open>The script a segment hands to another shell, [] when there is none.\<close>

definition script_arg :: "string \<Rightarrow> string list \<Rightarrow> string" where
  "script_arg base args =
    (if base \<in> set [''sh'', ''bash''] then shellScriptArg args
     else if base = ''cmd'' then cmdScriptArg args
     else if base \<in> set [''powershell'', ''pwsh''] then powershellScriptArg args
     else [])"

definition denied_base :: "string \<Rightarrow> string list \<Rightarrow> go_error option" where
  "denied_base base args =
    (if base \<in> set dangerous then Some (Errorf ''dangerous shell command denied: %s'' [base])
     else if base = ''rm'' \<and> hasRecursiveForce args \<and> targetsRoot args
     then Some (Errorf ''dangerous shell command denied: rm -rf targeting root'' [])
     else None)"

lemma script_arg_mem:
  assumes "script_arg base args \<noteq> []"
  shows "script_arg base args \<in> set args"
proof -
  have pick: "(if b then x else y) = [] \<or> (if b then x else y) \<in> set args"
    if "x = [] \<or> x \<in> set args" "y = [] \<or> y \<in> set args" for b and x y :: string
    using that by (cases b) simp_all
  have "script_arg base args = [] \<or> script_arg base args \<in> set args"
    unfolding script_arg_def shellScriptArg_def cmdScriptArg_def powershellScriptArg_def
    by (intro pick arg_after_mem) simp
  with assms show ?thesis by simp
qed

abbreviation total :: "string list \<Rightarrow> nat" where
  "total args \<equiv> sum_list (map length args)"

lemma mem_total: "x \<in> set xs \<Longrightarrow> length x \<le> total xs"
  by (induction xs) auto

text \<open>One turn of the argument splitter: nothing gets longer.\<close>

lemma split_args_step:
  assumes "[] \<notin> set args"
  obtains quote' cur' args' s' where "split_args quote cur args (c # s) = split_args quote' cur' args' s'"
    "length s' \<le> length s" "[] \<notin> set args'" "total args' + length cur' + length s' \<le> total args + length cur + length (c # s)"
proof (cases "c = CHR 0x5C \<and> 0 < escapedRune quote s")
  case True
  then have "split_args quote cur args (c # s) = split_args quote (cur @ take (escapedRune quote s) s) args (drop (escapedRune quote s) s)"
    by (simp add: Let_def)
  from that [OF this] show ?thesis using assms escapedRune_le [of quote s] by simp
next
  case esc: False
  show ?thesis
  proof (cases quote)
    case None
    have fl: "total (flush cur args) = total args + length cur" "[] \<notin> set (flush cur args)"
      using assms by (auto simp: flush_def)
    let ?n = "lead_len space_seqs (c # s)"
    have n: "?n \<le> length (c # s)" by (rule lead_len_le)
    consider "c = CHR 0x5C" | "c \<noteq> CHR 0x5C" "c = CHR 0x27 \<or> c = CHR 0x22"
      | "c \<noteq> CHR 0x5C" "c \<noteq> CHR 0x27" "c \<noteq> CHR 0x22" "0 < ?n"
      | "c \<noteq> CHR 0x5C" "c \<noteq> CHR 0x27" "c \<noteq> CHR 0x22" "?n = 0" by blast
    then show ?thesis
    proof cases
      case 2
      then show ?thesis using that [of "Some c" cur args s] None assms by auto
    next
      case 3
      then have "split_args quote cur args (c # s) = split_args None [] (flush cur args) (drop ?n (c # s))"
        using None by simp
      from that [OF this] show ?thesis using 3 fl n by (cases ?n) auto
    qed (use that [of None "cur @ [c]" args s] esc None assms in simp_all)
  next
    case (Some q)
    with esc have "split_args quote cur args (c # s) =
        (if c = q then split_args None cur args s else split_args quote (cur @ [c]) args s)" by auto
    then show ?thesis
      using assms that [of quote "cur @ [c]" args s] that [of None cur args s] by (cases "c = q") simp_all
  qed
qed

lemma split_args_total:
  "split_args quote cur args s = (q, out) \<Longrightarrow> [] \<notin> set args \<Longrightarrow>
     [] \<notin> set out \<and> total out \<le> total args + length cur + length s"
proof (induction "length s" arbitrary: quote cur args s rule: less_induct)
  case less
  show ?case
  proof (cases s)
    case Nil
    with less.prems show ?thesis by (cases "cur = []") (auto simp: flush_def)
  next
    case (Cons c t)
    obtain quote' cur' args' s' where st: "split_args quote cur args (c # t) = split_args quote' cur' args' s'"
      "length s' \<le> length t" "[] \<notin> set args'" "total args' + length cur' + length s' \<le> total args + length cur + length (c # t)"
      using split_args_step [OF less.prems(2)] by metis
    with less.hyps [of s' quote' cur' args'] less.prems(1) Cons show ?thesis by simp
  qed
qed

lemma SplitCommandLine_total:
  assumes "SplitCommandLine segment = Inr argv"
  shows "argv \<noteq> []" "[] \<notin> set argv" "total argv \<le> length segment"
proof -
  obtain q out where o: "split_args None [] [] (trim_space segment) = (q, out)" by fastforce
  with assms show "argv \<noteq> []" and r: "[] \<notin> set argv" and "total argv \<le> length segment"
    using split_args_total [OF o] trim_space_length [of segment]
    by (auto simp: SplitCommandLine_def split: if_splits option.splits list.splits)
qed

text \<open>A segment is no longer than the command, a substitution is shorter.\<close>

lemma scan_segments_length:
  "scan_segments mode cur segs s = Inr out \<Longrightarrow> x \<in> set out \<Longrightarrow> x \<in> set segs \<or> length x \<le> length cur + length s"
proof (induction "length s" arbitrary: mode cur segs s rule: less_induct)
  case less
  have add: "y \<in> set (add_segment cur segs) \<Longrightarrow> y \<in> set segs \<or> length y \<le> length cur" for y
    using trim_space_length [of cur] by (auto simp: add_segment_def split: if_splits)
  show ?case
  proof (cases s)
    case Nil
    with less.prems add show ?thesis by (auto split: scan_mode.splits)
  next
    case (Cons c s')
    have IH: "scan_segments m k g t = Inr out \<Longrightarrow> length t < length s \<Longrightarrow> x \<in> set g \<or> length x \<le> length k + length t" for m k g t
      using less.hyps [of t m k g] less.prems(2) by blast
    consider m where "scan_segments m (cur @ [c]) segs s' = Inr out"
      | t where "scan_segments Plain [] (add_segment cur segs) t = Inr out" "length t \<le> length s'"
    proof (cases mode)
      case Plain
      have short: "length (if b then drop 1 s' else s') \<le> length s'" for b by simp
      from less.prems(1) Cons Plain that(1) that(2) [OF _ short] that(2) [OF _ order_refl] that(2) [of "drop 1 s'"] show thesis
        by (simp split: if_split_asm)
    next
      case Double
      with less.prems(1) Cons that(1) show thesis by (auto split: if_split_asm)
    qed (use less.prems(1) Cons that(1) in auto)
    then show ?thesis
    proof cases
      case 1
      from IH [OF this] Cons show ?thesis by simp
    next
      case 2
      from IH [OF 2(1)] 2(2) Cons add show ?thesis by fastforce
    qed
  qed
qed

lemma splitShellCommand_length:
  assumes "splitShellCommand command = Inr segments" "segment \<in> set segments"
  shows "length segment \<le> length command"
  using scan_segments_length [OF assms(1) [unfolded splitShellCommand_def] assms(2)] trim_space_length [of command] by simp

lemma substitutions_length: "inner \<in> set (substitutions prev quoted s) \<Longrightarrow> length inner < length s"
proof (induction "length s" arbitrary: prev quoted s rule: less_induct)
  case less
  show ?case
  proof (cases s)
    case (Cons c s')
    consider prev' quoted' where "inner \<in> set (substitutions prev' quoted' s')"
      | t rest where "extractBalancedParen (drop 1 s') = Some (t, rest)"
          "inner = t \<or> inner \<in> set (substitutions (Some CHR '')'') quoted rest)"
      using less.prems Cons by (simp split: if_split_asm option.split_asm prod.split_asm) blast+
    then show ?thesis
    proof cases
      case 1
      with less.hyps Cons show ?thesis by fastforce
    next
      case 2
      have "length t + length rest < length s" using extractBalancedParen_length [OF 2(1)] Cons by simp
      with 2(2) less.hyps [of rest "Some CHR '')''" quoted] show ?thesis by auto
    qed
  qed (use less.prems in simp)
qed

section \<open>The guard itself\<close>

lemma tl_total:
  assumes "SplitCommandLine segment = Inr argv"
  shows "total (tl argv) < length segment"
proof (cases argv)
  case (Cons a as)
  with SplitCommandLine_total [OF assms] show ?thesis by (cases a) auto
qed (use SplitCommandLine_total [OF assms] in simp)

text \<open>
  A command is refused when it, a script it hands to another shell or a substitution in it is.
  The three functions call each other; every call is on a shorter text.
\<close>

abbreviation not_allowed :: "string \<Rightarrow> go_error" where
  "not_allowed name \<equiv> Errorf ''command not allowed: %s'' [name]"

function (sequential) validateShellCommandWithOptions :: "shell_env \<Rightarrow> shell_command_options \<Rightarrow> string \<Rightarrow> go_error option"
  and validateCommandSafety :: "shell_env \<Rightarrow> shell_command_options \<Rightarrow> string \<Rightarrow> string list \<Rightarrow> go_error option"
  and commandSubstitutionRisk :: "shell_env \<Rightarrow> shell_command_options \<Rightarrow> string \<Rightarrow> shell_risk"
where
  "validateShellCommandWithOptions env opts command =
    andthen (validateShellPatterns env command opts)
    (andthen (if so_DenyHighRisk opts
              then (case ClassifyShellCommandRisk command of
                      HighRisk e \<Rightarrow> Some (Wrapf ''high-risk shell command denied: %s'' [] e) | LowRisk \<Rightarrow> None)
              else None)
    (andthen (if so_RelaxSubstitutionAll opts \<or> extractCommandSubstitutions command = [] then None
              else if \<not> so_RelaxCommandSubstitution opts then Some (Errorf ''command substitution is not allowed'' [])
              else each (\<lambda>inner. case commandSubstitutionRisk env opts inner of
                     HighRisk e \<Rightarrow> Some (Wrapf ''command substitution denied: %s'' [] e) | LowRisk \<Rightarrow> None)
                   (extractCommandSubstitutions command))
     (case splitShellCommand command of
        Inl e \<Rightarrow> Some e
      | Inr segments \<Rightarrow>
          if segments = [] then Some (Errorf ''empty command'' [])
          else each (\<lambda>segment.
            case firstShellCommandName env segment of
              Inl e \<Rightarrow> Some e
            | Inr name \<Rightarrow>
                if name = [] then None
                else (case SplitCommandLine segment of
                  Inl e \<Rightarrow> Some e
                | Inr argv \<Rightarrow>
                    andthen (validateCommandSafety env opts name argv)
                      (check (\<not> so_AllowUnlistedCommands opts \<and> \<not> allowedCommandWithOptions name opts) (not_allowed name))))
            segments)))"
| "validateCommandSafety env opts name argv =
    (let base = Base (trim_space name); args = tl argv in
     andthen (denied_base base args)
     (andthen (if script_arg base args \<noteq> [] then validateShellCommandWithOptions env opts (script_arg base args) else None)
     (andthen (each (\<lambda>arg. validateShellURLArg env arg (so_AllowLocalURLs opts)) args)
      (if isLocalPathSensitiveCommand base args then validateWorkspacePathArgs env (so_WorkspaceDir opts) base args
       else None))))"
| "commandSubstitutionRisk env opts inner0 =
    (let inner = trim_space inner0 in
     if inner = [] then HighRisk (Errorf ''empty command substitution'' [])
     else if list_ex (contains inner) [''$('', [CHR 0x60], ''<('', ''>('']
     then HighRisk (Errorf ''nested command substitution'' [])
     else (case ClassifyShellCommandRisk inner of
       HighRisk e \<Rightarrow> HighRisk e
     | LowRisk \<Rightarrow>
         (case SplitCommandLine inner of
            Inl e \<Rightarrow> HighRisk (Errorf ''unparseable command substitution'' [])
          | Inr argv \<Rightarrow>
              (case validateCommandSafety env opts (Base (trim_space (hd argv))) argv of
                 Some e \<Rightarrow> HighRisk e | None \<Rightarrow> LowRisk))))"
  by pat_completeness auto

termination
proof (relation "measure (\<lambda>x. case x of
    Inl (_, _, command) \<Rightarrow> 2 * length command
  | Inr (Inl (_, _, _, argv)) \<Rightarrow> 2 * total (tl argv) + 1
  | Inr (Inr (_, _, inner)) \<Rightarrow> 2 * length inner)", goal_cases)
  case (2 env opts command inner)
  then show ?case using substitutions_length by (auto simp: extractCommandSubstitutions_def)
next
  case (3 env opts command segments segment name argv)
  then show ?case using tl_total [of segment argv] splitShellCommand_length [of command segments segment] by auto
next
  case (4 env opts name argv base args)
  then show ?case using mem_total [OF script_arg_mem] by fastforce
next
  case (5 env opts inner0 inner argv)
  then show ?case using tl_total [of inner argv] trim_space_length [of inner0] by auto
qed simp

declare validateShellCommandWithOptions.simps [simp del] validateCommandSafety.simps [simp del] commandSubstitutionRisk.simps [simp del]

text \<open>The same guard for a command that is given as a list of arguments; its joined line is only checked as a whole.\<close>

definition validateCommandSubstitutions :: "shell_env \<Rightarrow> string \<Rightarrow> shell_command_options \<Rightarrow> go_error option" where
  "validateCommandSubstitutions env command opts =
    (let subs = extractCommandSubstitutions command in
     if so_RelaxSubstitutionAll opts \<or> subs = [] then None
     else if \<not> so_RelaxCommandSubstitution opts then Some (Errorf ''command substitution is not allowed'' [])
     else each (\<lambda>inner. case commandSubstitutionRisk env opts inner of
            HighRisk e \<Rightarrow> Some (Wrapf ''command substitution denied: %s'' [] e) | LowRisk \<Rightarrow> None) subs)"

definition validateArgvCommandWithOptions :: "shell_env \<Rightarrow> string list \<Rightarrow> shell_command_options \<Rightarrow> go_error option" where
  "validateArgvCommandWithOptions env argv opts =
    (if argv = [] then Some (Errorf ''empty command'' [])
     else let command = join '' '' argv; name = trim_space (hd argv) in
       andthen (validateShellPatterns env command opts)
       (andthen (if so_DenyHighRisk opts
                 then (case ClassifyShellCommandRisk command of
                         HighRisk e \<Rightarrow> Some (Wrapf ''high-risk shell command denied: %s'' [] e) | LowRisk \<Rightarrow> None)
                 else None)
       (andthen (validateCommandSubstitutions env command opts)
       (andthen (check (name = []) (Errorf ''empty command'' []))
       (andthen (validateCommandSafety env opts name argv)
         (check (\<not> so_AllowUnlistedCommands opts \<and> \<not> allowedCommandWithOptions name opts) (not_allowed name)))))))"

end
