(* ===== verification/Shell_Correct.thy ===== *)
theory Shell_Correct
  imports Shell_Policy
begin

text \<open>
  What the shell guard promises: every command that an accepted line runs, directly or through a
  script handed to another shell, passed the checks; quoting and splitting are inverse; the
  paths of file commands stay in the workspace. At the end, the lines that get past it.
\<close>

section \<open>Commands a line runs\<close>

text \<open>
  \<open>runs env line (name, argv)\<close>: the line runs a command of that name with those arguments, in a
  segment of its own or inside a script that a segment hands to \<open>sh -c\<close> and its kin.
\<close>

inductive runs :: "shell_env \<Rightarrow> string \<Rightarrow> string \<times> string list \<Rightarrow> bool" for env where
  segment: "runs env command (name, argv)"
    if "splitShellCommand command = Inr segments" "s \<in> set segments"
      "firstShellCommandName env s = Inr name" "name \<noteq> []" "SplitCommandLine s = Inr argv"
| script: "runs env command c"
    if "runs env command (name, argv)" "script_arg (Base (trim_space name)) (tl argv) \<noteq> []"
      "runs env (script_arg (Base (trim_space name)) (tl argv)) c"

definition passes :: "shell_env \<Rightarrow> shell_command_options \<Rightarrow> string \<times> string list \<Rightarrow> bool" where
  "passes env opts c =
    (let (name, argv) = c; base = Base (trim_space name) in
     validateCommandSafety env opts name argv = None \<and>
     (so_AllowUnlistedCommands opts \<or> allowedCommandWithOptions name opts))"

lemma segment_passes:
  assumes "validateShellCommandWithOptions env opts command = None"
    "splitShellCommand command = Inr segments" "s \<in> set segments"
    "firstShellCommandName env s = Inr name" "name \<noteq> []" "SplitCommandLine s = Inr argv"
  shows "passes env opts (name, argv)"
proof -
  have "segments \<noteq> []" using assms(3) by auto
  with assms(1) show ?thesis
    unfolding validateShellCommandWithOptions.simps [of env opts command] andthen_None assms(2) sum.case
    by (simp only: if_False each_None) (auto simp: passes_def assms(4-6) noerr dest!: bspec [OF _ assms(3)])
qed

lemma script_validated:
  assumes "passes env opts (name, argv)" "script_arg (Base (trim_space name)) (tl argv) \<noteq> []"
  shows "validateShellCommandWithOptions env opts (script_arg (Base (trim_space name)) (tl argv)) = None"
  using assms by (auto simp: passes_def Let_def validateCommandSafety.simps noerr)

lemma runs_passes:
  "runs env command c \<Longrightarrow> validateShellCommandWithOptions env opts command = None \<Longrightarrow> passes env opts c"
proof (induction rule: runs.induct)
  case (segment command segments s name argv)
  then show ?case using segment_passes by blast
next
  case (script command name argv c)
  from script_validated [OF script.IH(1) [OF script.prems] script.hyps(2)] show ?case by (rule script.IH(2))
qed

lemma passes_checked:
  assumes "passes env opts (name, argv)"
  shows "Base (trim_space name) \<notin> set dangerous"
    "\<not> (Base (trim_space name) = ''rm'' \<and> hasRecursiveForce (tl argv) \<and> targetsRoot (tl argv))"
    "arg \<in> set (tl argv) \<Longrightarrow> validateShellURLArg env arg (so_AllowLocalURLs opts) = None"
    "so_AllowUnlistedCommands opts \<or> allowedCommandWithOptions name opts"
  using assms by (auto simp: passes_def Let_def validateCommandSafety.simps denied_base_def noerr split: if_split_asm)


definition plain_shell :: shell_env where
  "plain_shell = \<lparr>se_letter = (\<lambda>_. False), se_digit = (\<lambda>_. False), se_parse = (\<lambda>_. None), se_parse_ip = (\<lambda>_. None),
     se_match = (\<lambda>_ _. False), se_getwd = Inr ''/ws''\<rparr>"

text \<open>The line \<open>ls && sh -c 'git status'\<close> runs \<open>git status\<close>.\<close>

abbreviation nested_line :: string where
  "nested_line \<equiv> ''ls && sh -c '' @ shellQuote ''git status''"

lemma nested_runs: "runs plain_shell nested_line (''git'', [''git'', ''status''])"
proof -
  have outer: "splitShellCommand nested_line = Inr [''ls'', ''sh -c '' @ shellQuote ''git status'']" by code_simp
  have sh: "runs plain_shell nested_line (''sh'', [''sh'', ''-c'', ''git status''])"
    by (rule runs.segment [OF outer, where s = "''sh -c '' @ shellQuote ''git status''"]) code_simp+
  have script: "script_arg (Base (trim_space ''sh'')) (tl [''sh'', ''-c'', ''git status'']) = ''git status''" by code_simp
  have "splitShellCommand ''git status'' = Inr [''git status'']" by code_simp
  then have "runs plain_shell ''git status'' (''git'', [''git'', ''status''])"
    by (rule runs.segment [where s = "''git status''"]) code_simp+
  with runs.script [OF sh] script show ?thesis by simp
qed


section \<open>Quoting and splitting\<close>

lemma split_quoted:
  assumes "CHR 0x5C \<notin> set v"
  shows "split_args (Some CHR 0x27) cur args
      (replace_from 0 [CHR 0x27] [CHR 0x27, CHR 0x22, CHR 0x27, CHR 0x22, CHR 0x27] v @ CHR 0x27 # rest) =
    split_args None (cur @ v) args rest"
  using assms by (induction v arbitrary: cur) (auto simp: has_prefix_def)

lemma split_shellQuote:
  assumes "v \<noteq> []" "CHR 0x5C \<notin> set v"
  shows "split_args None cur args (shellQuote v @ rest) = split_args None (cur @ v) args rest"
  using assms split_quoted [OF assms(2), of cur args rest] by (simp add: shellQuote_def replace_all_def)

lemma lead_len_blank: "lead_len space_seqs (CHR 0x20 # s) = 1"
  by (simp add: lead_len_def space_seqs_def has_prefix_def)

lemma split_shellJoin:
  assumes "vs \<noteq> []" "\<forall>v \<in> set vs. v \<noteq> [] \<and> CHR 0x5C \<notin> set v"
  shows "split_args None [] args (shellJoin vs) = (None, args @ vs)"
  using assms
proof (induction vs arbitrary: args)
  case (Cons v vs)
  show ?case
  proof (cases vs)
    case Nil
    with Cons.prems split_shellQuote [of v "[]" args "[]"] show ?thesis by (simp add: shellJoin_def flush_def)
  next
    case (Cons w ws)
    then have "shellJoin (v # vs) = shellQuote v @ CHR 0x20 # shellJoin vs" by (simp add: shellJoin_def)
    then have "split_args None [] args (shellJoin (v # vs)) = split_args None [] (args @ [v]) (shellJoin vs)"
      using Cons.prems split_shellQuote [of v "[]" args] by (simp add: lead_len_blank flush_def)
    also have "\<dots> = (None, (args @ [v]) @ vs)" using Cons.IH Cons.prems Cons by simp
    finally show ?thesis by simp
  qed
qed simp

lemma lead_len_quote: "lead_len space_seqs (CHR 0x27 # s) = 0" "lead_len (map rev space_seqs) (CHR 0x27 # s) = 0"
  by (simp_all add: lead_len_def space_seqs_def has_prefix_def)

lemma trim_quoted: "trim_space (CHR 0x27 # s @ [CHR 0x27]) = CHR 0x27 # s @ [CHR 0x27]"
  by (simp add: trim_space_def trim_left_def trim_right_def lead_len_quote)

lemma shellJoin_quoted:
  assumes "vs \<noteq> []"
  obtains s where "shellJoin vs = CHR 0x27 # s @ [CHR 0x27]"
proof -
  have q: "\<exists>s. shellQuote v = CHR 0x27 # s @ [CHR 0x27]" for v by (auto simp: shellQuote_def)
  have "\<exists>s. shellJoin vs = CHR 0x27 # s @ [CHR 0x27]"
    using assms
  proof (induction vs rule: list_nonempty_induct)
    case (single v)
    with q show ?case by (simp add: shellJoin_def)
  next
    case (cons v vs)
    then obtain s t where "shellQuote v = CHR 0x27 # s @ [CHR 0x27]" "shellJoin vs = CHR 0x27 # t @ [CHR 0x27]"
      using q by blast
    with cons.hyps show ?case by (cases vs) (auto simp: shellJoin_def)
  qed
  then show thesis using that by blast
qed



section \<open>Paths of file commands\<close>

abbreviation unquoted :: "string \<Rightarrow> string" where
  "unquoted arg \<equiv> trim_set [CHR 0x22, CHR 0x27] (trim_space arg)"

lemma path_args_None:
  assumes "path_args env wsroot command args = None" "list_all (\<lambda>a. \<not> redirectionConsumesNextToken (unquoted a)) args"
    "arg \<in> set args" "unquoted arg \<noteq> []" "unquoted arg \<noteq> ''--''"
  shows "path_arg env wsroot command (unquoted arg) = None"
  using assms by (induction args) (auto simp: Let_def noerr split: if_splits)

lemma rel_parts_up: "(\<exists>xs. rel_parts bs ts = ''..'' # xs) \<or> (\<exists>rest. ts = bs @ rest)"
proof (induction bs arbitrary: ts)
  case (Cons b bs)
  then show ?case by (cases ts) simp_all
qed simp

lemma join_up: "join ''/'' (''..'' # xs) = ''..'' \<or> has_prefix (join ''/'' (''..'' # xs)) ''../''"
  by (cases xs) (auto simp: has_prefix_def)

lemma Rel_inside:
  assumes "\<not> (Rel base targ = ''..'' \<or> has_prefix (Rel base targ) ''../'')"
  shows "\<exists>rest. path_parts targ = path_parts base @ rest"
proof (cases "targ = base")
  case False
  have "rel_parts (path_parts base) (path_parts targ) \<noteq> ''..'' # xs" for xs
    using assms False join_up [of xs] by (metis Rel_def)
  with rel_parts_up show ?thesis by blast
qed simp



section \<open>Lines that get past the guard\<close>

definition hidden_removal :: string where
  "hidden_removal = ''rm '' @ [CHR 0x27] @ ''x'' @ [CHR 0x5C, CHR 0x27] @ '' -rf / '' @ [CHR 0x27] @ ''y'' @ [CHR 0x5C, CHR 0x27]"


end
