(* ===== verification/Permission_Model.thy ===== *)
theory Permission_Model
  imports Shell_Policy "HOL-Library.AList"
begin

text \<open>
  The data of the permission manager (\<open>internal/toolruntime/permissions.go\<close>): requests, results,
  pending requests and overrides, the keys under which decisions are stored, and the grant scopes.

  A point in time is the number of nanoseconds since the zero time of Go, so 0 is the zero time; a
  duration is a number of nanoseconds. The JSON object of a call is a list of fields. The
  environment holds the standard library functions whose value the code only passes on: SHA-1,
  \<open>time.ParseDuration\<close> and the text of an error value.
\<close>

record permission_env =
  pe_sha1 :: "string \<Rightarrow> 8 word list"
  pe_ParseDuration :: "string \<Rightarrow> int option"
  pe_error :: "go_error \<Rightarrow> string"
  pe_shell :: shell_env

datatype permission_decision = NoDecision | PermissionAbstain | PermissionAllow | PermissionDeny | PermissionPending

datatype permission_status = NoStatus | StatusPending | StatusApproved | StatusDenied | StatusExpired | StatusResumed

type_synonym json_object = "(string \<times> json) list"

record interactive_approval_policy =
  ia_Mode :: string
  ia_Enabled :: bool
  ia_Sources :: "string list"
  ia_Tools :: "string list"
  ia_TrustedPathPrefixes :: "string list"
  ia_TrustedCommandPrefixes :: "string list"
  ia_PendingTTLSeconds :: int

record permission_policy =
  po_BlockAutomationMutations :: bool
  po_InteractiveApproval :: interactive_approval_policy
  po_SecurityProfile :: string

record permission_request =
  pr_SessionID :: string
  pr_TurnID :: string
  pr_Source :: string
  pr_Sender :: string
  pr_ToolName :: string
  pr_Action :: string
  pr_Paths :: "string list"
  pr_Command :: string
  pr_Mutation :: bool
  pr_Input :: json_object

record permission_result =
  re_Decision :: permission_decision
  re_Reason :: string
  re_Scope :: string
  re_RequestID :: string

record pending_permission =
  pp_ID :: string
  pp_Status :: permission_status
  pp_Request :: permission_request
  pp_Reason :: string
  pp_CreatedAt :: int
  pp_ExpiresAt :: int

record permission_override =
  ov_request :: permission_request
  ov_result :: permission_result
  ov_remaining :: int
  ov_expiresAt :: int

record permission_session_state =
  ss_Overrides :: "permission_override list"
  ss_Pending :: "pending_permission list"

record permission_resolution =
  rs_RequestID :: string
  rs_Decision :: permission_decision
  rs_Status :: permission_status
  rs_Scope :: string
  rs_Reason :: string
  rs_Request :: permission_request

type_synonym permission_rule = "permission_request \<Rightarrow> permission_result option"

abbreviation result_of :: "permission_decision \<Rightarrow> string \<Rightarrow> string \<Rightarrow> permission_result" where
  "result_of d reason scope \<equiv> \<lparr>re_Decision = d, re_Reason = reason, re_Scope = scope, re_RequestID = []\<rparr>"

section \<open>The input of a call\<close>

definition field :: "json_object \<Rightarrow> string \<Rightarrow> json" where
  "field obj key = (case map_of obj key of None \<Rightarrow> JNull | Some v \<Rightarrow> v)"

fun asString :: "json \<Rightarrow> string" where
  "asString (JStr s) = s"
| "asString _ = []"

fun json_strings :: "json list \<Rightarrow> string list" where
  "json_strings [] = []"
| "json_strings (JStr s # vs) = s # json_strings vs"
| "json_strings (_ # vs) = json_strings vs"

fun asStringSlice :: "json \<Rightarrow> string list" where
  "asStringSlice (JArr vs) = json_strings vs"
| "asStringSlice _ = []"

abbreviation input_action :: "json_object \<Rightarrow> string" where
  "input_action obj \<equiv> to_lower (trim_space (asString (field obj ''action'')))"

definition bundle_change :: "json_object \<Rightarrow> bool" where
  "bundle_change obj \<longleftrightarrow>
     asStringSlice (field obj ''enable_bundles'') \<noteq> [] \<or> asStringSlice (field obj ''disable_bundles'') \<noteq> []"

definition inferPermissionAction :: "string \<Rightarrow> json_object \<Rightarrow> string" where
  "inferPermissionAction toolName obj =
    (if input_action obj \<noteq> [] then input_action obj
     else if toolName = ''tool_exchange'' then (if bundle_change obj then ''mutate'' else ''inspect'')
     else if toolName = ''install_package'' then ''install''
     else if toolName = ''remove_package'' then ''remove''
     else if toolName = ''write_file'' then ''write''
     else if toolName = ''edit_file'' then ''edit''
     else if toolName = ''attach_file'' then ''attach''
     else if toolName = ''read_file'' then ''read''
     else if toolName = ''bash'' then ''exec''
     else if toolName = ''manage_session'' then input_action obj
     else [])"

definition inferPermissionMutation :: "string \<Rightarrow> json_object \<Rightarrow> bool" where
  "inferPermissionMutation toolName obj =
    (if toolName = ''tool_exchange'' then bundle_change obj
     else if toolName \<in> {''bash'', ''background'', ''write_file'', ''edit_file'', ''attach_file'', ''skill'', ''memory'', ''task'',
       ''subagent'', ''install_package'', ''remove_package'', ''send_message'', ''broadcast'', ''shutdown_request'',
       ''plan_approval'', ''todo_write''} then True
     else if toolName = ''manage_session'' then
       input_action obj \<in> {''clear_messages'', ''approve_permission'', ''deny_permission'', ''auth_login'', ''auth_logout''}
     else if toolName = ''browser'' then
       input_action obj \<in> {''open'', ''navigate'', ''click'', ''type'', ''press'', ''screenshot'', ''fill_form'', ''upload_file'',
         ''download'', ''capture_page'', ''search_and_open'', ''handoff'', ''resume''}
     else if toolName = ''desktop'' then
       input_action obj \<in> {''screenshot'', ''click'', ''type_text'', ''key'', ''clipboard_set''}
     else if toolName = ''cron'' then input_action obj \<in> {''create'', ''update'', ''toggle'', ''delete''}
     else if toolName = ''heartbeat'' then input_action obj \<in> {''set'', ''toggle''}
     else False)"

text \<open>One value of the loops of \<open>extractPermissionPaths\<close>: trimmed, not blank, not seen.\<close>

definition add_path :: "string list \<Rightarrow> string \<Rightarrow> string list" where
  "add_path paths value0 =
    (let value = trim_space value0 in if value = [] \<or> value \<in> set paths then paths else paths @ [value])"

definition extractPermissionPaths :: "json_object \<Rightarrow> string list" where
  "extractPermissionPaths obj =
    foldl add_path
      (foldl (\<lambda>paths key. add_path paths (asString (field obj key))) []
        [''path'', ''root'', ''file'', ''source'', ''output_path'', ''download_path'', ''screenshot_path''])
      (asStringSlice (field obj ''paths''))"

record tool_call =
  tc_Name :: string
  tc_NormalizedInput :: json_object
  tc_SessionID :: string
  tc_TurnID :: string
  tc_Source :: string
  tc_Sender :: string

definition PermissionRequestFromCall :: "tool_call \<Rightarrow> permission_request" where
  "PermissionRequestFromCall call =
    (let name = trim_space (tc_Name call); obj = tc_NormalizedInput call in
     \<lparr>pr_SessionID = trim_space (tc_SessionID call), pr_TurnID = trim_space (tc_TurnID call),
      pr_Source = trim_space (tc_Source call), pr_Sender = trim_space (tc_Sender call),
      pr_ToolName = name, pr_Action = inferPermissionAction name obj,
      pr_Paths = extractPermissionPaths obj,
      pr_Command = trim_space (asString (field obj ''command'')),
      pr_Mutation = inferPermissionMutation name obj, pr_Input = obj\<rparr>)"

section \<open>Grant scopes\<close>

datatype parsed_permission_grant =
  GrantOnce | GrantTask | GrantSession | GrantPattern | GrantCount int | GrantTimebox int

fun count_value :: "int \<Rightarrow> string \<Rightarrow> int option" where
  "count_value v [] = Some v"
| "count_value v (c # s) =
    (if char_in CHR ''0'' CHR ''9'' c then count_value (wrap64 (wrap64 (v * 10) + int (of_char c - 48))) s else None)"

definition parsePositiveInt :: "string \<Rightarrow> go_error + int" where
  "parsePositiveInt text =
    (if text = [] then Inl (Errorf ''missing count'' [])
     else case count_value 0 text of
       None \<Rightarrow> Inl (Errorf ''invalid count'' [])
     | Some v \<Rightarrow> if v \<le> 0 then Inl (Errorf ''invalid count'' []) else Inr v)"

abbreviation unsupported_scope :: "string \<Rightarrow> go_error" where
  "unsupported_scope scope \<equiv> Errorf ''unsupported permission grant scope %q'' [scope]"

definition parsePermissionGrantScope :: "permission_env \<Rightarrow> string \<Rightarrow> go_error + parsed_permission_grant" where
  "parsePermissionGrantScope env scope =
    (let raw = to_lower (trim_space scope) in
     if raw = [] \<or> raw = ''once'' then Inr GrantOnce
     else if raw = ''task'' then Inr GrantTask
     else if raw = ''session'' then Inr GrantSession
     else if raw = ''pattern'' then Inr GrantPattern
     else if has_prefix raw ''count:'' then
       (case parsePositiveInt (trim_space (trim_prefix raw ''count:'')) of
          Inl e \<Rightarrow> Inl (unsupported_scope scope)
        | Inr n \<Rightarrow> Inr (GrantCount n))
     else if has_prefix raw ''timebox:'' then
       (case pe_ParseDuration env (trim_space (trim_prefix raw ''timebox:'')) of
          None \<Rightarrow> Inl (unsupported_scope scope)
        | Some d \<Rightarrow> if d \<le> 0 then Inl (unsupported_scope scope) else Inr (GrantTimebox d))
     else Inl (unsupported_scope scope))"

definition storedPermissionGrantScope :: "permission_env \<Rightarrow> permission_override \<Rightarrow> string" where
  "storedPermissionGrantScope env state =
    (let scope = trim_space (re_Scope (ov_result state)) in
     case parsePermissionGrantScope env scope of
       Inr _ \<Rightarrow> scope
     | Inl _ \<Rightarrow> if ov_remaining state = 1 then ''once'' else ''session'')"

section \<open>Keys\<close>

definition normalizePermissionPath :: "string \<Rightarrow> string" where
  "normalizePermissionPath value0 = (let value = trim_space value0 in if value = [] then [] else Clean value)"

definition commandApprovalPattern :: "string \<Rightarrow> string" where
  "commandApprovalPattern command = join '' '' (take 2 (Go_Std.fields (trim_space command)))"

fun pathApprovalPattern :: "string list \<Rightarrow> string" where
  "pathApprovalPattern [] = []"
| "pathApprovalPattern (path # paths) =
    (let p = normalizePermissionPath path; dir = Dir p in
     if p = [] then pathApprovalPattern paths
     else if dir = ''.'' \<or> dir = [] then p else dir)"

definition permissionDecisionKey :: "permission_request \<Rightarrow> string" where
  "permissionDecisionKey req =
    join ''|'' ([trim_space (pr_SessionID req), trim_space (pr_ToolName req), trim_space (pr_Action req)]
      @ map trim_space (pr_Paths req) @ [trim_space (pr_Command req)])"

definition permissionTaskKey :: "permission_request \<Rightarrow> string" where
  "permissionTaskKey req =
    (let turnID = trim_space (pr_TurnID req) in
     if turnID = [] then []
     else trim_space (pr_SessionID req) @ ''|task:'' @ turnID @ ''|'' @ permissionDecisionKey req)"

definition permissionSessionToolKey :: "permission_request \<Rightarrow> string" where
  "permissionSessionToolKey req =
    (let sessionID = trim_space (pr_SessionID req); toolName = trim_space (pr_ToolName req);
         action = trim_space (pr_Action req) in
     if sessionID = [] \<or> toolName = [] then []
     else if toolName = ''browser'' \<or> toolName = ''desktop''
     then join ''|'' [sessionID, toolName, if action = [] then ''*'' else action]
     else [])"

definition permissionPatternKey :: "permission_request \<Rightarrow> string" where
  "permissionPatternKey req =
    (let sessionID = trim_space (pr_SessionID req); toolName = trim_space (pr_ToolName req);
         pattern =
           (if toolName \<in> {''bash'', ''background''} then commandApprovalPattern (pr_Command req)
            else if toolName \<in> {''write_file'', ''edit_file'', ''attach_file'', ''skill'', ''install_package'', ''remove_package''}
            then pathApprovalPattern (pr_Paths req)
            else []) in
     if sessionID = [] \<or> toolName = [] \<or> pattern = [] then []
     else join ''|'' [sessionID, toolName, ''pattern'', trim_space (pr_Action req), pattern])"

definition permissionDecisionKeys :: "permission_request \<Rightarrow> string list" where
  "permissionDecisionKeys req =
    (let exact = permissionDecisionKey req;
         extra = (\<lambda>key. if key \<noteq> [] \<and> key \<noteq> exact then [key] else []) in
     [exact] @ extra (permissionTaskKey req) @ extra (permissionSessionToolKey req) @ extra (permissionPatternKey req))"

definition permissionOverrideKey :: "permission_env \<Rightarrow> permission_request \<Rightarrow> string \<Rightarrow> string" where
  "permissionOverrideKey env req scope =
    (let parsed = parsePermissionGrantScope env scope in
     if parsed = Inr GrantPattern \<and> permissionPatternKey req \<noteq> [] then permissionPatternKey req
     else if parsed = Inr GrantTask \<and> permissionTaskKey req \<noteq> [] then permissionTaskKey req
     else if scope = ''session'' \<and> permissionSessionToolKey req \<noteq> [] then permissionSessionToolKey req
     else permissionDecisionKey req)"

definition hex_digit :: "nat \<Rightarrow> char" where
  "hex_digit n = ''0123456789abcdef'' ! (n mod 16)"

definition hex_bytes :: "8 word list \<Rightarrow> string" where
  "hex_bytes bs = concat (map (\<lambda>b. [hex_digit (unat b div 16), hex_digit (unat b mod 16)]) bs)"

definition pendingPermissionID :: "permission_env \<Rightarrow> string \<Rightarrow> string" where
  "pendingPermissionID env key = hex_bytes (take 8 (pe_sha1 env key))"

definition sameSession :: "string \<Rightarrow> string \<Rightarrow> bool" where
  "sameSession requestSessionID sessionID \<longleftrightarrow> trim_space requestSessionID = trim_space sessionID"

section \<open>Summaries for the user\<close>

definition approvalReason :: "permission_request \<Rightarrow> string" where
  "approvalReason req =
    (let tool = pr_ToolName req in
     if tool \<in> {''bash'', ''background''} then ''shell execution requires approval in remote sessions''
     else if tool = ''attach_file'' then ''sending local files requires approval in remote sessions''
     else if tool \<in> {''write_file'', ''edit_file''} then ''workspace file mutations require approval in remote sessions''
     else if tool = ''browser'' then ''interactive browser actions require approval in remote sessions''
     else if tool = ''desktop'' then ''local desktop control requires approval in remote sessions''
     else if tool = ''tool_exchange'' then ''tool bundle mutations require approval in remote sessions''
     else if tool \<in> {''cron'', ''heartbeat''} then ''automation configuration changes require approval in remote sessions''
     else if tool = ''skill'' then ''skill installation requires approval in remote sessions''
     else if tool \<in> {''install_package'', ''remove_package''} then ''package changes require approval in remote sessions''
     else ''approval required before running this tool'')"

abbreviation first_path_or :: "permission_request \<Rightarrow> string \<Rightarrow> string \<Rightarrow> string" where
  "first_path_or req label other \<equiv> (if pr_Paths req \<noteq> [] then label @ trim_space (hd (pr_Paths req)) else other)"

definition PermissionIntentSummary :: "pending_permission \<Rightarrow> string" where
  "PermissionIntentSummary pending =
    (let req = pp_Request pending; tool = pr_ToolName req; command = trim_space (pr_Command req);
         action = trim_space (pr_Action req) in
     if tool \<in> {''bash'', ''background''} then
       (if command \<noteq> [] then ''Agent wants to run shell command: '' @ command else ''Agent wants to run a shell command'')
     else if tool = ''write_file'' then
       first_path_or req ''Agent wants to write file: '' ''Agent wants to write a workspace file''
     else if tool = ''edit_file'' then
       first_path_or req ''Agent wants to edit file: '' ''Agent wants to edit a workspace file''
     else if tool = ''attach_file'' then
       first_path_or req ''Agent wants to attach local file: '' ''Agent wants to attach a local file''
     else if tool = ''browser'' then
       ''Agent wants to '' @ (if action = [] then ''control browser'' else action) @ '' in the browser''
     else if tool = ''desktop'' then
       ''Agent wants to '' @ (if action = [] then ''control desktop'' else action) @ '' on the desktop''
     else if tool \<in> {''skill'', ''install_package'', ''remove_package''} then
       ''Agent wants to change installed capabilities with '' @ tool
     else if tool = ''tool_exchange'' then ''Agent wants to change active tool bundles''
     else if tool \<in> {''cron'', ''heartbeat''} then ''Agent wants to change automation settings''
     else if action \<noteq> [] then ''Agent wants to run '' @ tool @ '' '' @ action
     else if tool \<noteq> [] then ''Agent wants to run '' @ tool
     else ''Agent wants to run a protected action'')"

definition PermissionRiskSummary :: "permission_env \<Rightarrow> permission_request \<Rightarrow> string" where
  "PermissionRiskSummary env req =
    (let tool = pr_ToolName req in
     if tool = ''desktop'' then ''high risk: desktop control can interact with local apps and clipboard''
     else if tool = ''browser'' then ''medium risk: browser control may navigate, click, type, or access web accounts''
     else if tool \<in> {''bash'', ''background''} then
       (if contains (to_lower (pr_Command req)) ''rm -rf'' then ''high risk: recursive deletion command''
        else case ClassifyShellCommandRisk (pr_Command req) of
          HighRisk e \<Rightarrow> ''high risk: '' @ pe_error env e
        | LowRisk \<Rightarrow> ''medium risk: shell execution can read, write, or run local programs'')
     else if tool \<in> {''write_file'', ''edit_file''} then ''medium risk: workspace file mutation''
     else if tool = ''attach_file'' then ''high risk: local file content may leave the machine''
     else if tool \<in> {''skill'', ''install_package'', ''remove_package'', ''tool_exchange''} then
       ''high risk: capability set changes can affect future tool behavior''
     else if tool \<in> {''cron'', ''heartbeat''} then ''medium risk: automation settings can run future work''
     else if pr_Mutation req then ''medium risk: protected mutation''
     else ''low risk: protected read or inspection'')"

definition PermissionExpirySummary :: "pending_permission \<Rightarrow> int \<Rightarrow> string" where
  "PermissionExpirySummary pending now =
    (let remaining = min max_int64 (pp_ExpiresAt pending - now); second = 1000000000 in
     if pp_ExpiresAt pending = 0 then []
     else if remaining \<le> 0 then ''expired''
     else if remaining \<ge> 3600 * second then ''expires in '' @ itoa (remaining div (3600 * second)) @ ''h''
     else if remaining \<ge> 60 * second then ''expires in '' @ itoa (remaining div (60 * second)) @ ''m''
     else ''expires in '' @ itoa (remaining div second) @ ''s'')"

section \<open>Facts on the keys\<close>

lemma trimmed_key [simp]:
  "permissionDecisionKey (req\<lparr>pr_SessionID := trim_space (pr_SessionID req)\<rparr>) = permissionDecisionKey req"
  by (simp add: permissionDecisionKey_def)

text \<open>A decision is looked up under every key it may have been stored under, whatever the scope was.\<close>

lemma override_key_looked_up: "permissionOverrideKey env req scope \<in> set (permissionDecisionKeys req)"
  by (auto simp: permissionOverrideKey_def permissionDecisionKeys_def Let_def)

lemma exact_key_first: "permissionDecisionKey req \<in> set (permissionDecisionKeys req)"
  by (simp add: permissionDecisionKeys_def Let_def)

end
