(* ===== verification/Permission_Rules.thy ===== *)
theory Permission_Rules
  imports Permission_Model
begin

text \<open>
  The ordered rules of the permission manager: automation runs, the security profile, unlisted
  shell commands and interactive approval, and the policies they are built from. A rule returns
  \<^const>\<open>None\<close> when it does not handle the request.
\<close>

section \<open>Normal forms of a policy\<close>

definition normalizeSecurityProfile :: "string \<Rightarrow> string" where
  "normalizeSecurityProfile profile =
    (let p = to_lower (trim_space profile) in
     if p = [] \<or> p = ''guarded-local'' then ''guarded-local''
     else if p \<in> {''trusted-local'', ''sandboxed'', ''strict'', ''host-privileged'', ''dev/repair''} then p
     else if p \<in> {''dev-repair'', ''dev_repair'', ''repair''} then ''dev/repair''
     else ''guarded-local'')"

definition normalizeInteractiveApprovalMode :: "string \<Rightarrow> string" where
  "normalizeInteractiveApprovalMode mode =
    (let m = to_lower (trim_space mode) in
     if m = [] \<or> m = ''manual'' then ''manual''
     else if m = ''review'' then ''review''
     else if m = ''yolo'' then ''yolo''
     else ''manual'')"

text \<open>
  The loop that the three list normal forms share: the values that are not empty after the given
  normal form, each once, sorted.
\<close>

definition normalize_list :: "(string \<Rightarrow> string) \<Rightarrow> string list \<Rightarrow> string list" where
  "normalize_list f values = sort (remdups (filter (\<lambda>v. v \<noteq> []) (map f values)))"

definition normalizeStringList :: "string list \<Rightarrow> string list" where
  "normalizeStringList = normalize_list (\<lambda>v. to_lower (trim_space v))"

definition normalizePathPrefixes :: "string list \<Rightarrow> string list" where
  "normalizePathPrefixes = normalize_list normalizePermissionPath"

definition normalizeCommandPrefixes :: "string list \<Rightarrow> string list" where
  "normalizeCommandPrefixes = normalize_list trim_space"

definition normalizeInteractiveApprovalPolicy :: "interactive_approval_policy \<Rightarrow> interactive_approval_policy" where
  "normalizeInteractiveApprovalPolicy policy = policy
    \<lparr>ia_Mode := normalizeInteractiveApprovalMode (ia_Mode policy),
     ia_PendingTTLSeconds := (if ia_PendingTTLSeconds policy \<le> 0 then 300 else ia_PendingTTLSeconds policy),
     ia_Sources := normalizeStringList (ia_Sources policy),
     ia_Tools := normalizeStringList (ia_Tools policy),
     ia_TrustedPathPrefixes := normalizePathPrefixes (ia_TrustedPathPrefixes policy),
     ia_TrustedCommandPrefixes := normalizeCommandPrefixes (ia_TrustedCommandPrefixes policy)\<rparr>"

definition normalizePermissionPolicy :: "permission_policy \<Rightarrow> permission_policy" where
  "normalizePermissionPolicy policy = policy
    \<lparr>po_InteractiveApproval := normalizeInteractiveApprovalPolicy (po_InteractiveApproval policy),
     po_SecurityProfile := normalizeSecurityProfile (po_SecurityProfile policy)\<rparr>"

section \<open>The default policy and the security profiles\<close>

definition defaultTrustedCommandPrefixes :: "string list" where
  "defaultTrustedCommandPrefixes =
    [''cat '', ''curl '', ''date'', ''diff '', ''echo '', ''find '', ''git diff'', ''git log'', ''git show'', ''git status'',
     ''grep '', ''head '', ''jq '', ''ls'', ''pwd'', ''rg '', ''sed -n'', ''tail '', ''uname'', ''wc '', ''wget '', ''whoami'']"

definition interactive_sources :: "string list" where
  "interactive_sources = [''web'', ''gateway'', ''feishu'', ''weixin'', ''cli'', ''tui'', ''acp'']"

definition DefaultPermissionPolicy :: permission_policy where
  "DefaultPermissionPolicy =
    \<lparr>po_BlockAutomationMutations = True,
     po_InteractiveApproval =
      \<lparr>ia_Mode = ''manual'', ia_Enabled = True, ia_Sources = interactive_sources,
       ia_Tools = [''bash'', ''background'', ''write_file'', ''edit_file'', ''attach_file'', ''skill'', ''memory'', ''task'',
         ''install_package'', ''remove_package'', ''tool_exchange'', ''cron'', ''heartbeat'', ''browser'', ''desktop''],
       ia_TrustedPathPrefixes = [], ia_TrustedCommandPrefixes = defaultTrustedCommandPrefixes,
       ia_PendingTTLSeconds = 300\<rparr>,
     po_SecurityProfile = []\<rparr>"

abbreviation lock_down :: "interactive_approval_policy \<Rightarrow> interactive_approval_policy" where
  "lock_down ia \<equiv> ia\<lparr>ia_Mode := ''manual'', ia_TrustedCommandPrefixes := [], ia_TrustedPathPrefixes := []\<rparr>"

definition PermissionPolicyForSecurityProfile :: "string \<Rightarrow> string \<Rightarrow> permission_policy" where
  "PermissionPolicyForSecurityProfile profile approvalMode =
    (let p = normalizeSecurityProfile profile;
         ia = (po_InteractiveApproval DefaultPermissionPolicy)\<lparr>ia_Mode := normalizeInteractiveApprovalMode approvalMode\<rparr>;
         ia' =
           (if p = ''trusted-local'' then ia\<lparr>ia_Sources := interactive_sources\<rparr>
            else if p = ''guarded-local'' then ia
            else if p = ''sandboxed'' then lock_down ia
            else if p = ''strict'' then lock_down ia
            else if p = ''host-privileged'' then (if ia_Mode ia = ''yolo'' then ia\<lparr>ia_Mode := ''manual''\<rparr> else ia)
            else if p = ''dev/repair'' then lock_down ia
            else ia)
     in DefaultPermissionPolicy\<lparr>po_InteractiveApproval := ia', po_SecurityProfile := p\<rparr>)"

section \<open>Rules\<close>

definition newAutomationMutationRule :: "bool \<Rightarrow> permission_rule" where
  "newAutomationMutationRule enabled req =
    (if \<not> enabled \<or> pr_Source req \<notin> {''cron'', ''heartbeat''} then None
     else if pr_ToolName req = ''cron'' then
       (if pr_Action req \<in> {''create'', ''update'', ''toggle'', ''delete''}
        then Some (result_of PermissionDeny ''cron schedule mutations are disabled during active automation runs; execute the scheduled work instead'' ''policy'')
        else None)
     else if pr_ToolName req = ''heartbeat'' then
       (if pr_Action req \<in> {''set'', ''toggle''}
        then Some (result_of PermissionDeny ''heartbeat configuration changes are disabled during active automation runs; execute the scheduled work instead'' ''policy'')
        else None)
     else if pr_ToolName req = ''tool_exchange'' then
       (if pr_Mutation req
        then Some (result_of PermissionDeny ''tool bundle mutations are disabled during active automation runs; execute the scheduled work instead'' ''policy'')
        else None)
     else if pr_ToolName req = ''manage_session'' then
       (if pr_Mutation req
        then Some (result_of PermissionDeny ''session-management mutations are disabled during active automation runs; execute the scheduled work instead'' ''policy'')
        else None)
     else None)"

definition pendingScopeForApprovalMode :: "string \<Rightarrow> string" where
  "pendingScopeForApprovalMode mode =
    (if normalizeInteractiveApprovalMode mode = ''review'' then ''review'' else ''approval'')"

abbreviation tool_of :: "permission_request \<Rightarrow> string" where
  "tool_of req \<equiv> to_lower (trim_space (pr_ToolName req))"

definition NewSecurityProfileRuleWithApprovalMode :: "permission_env \<Rightarrow> string \<Rightarrow> string \<Rightarrow> permission_rule" where
  "NewSecurityProfileRuleWithApprovalMode env profile0 mode0 req =
    (let profile = normalizeSecurityProfile profile0; mode = normalizeInteractiveApprovalMode mode0;
         scope = pendingScopeForApprovalMode mode; source = to_lower (trim_space (pr_Source req)) in
     if profile = ''strict'' \<and> tool_of req \<in> {''bash'', ''background'', ''desktop''}
        \<and> source \<in> {''web'', ''gateway'', ''feishu'', ''weixin'', ''cron'', ''heartbeat''}
     then Some (result_of PermissionDeny ''strict security profile denies host execution tools for remote or automated sources'' ''policy'')
     else if tool_of req \<in> {''bash'', ''background''} then
       (case ClassifyShellCommandRisk (pr_Command req) of
          LowRisk \<Rightarrow> None
        | HighRisk e \<Rightarrow>
            if profile = ''strict''
            then Some (result_of PermissionDeny (''strict security profile denies high-risk shell command: '' @ pe_error env e) ''policy'')
            else if profile = ''dev/repair''
            then Some (result_of PermissionPending (''dev/repair profile requires approval for high-risk repair shell command: '' @ pe_error env e) scope)
            else if mode = ''yolo''
            then Some (result_of PermissionAllow (''high-risk shell command auto-approved by yolo mode: '' @ pe_error env e) ''policy'')
            else Some (result_of PermissionPending (''high-risk shell command requires approval: '' @ pe_error env e) scope))
     else None)"

definition repairDiagnosticCommands :: "string \<Rightarrow> string list" where
  "repairDiagnosticCommands profile =
    (if normalizeSecurityProfile profile \<noteq> ''dev/repair'' then []
     else [''which'', ''command'', ''pgrep'', ''lsof'', ''ps'', ''stat''])"

definition newUnlistedShellCommandApprovalRule :: "permission_env \<Rightarrow> string \<Rightarrow> string \<Rightarrow> permission_rule" where
  "newUnlistedShellCommandApprovalRule env profile0 mode0 req =
    (let profile = normalizeSecurityProfile profile0; mode = normalizeInteractiveApprovalMode mode0;
         scope = pendingScopeForApprovalMode mode; command = trim_space (pr_Command req) in
     if tool_of req \<notin> {''bash'', ''background''} \<or> command = [] then None
     else case DisallowedShellCommandsWithOptions (pe_shell env) command
         (no_options\<lparr>so_AllowedCommands := repairDiagnosticCommands profile\<rparr>) of
       Inl e \<Rightarrow> None
     | Inr names \<Rightarrow>
         let reason = ''shell command uses command(s) outside the allowlist: '' @ join '', '' names in
         if names = [] then None
         else if mode = ''yolo''
         then Some (result_of PermissionAllow (''request auto-approved by yolo mode: '' @ reason) ''policy'')
         else Some (result_of PermissionPending reason scope))"

definition requiresInteractiveApproval :: "permission_request \<Rightarrow> bool" where
  "requiresInteractiveApproval req =
    (if pr_ToolName req \<in> {''bash'', ''background'', ''write_file'', ''edit_file'', ''attach_file'', ''skill'', ''install_package'',
       ''remove_package''} then True
     else if pr_ToolName req \<in> {''tool_exchange'', ''cron'', ''heartbeat'', ''browser'', ''desktop''} then pr_Mutation req
     else False)"

definition permissionPathHasPrefix :: "string \<Rightarrow> string \<Rightarrow> bool" where
  "permissionPathHasPrefix path prefix =
    (if path = prefix then True
     else if prefix = ''.'' then \<not> has_prefix path ''/''
     else if prefix = ''/'' then has_prefix path ''/''
     else if has_suffix prefix ''/'' then has_prefix path prefix
     else has_prefix path (prefix @ ''/''))"

definition pathMatchesTrustedPrefix :: "string \<Rightarrow> string list \<Rightarrow> bool" where
  "pathMatchesTrustedPrefix path prefixes =
    (let p = normalizePermissionPath path in p \<noteq> [] \<and> list_ex (permissionPathHasPrefix p) prefixes)"

definition allPathsTrusted :: "string list \<Rightarrow> string list \<Rightarrow> bool" where
  "allPathsTrusted paths prefixes \<longleftrightarrow>
     paths \<noteq> [] \<and> prefixes \<noteq> [] \<and> list_all (\<lambda>path. pathMatchesTrustedPrefix path prefixes) paths"

definition commandMatchesTrustedPrefix :: "string \<Rightarrow> string list \<Rightarrow> bool" where
  "commandMatchesTrustedPrefix command0 prefixes =
    (let command = trim_space command0 in command \<noteq> [] \<and> prefixes \<noteq> [] \<and> list_ex (has_prefix command) prefixes)"

definition matchesTrustedInteractiveApproval :: "permission_request \<Rightarrow> interactive_approval_policy \<Rightarrow> bool" where
  "matchesTrustedInteractiveApproval req policy =
    (if pr_ToolName req \<in> {''write_file'', ''edit_file'', ''attach_file'', ''skill'', ''install_package'', ''remove_package''}
     then pr_Paths req \<noteq> [] \<and> allPathsTrusted (pr_Paths req) (ia_TrustedPathPrefixes policy)
     else if pr_ToolName req \<in> {''bash'', ''background''}
     then commandMatchesTrustedPrefix (pr_Command req) (ia_TrustedCommandPrefixes policy)
       \<and> (pr_Paths req = [] \<or> allPathsTrusted (pr_Paths req) (ia_TrustedPathPrefixes policy))
     else False)"

text \<open>The sets of sources and tools the rule builds; the strings are trimmed and folded once more.\<close>

definition name_set :: "string list \<Rightarrow> string list" where
  "name_set values = filter (\<lambda>v. v \<noteq> []) (map (\<lambda>v. to_lower (trim_space v)) values)"

definition newInteractiveApprovalRule :: "interactive_approval_policy \<Rightarrow> permission_rule option" where
  "newInteractiveApprovalRule policy0 =
    (let policy = normalizeInteractiveApprovalPolicy policy0 in
     if \<not> ia_Enabled policy then None
     else Some (\<lambda>req.
       if to_lower (trim_space (pr_Source req)) \<notin> set (name_set (ia_Sources policy)) then None
       else if tool_of req \<notin> set (name_set (ia_Tools policy)) then None
       else if \<not> requiresInteractiveApproval req then None
       else if matchesTrustedInteractiveApproval req policy
       then Some (result_of PermissionAllow ''request matched a trusted interactive approval bypass'' ''policy'')
       else if ia_Mode policy = ''review''
       then Some (result_of PermissionPending (approvalReason req) ''review'')
       else if ia_Mode policy = ''yolo''
       then Some (result_of PermissionAllow ''request auto-approved by yolo mode'' ''policy'')
       else Some (result_of PermissionPending (approvalReason req) ''approval'')))"

definition permissionRulesForPolicy :: "permission_env \<Rightarrow> permission_policy \<Rightarrow> permission_rule list" where
  "permissionRulesForPolicy env policy0 =
    (let policy = normalizePermissionPolicy policy0; ia = po_InteractiveApproval policy in
     (if po_BlockAutomationMutations policy then [newAutomationMutationRule True] else [])
     @ [NewSecurityProfileRuleWithApprovalMode env (po_SecurityProfile policy) (ia_Mode ia)]
     @ (if ia_Enabled ia then [newUnlistedShellCommandApprovalRule env (po_SecurityProfile policy) (ia_Mode ia)] else [])
     @ (case newInteractiveApprovalRule ia of None \<Rightarrow> [] | Some rule \<Rightarrow> [rule]))"

text \<open>What the rules say: the result of the first rule that handles the request.\<close>

fun first_handled :: "permission_rule list \<Rightarrow> permission_request \<Rightarrow> permission_result option" where
  "first_handled [] req = None"
| "first_handled (rule # rules) req = (case rule req of Some r \<Rightarrow> Some r | None \<Rightarrow> first_handled rules req)"

lemma first_handled_append:
  "first_handled (xs @ ys) req = (case first_handled xs req of Some r \<Rightarrow> Some r | None \<Rightarrow> first_handled ys req)"
  by (induction xs) (auto split: option.splits)

section \<open>Facts on the normal forms\<close>

lemma normalize_mode_range: "normalizeInteractiveApprovalMode m \<in> {''manual'', ''review'', ''yolo''}"
  by (simp add: normalizeInteractiveApprovalMode_def Let_def)

lemma normalize_profile_range:
  "normalizeSecurityProfile p \<in>
     {''guarded-local'', ''trusted-local'', ''sandboxed'', ''strict'', ''host-privileged'', ''dev/repair''}"
  by (simp add: normalizeSecurityProfile_def Let_def)

lemma normalize_fixed [simp]:
  "normalizeInteractiveApprovalMode ''manual'' = ''manual''"
  "normalizeInteractiveApprovalMode ''review'' = ''review''"
  "normalizeInteractiveApprovalMode ''yolo'' = ''yolo''"
  "normalizeSecurityProfile ''guarded-local'' = ''guarded-local''"
  "normalizeSecurityProfile ''trusted-local'' = ''trusted-local''"
  "normalizeSecurityProfile ''sandboxed'' = ''sandboxed''"
  "normalizeSecurityProfile ''strict'' = ''strict''"
  "normalizeSecurityProfile ''host-privileged'' = ''host-privileged''"
  "normalizeSecurityProfile ''dev/repair'' = ''dev/repair''"
  by code_simp+

lemma normalize_mode_idem [simp]:
  "normalizeInteractiveApprovalMode (normalizeInteractiveApprovalMode m) = normalizeInteractiveApprovalMode m"
  using normalize_mode_range [of m] by auto

lemma normalize_profile_idem [simp]:
  "normalizeSecurityProfile (normalizeSecurityProfile p) = normalizeSecurityProfile p"
  using normalize_profile_range [of p] by auto

lemma normalize_list_set: "set (normalize_list f xs) = {v. v \<noteq> [] \<and> v \<in> f ` set xs}"
  by (auto simp: normalize_list_def)

end
