(* ===== verification/Permission_Manager.thy ===== *)
theory Permission_Manager
  imports Permission_Rules
begin

text \<open>
  The permission manager: its state, its operations in the order of the code, and the interceptor
  that runs before every tool call.

  A Go map is an association list with distinct keys; an operation that ranges over a map visits it
  in the order of the list, so that what holds for every manager holds for every order Go may pick.
  An operation reads the clock once, as \<open>now\<close>, and holds the lock of the manager from its first
  access to the state to its end, so that operations are atomic; the receiver is not \<open>nil\<close>.
\<close>

record permission_manager =
  pm_rules :: "permission_rule list"
  pm_decisions :: "(string \<times> permission_override) list"
  pm_pending :: "(string \<times> pending_permission) list"
  pm_pendingKey :: "(string \<times> string) list"
  pm_pendingTTL :: int

definition NewPermissionManager :: "permission_rule list \<Rightarrow> permission_manager" where
  "NewPermissionManager rules =
    \<lparr>pm_rules = rules, pm_decisions = [], pm_pending = [], pm_pendingKey = [], pm_pendingTTL = 5 * 60 * 1000000000\<rparr>"

definition setPendingTTL :: "int \<Rightarrow> permission_manager \<Rightarrow> permission_manager" where
  "setPendingTTL seconds m = m\<lparr>pm_pendingTTL :=
    (if seconds \<le> 0 then 5 * 60 * 1000000000 else wrap64 (seconds * 1000000000))\<rparr>"

definition AddRules :: "permission_rule list \<Rightarrow> permission_manager \<Rightarrow> permission_manager" where
  "AddRules rules m = m\<lparr>pm_rules := pm_rules m @ rules\<rparr>"

definition ReplaceRules :: "permission_rule list \<Rightarrow> permission_manager \<Rightarrow> permission_manager" where
  "ReplaceRules rules m = m\<lparr>pm_rules := rules\<rparr>"

definition ApplyPolicy :: "permission_env \<Rightarrow> permission_policy \<Rightarrow> permission_manager \<Rightarrow> permission_manager" where
  "ApplyPolicy env policy0 m =
    (let policy = normalizePermissionPolicy policy0 in
     ReplaceRules (permissionRulesForPolicy env policy)
       (setPendingTTL (ia_PendingTTLSeconds (po_InteractiveApproval policy)) m))"

definition NewPermissionManagerForPolicy :: "permission_env \<Rightarrow> permission_policy \<Rightarrow> permission_manager" where
  "NewPermissionManagerForPolicy env policy = ApplyPolicy env policy (NewPermissionManager [])"

definition NewDefaultPermissionManager :: "permission_env \<Rightarrow> permission_manager" where
  "NewDefaultPermissionManager env = NewPermissionManagerForPolicy env DefaultPermissionPolicy"

section \<open>Overrides and pending requests\<close>

definition expired_at :: "int \<Rightarrow> int \<Rightarrow> bool" where
  "expired_at now t \<longleftrightarrow> t \<noteq> 0 \<and> t \<le> now"

definition pendingExpiredLocked :: "int \<Rightarrow> pending_permission \<Rightarrow> bool" where
  "pendingExpiredLocked now pending = expired_at now (pp_ExpiresAt pending)"

definition drop_pending :: "string \<times> pending_permission \<Rightarrow> permission_manager \<Rightarrow> permission_manager" where
  "drop_pending entry m = m
    \<lparr>pm_pending := AList.delete (fst entry) (pm_pending m),
     pm_pendingKey := AList.delete (permissionDecisionKey (pp_Request (snd entry))) (pm_pendingKey m)\<rparr>"

definition pruneExpiredLocked :: "int \<Rightarrow> permission_manager \<Rightarrow> permission_manager" where
  "pruneExpiredLocked now m =
    fold drop_pending (filter (\<lambda>(pid, p). pendingExpiredLocked now p) (pm_pending m))
      (m\<lparr>pm_decisions := filter (\<lambda>(key, ov). \<not> expired_at now (ov_expiresAt ov)) (pm_decisions m)\<rparr>)"

definition consumeOverrideLocked ::
  "int \<Rightarrow> string \<Rightarrow> permission_manager \<Rightarrow> permission_result option \<times> permission_manager" where
  "consumeOverrideLocked now key m =
    (case map_of (pm_decisions m) key of
       None \<Rightarrow> (None, m)
     | Some ov \<Rightarrow>
         if expired_at now (ov_expiresAt ov)
         then (None, m\<lparr>pm_decisions := AList.delete key (pm_decisions m)\<rparr>)
         else if ov_remaining ov = 1
         then (Some (ov_result ov), m\<lparr>pm_decisions := AList.delete key (pm_decisions m)\<rparr>)
         else if ov_remaining ov > 1
         then (Some (ov_result ov),
           m\<lparr>pm_decisions := AList.update key (ov\<lparr>ov_remaining := ov_remaining ov - 1\<rparr>) (pm_decisions m)\<rparr>)
         else (Some (ov_result ov), m))"

fun consume_first ::
  "int \<Rightarrow> string list \<Rightarrow> permission_manager \<Rightarrow> permission_result option \<times> permission_manager" where
  "consume_first now [] m = (None, m)"
| "consume_first now (key # keys) m =
    (case consumeOverrideLocked now key m of
       (Some r, m') \<Rightarrow> (Some r, m')
     | (None, m') \<Rightarrow> consume_first now keys m')"

text \<open>A lookup of a key that is missing gives the zero value.\<close>

definition no_request :: permission_request where
  "no_request = \<lparr>pr_SessionID = [], pr_TurnID = [], pr_Source = [], pr_Sender = [], pr_ToolName = [],
     pr_Action = [], pr_Paths = [], pr_Command = [], pr_Mutation = False, pr_Input = []\<rparr>"

definition no_pending :: pending_permission where
  "no_pending = \<lparr>pp_ID = [], pp_Status = NoStatus, pp_Request = no_request, pp_Reason = [],
     pp_CreatedAt = 0, pp_ExpiresAt = 0\<rparr>"

definition pending_at :: "permission_manager \<Rightarrow> string \<Rightarrow> pending_permission" where
  "pending_at m pid = (case map_of (pm_pending m) pid of None \<Rightarrow> no_pending | Some p \<Rightarrow> p)"

definition new_pending :: "permission_env \<Rightarrow> int \<Rightarrow> int \<Rightarrow> permission_request \<Rightarrow> string \<Rightarrow> pending_permission" where
  "new_pending env now ttl req reason =
    \<lparr>pp_ID = pendingPermissionID env (permissionDecisionKey req), pp_Status = StatusPending, pp_Request = req,
     pp_Reason = (if reason = [] then ''approval required before running this tool'' else reason),
     pp_CreatedAt = now, pp_ExpiresAt = now + ttl\<rparr>"

definition ensurePendingLocked ::
  "permission_env \<Rightarrow> int \<Rightarrow> permission_request \<Rightarrow> permission_result \<Rightarrow> permission_manager
    \<Rightarrow> pending_permission \<times> permission_manager" where
  "ensurePendingLocked env now req result m =
    (let key = permissionDecisionKey req in
     case map_of (pm_pendingKey m) key of
       Some pid \<Rightarrow> (pending_at m pid, m)
     | None \<Rightarrow>
         (let pending = new_pending env now (pm_pendingTTL m) req (trim_space (re_Reason result))
          in (pending, m\<lparr>pm_pending := AList.update (pp_ID pending) pending (pm_pending m),
                         pm_pendingKey := AList.update key (pp_ID pending) (pm_pendingKey m)\<rparr>)))"

definition new_override :: "permission_env \<Rightarrow> int \<Rightarrow> permission_request \<Rightarrow> permission_result \<Rightarrow> string \<Rightarrow> permission_override" where
  "new_override env now req result scope =
    (let parsed = (case parsePermissionGrantScope env scope of Inl e \<Rightarrow> GrantSession | Inr g \<Rightarrow> g) in
     \<lparr>ov_request = req, ov_result = result,
      ov_remaining = (case parsed of GrantOnce \<Rightarrow> 1 | GrantCount n \<Rightarrow> n | _ \<Rightarrow> -1),
      ov_expiresAt = (case parsed of GrantTimebox d \<Rightarrow> now + d | _ \<Rightarrow> 0)\<rparr>)"

definition setSessionDecisionLocked ::
  "permission_env \<Rightarrow> int \<Rightarrow> permission_request \<Rightarrow> permission_result \<Rightarrow> string \<Rightarrow> permission_manager \<Rightarrow> permission_manager" where
  "setSessionDecisionLocked env now req result scope m =
    (if pr_SessionID req = [] then m
     else let
       ov = new_override env now req result scope;
       m' = m\<lparr>pm_decisions := AList.update (permissionOverrideKey env req scope) ov (pm_decisions m)\<rparr>;
       exactKey = permissionDecisionKey req
     in case map_of (pm_pendingKey m') exactKey of
          None \<Rightarrow> m'
        | Some pid \<Rightarrow> m'\<lparr>pm_pending := AList.delete pid (pm_pending m'),
                           pm_pendingKey := AList.delete exactKey (pm_pendingKey m')\<rparr>)"

definition setSessionDecision ::
  "permission_env \<Rightarrow> int \<Rightarrow> permission_request \<Rightarrow> permission_result \<Rightarrow> string \<Rightarrow> permission_manager \<Rightarrow> permission_manager" where
  "setSessionDecision env now req result scope m =
    (let req' = req\<lparr>pr_SessionID := trim_space (pr_SessionID req)\<rparr> in
     if pr_SessionID req' = [] then m else setSessionDecisionLocked env now req' result scope m)"

section \<open>Operations\<close>

definition Evaluate ::
  "permission_env \<Rightarrow> int \<Rightarrow> permission_request \<Rightarrow> permission_manager \<Rightarrow> permission_result \<times> permission_manager" where
  "Evaluate env now req m0 =
    (let key = permissionDecisionKey req; m1 = pruneExpiredLocked now m0 in
     case consume_first now (permissionDecisionKeys req) m1 of
       (Some result, m2) \<Rightarrow> (result, m2)
     | (None, m2) \<Rightarrow>
         (case map_of (pm_pendingKey m2) key of
            Some pid \<Rightarrow>
              (let pending = pending_at m2 pid in
               (\<lparr>re_Decision = PermissionPending, re_Reason = pp_Reason pending, re_Scope = ''approval'',
                 re_RequestID = pp_ID pending\<rparr>, m2))
          | None \<Rightarrow>
              (case first_handled (pm_rules m2) req of
                 None \<Rightarrow> (result_of PermissionAbstain [] [], m2)
               | Some result0 \<Rightarrow>
                   (let result = (if re_Decision result0 = NoDecision
                                  then result0\<lparr>re_Decision := PermissionAbstain\<rparr> else result0) in
                    if re_Decision result = PermissionPending \<and> trim_space (re_Scope result) \<noteq> ''review''
                    then case ensurePendingLocked env now req result m2 of
                      (pending, m3) \<Rightarrow>
                        (result\<lparr>re_RequestID := pp_ID pending,
                           re_Reason := (if blank (re_Reason result) then pp_Reason pending else re_Reason result)\<rparr>, m3)
                    else (result, m2)))))"

definition AllowSession :: "permission_env \<Rightarrow> int \<Rightarrow> permission_request \<Rightarrow> permission_manager \<Rightarrow> permission_manager" where
  "AllowSession env now req m = setSessionDecision env now req (result_of PermissionAllow [] ''session'') ''session'' m"

definition AllowOnce :: "permission_env \<Rightarrow> int \<Rightarrow> permission_request \<Rightarrow> permission_manager \<Rightarrow> permission_manager" where
  "AllowOnce env now req m = setSessionDecision env now req (result_of PermissionAllow [] ''once'') ''once'' m"

definition AllowPattern :: "permission_env \<Rightarrow> int \<Rightarrow> permission_request \<Rightarrow> string \<Rightarrow> permission_manager \<Rightarrow> permission_manager" where
  "AllowPattern env now req reason m =
    (if permissionPatternKey req = [] then AllowOnce env now req m
     else let trimmed = (if blank reason then ''auto-approved by permission review'' else trim_space reason) in
       setSessionDecision env now req (result_of PermissionAllow trimmed ''pattern'') ''pattern'' m)"

definition DenySession :: "permission_env \<Rightarrow> int \<Rightarrow> permission_request \<Rightarrow> string \<Rightarrow> permission_manager \<Rightarrow> permission_manager" where
  "DenySession env now req reason m =
    setSessionDecision env now req (result_of PermissionDeny (trim_space reason) ''session'') ''session'' m"

definition ListPending :: "int \<Rightarrow> string \<Rightarrow> permission_manager \<Rightarrow> pending_permission list \<times> permission_manager" where
  "ListPending now sessionID0 m0 =
    (let sessionID = trim_space sessionID0; m = pruneExpiredLocked now m0 in
     (sort_key pp_CreatedAt
        (filter (\<lambda>p. sessionID = [] \<or> pr_SessionID (pp_Request p) = sessionID) (map snd (pm_pending m))), m))"

definition ExportSession :: "int \<Rightarrow> string \<Rightarrow> permission_manager \<Rightarrow> permission_session_state \<times> permission_manager" where
  "ExportSession now sessionID0 m0 =
    (let sessionID = trim_space sessionID0 in
     if sessionID = [] then (\<lparr>ss_Overrides = [], ss_Pending = []\<rparr>, m0)
     else let m = pruneExpiredLocked now m0 in
       (\<lparr>ss_Overrides =
           sort_key (\<lambda>ov. permissionDecisionKey (ov_request ov))
             (filter (\<lambda>ov. trim_space (pr_SessionID (ov_request ov)) = sessionID) (map snd (pm_decisions m))),
         ss_Pending =
           sort_key pp_CreatedAt (sort_key pp_ID
             (filter (\<lambda>p. trim_space (pr_SessionID (pp_Request p)) = sessionID) (map snd (pm_pending m))))\<rparr>, m))"

definition ResetSession :: "string \<Rightarrow> permission_manager \<Rightarrow> permission_manager" where
  "ResetSession sessionID0 m =
    (let sessionID = trim_space sessionID0 in
     if sessionID = [] then m
     else fold drop_pending (filter (\<lambda>(pid, p). pr_SessionID (pp_Request p) = sessionID) (pm_pending m))
       (m\<lparr>pm_decisions := filter (\<lambda>(key, ov). \<not> has_prefix key (sessionID @ ''|'')) (pm_decisions m)\<rparr>))"

abbreviation in_session :: "string \<Rightarrow> permission_request \<Rightarrow> permission_request" where
  "in_session sessionID req \<equiv> (if blank (pr_SessionID req) then req\<lparr>pr_SessionID := sessionID\<rparr> else req)"

definition restore_override :: "permission_env \<Rightarrow> string \<Rightarrow> permission_override \<Rightarrow> permission_manager \<Rightarrow> permission_manager" where
  "restore_override env sessionID item m =
    (let req = in_session sessionID (ov_request item) in
     if trim_space (pr_SessionID req) \<noteq> sessionID then m
     else m\<lparr>pm_decisions := AList.update (permissionOverrideKey env req (storedPermissionGrantScope env item))
              (item\<lparr>ov_request := req\<rparr>) (pm_decisions m)\<rparr>)"

definition restored_pending :: "permission_env \<Rightarrow> int \<Rightarrow> int \<Rightarrow> string \<Rightarrow> pending_permission \<Rightarrow> pending_permission" where
  "restored_pending env now ttl sessionID item =
    (let req = in_session sessionID (pp_Request item);
         created = (if pp_CreatedAt item = 0 then now else pp_CreatedAt item) in
     \<lparr>pp_ID = (if pp_ID item = [] then pendingPermissionID env (permissionDecisionKey req) else pp_ID item),
      pp_Status = (if pp_Status item = NoStatus then StatusPending else pp_Status item),
      pp_Request = req, pp_Reason = pp_Reason item, pp_CreatedAt = created,
      pp_ExpiresAt = (if pp_ExpiresAt item = 0 then created + ttl else pp_ExpiresAt item)\<rparr>)"

definition restore_pending :: "permission_env \<Rightarrow> int \<Rightarrow> string \<Rightarrow> pending_permission \<Rightarrow> permission_manager \<Rightarrow> permission_manager" where
  "restore_pending env now sessionID item m =
    (let pending = restored_pending env now (pm_pendingTTL m) sessionID item in
     if trim_space (pr_SessionID (pp_Request pending)) \<noteq> sessionID then m
     else m\<lparr>pm_pending := AList.update (pp_ID pending) pending (pm_pending m),
            pm_pendingKey := AList.update (permissionDecisionKey (pp_Request pending)) (pp_ID pending) (pm_pendingKey m)\<rparr>)"

definition RestoreSession ::
  "permission_env \<Rightarrow> int \<Rightarrow> string \<Rightarrow> permission_session_state \<Rightarrow> permission_manager \<Rightarrow> permission_manager" where
  "RestoreSession env now sessionID0 state m =
    (let sessionID = trim_space sessionID0 in
     if sessionID = [] then m
     else fold (restore_pending env now sessionID) (ss_Pending state)
       (fold (restore_override env sessionID) (ss_Overrides state) (ResetSession sessionID m)))"

definition ApprovePending ::
  "permission_env \<Rightarrow> int \<Rightarrow> string \<Rightarrow> string \<Rightarrow> string \<Rightarrow> permission_manager
    \<Rightarrow> (go_error + permission_resolution) \<times> permission_manager" where
  "ApprovePending env now sessionID requestID scope0 m =
    (let scope = (if scope0 = [] then ''session'' else scope0) in
     case parsePermissionGrantScope env scope of
       Inl e \<Rightarrow> (Inl e, m)
     | Inr parsed \<Rightarrow>
         (case map_of (pm_pending m) requestID of
            None \<Rightarrow> (Inl (Errorf ''permission request not found'' []), m)
          | Some pending \<Rightarrow>
              if \<not> sameSession (pr_SessionID (pp_Request pending)) sessionID
              then (Inl (Errorf ''permission request not found'' []), m)
              else let m1 = drop_pending (requestID, pending) m in
                if pendingExpiredLocked now pending
                then (Inl (Errorf ''permission request expired'' []), m1)
                else (Inr \<lparr>rs_RequestID = requestID, rs_Decision = PermissionAllow, rs_Status = StatusApproved,
                        rs_Scope = scope, rs_Reason = [], rs_Request = pp_Request pending\<rparr>,
                      setSessionDecisionLocked env now (pp_Request pending) (result_of PermissionAllow [] scope) scope m1)))"

definition DenyPending ::
  "permission_env \<Rightarrow> int \<Rightarrow> string \<Rightarrow> string \<Rightarrow> string \<Rightarrow> permission_manager
    \<Rightarrow> (go_error + permission_resolution) \<times> permission_manager" where
  "DenyPending env now sessionID requestID reason m =
    (case map_of (pm_pending m) requestID of
       None \<Rightarrow> (Inl (Errorf ''permission request not found'' []), m)
     | Some pending \<Rightarrow>
         if \<not> sameSession (pr_SessionID (pp_Request pending)) sessionID
         then (Inl (Errorf ''permission request not found'' []), m)
         else let trimmed = (if blank reason then ''permission request denied'' else trim_space reason) in
           (Inr \<lparr>rs_RequestID = requestID, rs_Decision = PermissionDeny, rs_Status = StatusDenied,
              rs_Scope = ''session'', rs_Reason = trimmed, rs_Request = pp_Request pending\<rparr>,
            setSessionDecisionLocked env now (pp_Request pending) (result_of PermissionDeny trimmed ''session'') ''session''
              (drop_pending (requestID, pending) m)))"

definition CancelPending :: "string \<Rightarrow> string \<Rightarrow> permission_manager \<Rightarrow> bool \<times> permission_manager" where
  "CancelPending sessionID0 requestID0 m =
    (let sessionID = trim_space sessionID0; requestID = trim_space requestID0 in
     if sessionID = [] \<or> requestID = [] then (False, m)
     else case map_of (pm_pending m) requestID of
       None \<Rightarrow> (False, m)
     | Some pending \<Rightarrow>
         if \<not> sameSession (pr_SessionID (pp_Request pending)) sessionID then (False, m)
         else (True, drop_pending (requestID, pending) m))"

definition RequestApproval ::
  "permission_env \<Rightarrow> int \<Rightarrow> permission_request \<Rightarrow> string \<Rightarrow> permission_manager \<Rightarrow> permission_result \<times> permission_manager" where
  "RequestApproval env now req reason m =
    (case ensurePendingLocked env now req (result_of PermissionPending (trim_space reason) ''approval'') m of
       (pending, m') \<Rightarrow>
         (\<lparr>re_Decision = PermissionPending, re_Reason = pp_Reason pending, re_Scope = ''approval'',
           re_RequestID = pp_ID pending\<rparr>, m'))"

section \<open>The interceptor\<close>

text \<open>A reviewer, when there is one, answers with a result or an error.\<close>

type_synonym permission_reviewer = "permission_request \<Rightarrow> go_error + permission_result"

datatype intercept_result =
    Proceed
  | ErrPermissionDenied string string string
  | ErrPermissionPending string string string string

definition or_default :: "string \<Rightarrow> string \<Rightarrow> string" where
  "or_default reason other = (if blank reason then other else trim_space reason)"

definition review_fallback ::
  "permission_env \<Rightarrow> int \<Rightarrow> permission_request \<Rightarrow> permission_result \<Rightarrow> string \<Rightarrow> permission_manager
    \<Rightarrow> permission_result \<times> permission_manager" where
  "review_fallback env now req initial reason0 m =
    (let reason1 = (if blank reason0 then re_Reason initial else trim_space reason0);
         reason = (if blank reason1 then ''automatic review requested manual approval'' else reason1) in
     RequestApproval env now req reason m)"

definition resolveReviewedPermission ::
  "permission_env \<Rightarrow> int \<Rightarrow> permission_reviewer option \<Rightarrow> permission_request \<Rightarrow> permission_result \<Rightarrow> permission_manager
    \<Rightarrow> permission_result \<times> permission_manager" where
  "resolveReviewedPermission env now reviewer req initial m =
    (case reviewer of
       None \<Rightarrow> review_fallback env now req initial ''automatic review is unavailable; manual approval required'' m
     | Some review \<Rightarrow>
         (case review req of
            Inl e \<Rightarrow> review_fallback env now req initial (''automatic review failed: '' @ pe_error env e) m
          | Inr reviewed \<Rightarrow>
              if re_Decision reviewed \<in> {PermissionAllow, PermissionDeny} then (reviewed, m)
              else if re_Decision reviewed = PermissionPending \<and> \<not> blank (re_RequestID reviewed) then (reviewed, m)
              else review_fallback env now req initial (re_Reason reviewed) m))"

definition markApprovedShellCommand :: "permission_env \<Rightarrow> tool_call \<Rightarrow> permission_request \<Rightarrow> tool_call" where
  "markApprovedShellCommand env call req =
    (let command = trim_space (pr_Command req) in
     if tool_of req \<notin> {''bash'', ''background''} \<or> command = [] then call
     else case DisallowedShellCommandsWithOptions (pe_shell env) command no_options of
       Inl e \<Rightarrow> call
     | Inr names \<Rightarrow>
         if names = [] then call
         else call\<lparr>tc_NormalizedInput := AList.update ''_allow_unlisted_commands'' (JBool True) (tc_NormalizedInput call)\<rparr>)"

definition NewPermissionInterceptorWithReview ::
  "permission_env \<Rightarrow> int \<Rightarrow> permission_reviewer option \<Rightarrow> tool_call \<Rightarrow> permission_manager
    \<Rightarrow> intercept_result \<times> tool_call \<times> permission_manager" where
  "NewPermissionInterceptorWithReview env now reviewer call m =
    (let req = PermissionRequestFromCall call;
         denied = (\<lambda>reason. ErrPermissionDenied (pr_ToolName req) (pr_Action req) reason);
         pending = (\<lambda>r. ErrPermissionPending (pr_ToolName req) (pr_Action req) (re_RequestID r)
                          (or_default (re_Reason r) ''tool call requires approval''))
     in case Evaluate env now req m of
       (result, m1) \<Rightarrow>
         (case re_Decision result of
            PermissionDeny \<Rightarrow> (denied (or_default (re_Reason result) ''tool call denied by permission policy''), call, m1)
          | PermissionPending \<Rightarrow>
              if trim_space (re_Scope result) = ''review'' then
                (case resolveReviewedPermission env now reviewer req result m1 of
                   (reviewed, m2) \<Rightarrow>
                     (case re_Decision reviewed of
                        PermissionAllow \<Rightarrow>
                          (Proceed, markApprovedShellCommand env call req, AllowPattern env now req (re_Reason reviewed) m2)
                      | PermissionDeny \<Rightarrow>
                          (denied (or_default (re_Reason reviewed) ''tool call denied by automatic review''), call, m2)
                      | _ \<Rightarrow> (pending reviewed, call, m2)))
              else (pending result, call, m1)
          | PermissionAllow \<Rightarrow> (Proceed, markApprovedShellCommand env call req, m1)
          | _ \<Rightarrow> (Proceed, call, m1)))"

lemmas manager_defs = setPendingTTL_def AddRules_def ReplaceRules_def drop_pending_def

end
