(* ===== verification/Stores.thy ===== *)
theory Stores
  imports Main
begin

text \<open>
  Two contracts of a component that keeps entries under keys and runs operations on them.

  In a \<open>recorded_store\<close> an entry never appears by itself: after an operation it is one the
  operation wrote, or it is derived from the entry the key had before, in the states that satisfy
  the invariant of the component. In a \<open>metered_store\<close> some
  entries have a budget, and an operation that spends an entry takes one from it.
\<close>

text \<open>Whether a predicate holds at every operation of a run, and at how many of them.\<close>

fun on_run :: "('o \<Rightarrow> 's \<Rightarrow> 's) \<Rightarrow> ('s \<Rightarrow> 'o \<Rightarrow> bool) \<Rightarrow> 's \<Rightarrow> 'o list \<Rightarrow> bool" where
  "on_run step P s [] = True"
| "on_run step P s (x # xs) = (P s x \<and> on_run step P (step x s) xs)"

fun times_on :: "('o \<Rightarrow> 's \<Rightarrow> 's) \<Rightarrow> ('s \<Rightarrow> 'o \<Rightarrow> bool) \<Rightarrow> 's \<Rightarrow> 'o list \<Rightarrow> nat" where
  "times_on step P s [] = 0"
| "times_on step P s (x # xs) = (if P s x then 1 else 0) + times_on step P (step x s) xs"

locale recorded_store =
  fixes invar :: "'s \<Rightarrow> bool"
    and step :: "'o \<Rightarrow> 's \<Rightarrow> 's"
    and get :: "'s \<Rightarrow> 'k \<Rightarrow> 'v option"
    and writes :: "'s \<Rightarrow> 'o \<Rightarrow> ('k \<times> 'v) set"
    and derived :: "'v \<Rightarrow> 'v \<Rightarrow> bool"
  assumes invar_step: "invar s \<Longrightarrow> invar (step x s)"
    and derived_refl: "derived v v"
    and derived_trans: "derived u v \<Longrightarrow> derived v w \<Longrightarrow> derived u w"
    and origin: "invar s \<Longrightarrow> get (step x s) k = Some v \<Longrightarrow>
      (k, v) \<in> writes s x \<or> (\<exists>u. get s k = Some u \<and> derived u v)"
begin

lemma invar_run: "invar s \<Longrightarrow> invar (fold step xs s)"
  by (induction xs arbitrary: s) (simp_all add: invar_step)

lemma run_origin:
  assumes start: "invar s" and "get (fold step xs s) k = Some v"
  shows "(\<exists>u. get s k = Some u \<and> derived u v)
    \<or> (\<exists>xs1 x xs2 u. xs = xs1 @ x # xs2 \<and> (k, u) \<in> writes (fold step xs1 s) x \<and> derived u v)"
  using assms(2)
proof (induction xs arbitrary: v rule: rev_induct)
  case (snoc x xs)
  from origin [OF invar_run [OF start]] snoc.prems consider (new) "(k, v) \<in> writes (fold step xs s) x"
    | (old) u where "get (fold step xs s) k = Some u" "derived u v"
    by fastforce
  then show ?case
  proof cases
    case old
    from snoc.IH [OF old(1)] show ?thesis
    proof (elim disjE exE conjE)
      fix xs1 y xs2 w
      assume "xs = xs1 @ y # xs2" and "(k, w) \<in> writes (fold step xs1 s) y" and "derived w u"
      then have "xs @ [x] = xs1 @ y # (xs2 @ [x]) \<and> (k, w) \<in> writes (fold step xs1 s) y \<and> derived w v"
        using old(2) derived_trans by auto
      then show ?thesis by blast
    qed (use old(2) derived_trans in blast)
  qed (use derived_refl in blast)
qed (use derived_refl in simp)

end

locale metered_store = recorded_store invar step get writes derived
  for invar :: "'s \<Rightarrow> bool" and step :: "'o \<Rightarrow> 's \<Rightarrow> 's" and get :: "'s \<Rightarrow> 'k \<Rightarrow> 'v option"
    and writes :: "'s \<Rightarrow> 'o \<Rightarrow> ('k \<times> 'v) set" and derived :: "'v \<Rightarrow> 'v \<Rightarrow> bool" +
  fixes left :: "'v \<Rightarrow> nat option"
    and spends :: "'s \<Rightarrow> 'o \<Rightarrow> 'k \<Rightarrow> bool"
  assumes spends_entry: "invar s \<Longrightarrow> spends s x k \<Longrightarrow> get s k \<noteq> None"
    and spend: "invar s \<Longrightarrow> k \<notin> fst ` writes s x \<Longrightarrow> get s k = Some u \<Longrightarrow> left u = Some n \<Longrightarrow> spends s x k \<Longrightarrow>
      0 < n \<and> (\<forall>v. get (step x s) k = Some v \<longrightarrow> (\<exists>n' < n. left v = Some n'))"
    and derived_left: "derived u v \<Longrightarrow> left u = Some n \<Longrightarrow> \<exists>n' \<le> n. left v = Some n'"
begin

lemma absent_uses:
  "invar s \<Longrightarrow> on_run step (\<lambda>s x. k \<notin> fst ` writes s x) s xs \<Longrightarrow> get s k = None \<Longrightarrow>
    times_on step (\<lambda>s x. spends s x k) s xs = 0"
proof (induction xs arbitrary: s)
  case (Cons x xs)
  have "get (step x s) k = None"
  proof (cases "get (step x s) k")
    case (Some v)
    with origin Cons.prems show ?thesis by (fastforce simp: image_iff)
  qed
  with Cons spends_entry [of s x k] invar_step [of s x] show ?case by auto
qed simp

theorem uses_bounded:
  "invar s \<Longrightarrow> on_run step (\<lambda>s x. k \<notin> fst ` writes s x) s xs \<Longrightarrow> get s k = Some u \<Longrightarrow> left u = Some n \<Longrightarrow>
    times_on step (\<lambda>s x. spends s x k) s xs \<le> n"
proof (induction xs arbitrary: s u n)
  case (Cons x xs)
  let ?s = "step x s" and ?c = "if spends s x k then 1 else 0 :: nat"
  have rest: "on_run step (\<lambda>s x. k \<notin> fst ` writes s x) ?s xs" and free: "k \<notin> fst ` writes s x"
    using Cons.prems by auto
  note law = spend [OF Cons.prems(1) free Cons.prems(3,4)]
  have c: "?c \<le> n" using law by auto
  have later: "\<exists>n' \<le> n - ?c. left v = Some n'" if v: "get ?s k = Some v" for v
  proof (cases "spends s x k")
    case True
    with law v obtain n' where "n' < n" "left v = Some n'" by blast
    with True show ?thesis by (intro exI [of _ n']) auto
  next
    case False
    from free have "(k, v) \<notin> writes s x" by (metis fst_conv image_eqI)
    with origin [OF Cons.prems(1) v] Cons.prems(3) have "derived u v" by simp
    with derived_left [OF _ Cons.prems(4)] False show ?thesis by simp
  qed
  have "times_on step (\<lambda>s x. spends s x k) ?s xs \<le> n - ?c"
  proof (cases "get ?s k")
    case None
    then show ?thesis using absent_uses [of ?s k xs] rest invar_step [OF Cons.prems(1)] by simp
  next
    case (Some v)
    with later obtain n' where "n' \<le> n - ?c" "left v = Some n'" by blast
    with Cons.IH [OF invar_step [OF Cons.prems(1)] rest Some] show ?thesis by fastforce
  qed
  with c show ?case by simp
qed simp

end

end
