(* ===== verification/Permission_Trace.thy ===== *)
theory Permission_Trace
  imports Permission_Manager Stores
begin

text \<open>
  Runs of the permission manager: the operations as a datatype, what each of them writes into the
  table of decisions, and the interpretation of the contracts of \<^theory_text>\<open>Stores\<close> on the manager.
\<close>

datatype permission_op =
    OpEvaluate permission_request
  | OpAllowSession permission_request
  | OpAllowOnce permission_request
  | OpAllowPattern permission_request string
  | OpDenySession permission_request string
  | OpListPending string
  | OpExportSession string
  | OpRestoreSession string permission_session_state
  | OpApprovePending string string string
  | OpDenyPending string string string
  | OpCancelPending string string
  | OpResetSession string
  | OpRequestApproval permission_request string
  | OpApplyPolicy permission_policy
  | OpAddRules "permission_rule list"

fun perm_step :: "permission_env \<Rightarrow> int \<times> permission_op \<Rightarrow> permission_manager \<Rightarrow> permission_manager" where
  "perm_step env (now, OpEvaluate req) m = snd (Evaluate env now req m)"
| "perm_step env (now, OpAllowSession req) m = AllowSession env now req m"
| "perm_step env (now, OpAllowOnce req) m = AllowOnce env now req m"
| "perm_step env (now, OpAllowPattern req reason) m = AllowPattern env now req reason m"
| "perm_step env (now, OpDenySession req reason) m = DenySession env now req reason m"
| "perm_step env (now, OpListPending sid) m = snd (ListPending now sid m)"
| "perm_step env (now, OpExportSession sid) m = snd (ExportSession now sid m)"
| "perm_step env (now, OpRestoreSession sid state) m = RestoreSession env now sid state m"
| "perm_step env (now, OpApprovePending sid rid scope) m = snd (ApprovePending env now sid rid scope m)"
| "perm_step env (now, OpDenyPending sid rid reason) m = snd (DenyPending env now sid rid reason m)"
| "perm_step env (now, OpCancelPending sid rid) m = snd (CancelPending sid rid m)"
| "perm_step env (now, OpResetSession sid) m = ResetSession sid m"
| "perm_step env (now, OpRequestApproval req reason) m = snd (RequestApproval env now req reason m)"
| "perm_step env (now, OpApplyPolicy policy) m = ApplyPolicy env policy m"
| "perm_step env (now, OpAddRules rules) m = AddRules rules m"

definition perm_run :: "permission_env \<Rightarrow> (int \<times> permission_op) list \<Rightarrow> permission_manager \<Rightarrow> permission_manager" where
  "perm_run env = fold (perm_step env)"

section \<open>What the operations write\<close>

text \<open>The entries of the decision table that an operation stores, with the keys.\<close>

definition stored ::
  "permission_env \<Rightarrow> int \<Rightarrow> permission_request \<Rightarrow> permission_result \<Rightarrow> string \<Rightarrow> (string \<times> permission_override) list" where
  "stored env now req result scope =
    (if pr_SessionID req = [] then []
     else [(permissionOverrideKey env req scope, new_override env now req result scope)])"

abbreviation trimmed :: "permission_request \<Rightarrow> permission_request" where
  "trimmed req \<equiv> req\<lparr>pr_SessionID := trim_space (pr_SessionID req)\<rparr>"

definition restored ::
  "permission_env \<Rightarrow> string \<Rightarrow> permission_override list \<Rightarrow> (string \<times> permission_override) list" where
  "restored env sid items =
    map (\<lambda>item. let req = in_session sid (ov_request item) in
           (permissionOverrideKey env req (storedPermissionGrantScope env item), item\<lparr>ov_request := req\<rparr>))
      (filter (\<lambda>item. trim_space (pr_SessionID (in_session sid (ov_request item))) = sid) items)"

fun writes :: "permission_env \<Rightarrow> permission_manager \<Rightarrow> int \<times> permission_op \<Rightarrow> (string \<times> permission_override) list" where
  "writes env m (now, OpAllowSession req) = stored env now (trimmed req) (result_of PermissionAllow [] ''session'') ''session''"
| "writes env m (now, OpAllowOnce req) = stored env now (trimmed req) (result_of PermissionAllow [] ''once'') ''once''"
| "writes env m (now, OpAllowPattern req reason) =
    (if permissionPatternKey req = [] then stored env now (trimmed req) (result_of PermissionAllow [] ''once'') ''once''
     else stored env now (trimmed req)
       (result_of PermissionAllow (or_default reason ''auto-approved by permission review'') ''pattern'') ''pattern'')"
| "writes env m (now, OpDenySession req reason) =
    stored env now (trimmed req) (result_of PermissionDeny (trim_space reason) ''session'') ''session''"
| "writes env m (now, OpRestoreSession sid state) = restored env (trim_space sid) (ss_Overrides state)"
| "writes env m (now, OpApprovePending sid rid scope0) =
    (let scope = (if scope0 = [] then ''session'' else scope0) in
     case (fst (ApprovePending env now sid rid scope0 m)) of
       Inl e \<Rightarrow> []
     | Inr res \<Rightarrow> stored env now (rs_Request res) (result_of PermissionAllow [] scope) scope)"
| "writes env m (now, OpDenyPending sid rid reason) =
    (case fst (DenyPending env now sid rid reason m) of
       Inl e \<Rightarrow> []
     | Inr res \<Rightarrow> stored env now (rs_Request res) (result_of PermissionDeny (rs_Reason res) ''session'') ''session'')"
| "writes env m _ = []"

section \<open>The decision table after an operation\<close>

abbreviation decision_at :: "permission_manager \<Rightarrow> string \<Rightarrow> permission_override option" where
  "decision_at m \<equiv> map_of (pm_decisions m)"

lemma drop_pending_same [simp]:
  "pm_decisions (drop_pending e m) = pm_decisions m" "pm_rules (drop_pending e m) = pm_rules m"
  "pm_pendingTTL (drop_pending e m) = pm_pendingTTL m"
  by (simp_all add: drop_pending_def)

lemma fold_drop_same [simp]:
  "pm_decisions (fold drop_pending es m) = pm_decisions m" "pm_rules (fold drop_pending es m) = pm_rules m"
  "pm_pendingTTL (fold drop_pending es m) = pm_pendingTTL m"
  by (induction es arbitrary: m) simp_all

lemma ensure_same [simp]:
  "pm_decisions (snd (ensurePendingLocked env now req r m)) = pm_decisions m"
  "pm_rules (snd (ensurePendingLocked env now req r m)) = pm_rules m"
  by (simp_all add: ensurePendingLocked_def Let_def split: option.splits)

lemma RequestApproval_same [simp]:
  "pm_decisions (snd (RequestApproval env now req reason m)) = pm_decisions m"
  "pm_rules (snd (RequestApproval env now req reason m)) = pm_rules m"
  by (simp_all add: RequestApproval_def case_prod_beta)

lemma map_of_filter_key: "map_of (filter (\<lambda>(k, v). P k) xs) k = (if P k then map_of xs k else None)"
  by (induction xs) auto

lemma map_of_filter_value:
  "distinct (map fst xs) \<Longrightarrow>
    map_of (filter (\<lambda>(k, v). P v) xs) k = (case map_of xs k of None \<Rightarrow> None | Some v \<Rightarrow> if P v then Some v else None)"
  by (induction xs) (auto split: option.splits simp: map_of_eq_None_iff image_iff)

lemma map_of_filter_in: "map_of (filter P xs) k = Some v \<Longrightarrow> (k, v) \<in> set xs"
  by (auto dest!: map_of_SomeD)

text \<open>The keys of the decision table are distinct after every operation.\<close>

definition keys_distinct :: "permission_manager \<Rightarrow> bool" where
  "keys_distinct m \<longleftrightarrow> distinct (map fst (pm_decisions m)) \<and> distinct (map fst (pm_pending m))
     \<and> distinct (map fst (pm_pendingKey m))"

lemma keys_distinct_new [simp]: "keys_distinct (NewPermissionManager rules)"
  by (simp add: keys_distinct_def NewPermissionManager_def)

lemma distinct_filter_fst: "distinct (map fst xs) \<Longrightarrow> distinct (map fst (filter P xs))"
  by (simp add: distinct_map_filter)

lemma keys_distinct_drop: "keys_distinct m \<Longrightarrow> keys_distinct (fold drop_pending es m)"
proof (induction es arbitrary: m)
  case (Cons e es)
  have "keys_distinct (drop_pending e m)"
    using Cons.prems by (simp add: keys_distinct_def drop_pending_def distinct_delete)
  with Cons.IH show ?case by simp
qed simp

lemma keys_distinct_decisions:
  "keys_distinct m \<Longrightarrow> distinct (map fst d) \<Longrightarrow> keys_distinct (m\<lparr>pm_decisions := d\<rparr>)"
  by (simp add: keys_distinct_def)

lemma keys_distinct_prune: "keys_distinct m \<Longrightarrow> keys_distinct (pruneExpiredLocked now m)"
  unfolding pruneExpiredLocked_def
  by (intro keys_distinct_drop keys_distinct_decisions) (auto simp: keys_distinct_def distinct_filter_fst)

lemma keys_distinct_consume1: "keys_distinct m \<Longrightarrow> keys_distinct (snd (consumeOverrideLocked now k m))"
  by (simp add: consumeOverrideLocked_def keys_distinct_def distinct_delete distinct_update split: option.splits)

lemma keys_distinct_consume: "keys_distinct m \<Longrightarrow> keys_distinct (snd (consume_first now ks m))"
proof (induction ks arbitrary: m)
  case (Cons k ks)
  from keys_distinct_consume1 [OF Cons.prems, of now k] Cons.IH show ?case
    by (auto split: prod.splits option.splits)
qed simp

lemma keys_distinct_ensure: "keys_distinct m \<Longrightarrow> keys_distinct (snd (ensurePendingLocked env now req r m))"
  by (simp add: ensurePendingLocked_def keys_distinct_def distinct_update Let_def split: option.splits)

lemma keys_distinct_set: "keys_distinct m \<Longrightarrow> keys_distinct (setSessionDecisionLocked env now req r scope m)"
  by (simp add: setSessionDecisionLocked_def keys_distinct_def distinct_update distinct_delete Let_def split: option.splits)

lemma keys_distinct_restore:
  "keys_distinct m \<Longrightarrow> keys_distinct (fold (restore_override env sid) os m)"
  "keys_distinct m \<Longrightarrow> keys_distinct (fold (restore_pending env now sid) ps m)"
  by (induction os arbitrary: m; simp add: restore_override_def keys_distinct_def distinct_update Let_def)
     (induction ps arbitrary: m; simp add: restore_pending_def keys_distinct_def distinct_update Let_def)

lemmas keys_distinct_rules = keys_distinct_drop keys_distinct_prune keys_distinct_consume keys_distinct_ensure
  keys_distinct_set keys_distinct_restore

lemma Evaluate_cases:
  obtains (override) r m2 where "consume_first now (permissionDecisionKeys req) (pruneExpiredLocked now m) = (Some r, m2)"
      "Evaluate env now req m = (r, m2)"
  | (waiting) pid m2 where "consume_first now (permissionDecisionKeys req) (pruneExpiredLocked now m) = (None, m2)"
      "map_of (pm_pendingKey m2) (permissionDecisionKey req) = Some pid"
      "Evaluate env now req m = (\<lparr>re_Decision = PermissionPending, re_Reason = pp_Reason (pending_at m2 pid),
         re_Scope = ''approval'', re_RequestID = pp_ID (pending_at m2 pid)\<rparr>, m2)"
  | (unhandled) m2 where "consume_first now (permissionDecisionKeys req) (pruneExpiredLocked now m) = (None, m2)"
      "map_of (pm_pendingKey m2) (permissionDecisionKey req) = None" "first_handled (pm_rules m2) req = None"
      "Evaluate env now req m = (result_of PermissionAbstain [] [], m2)"
  | (asked) r m2 p m3 where "consume_first now (permissionDecisionKeys req) (pruneExpiredLocked now m) = (None, m2)"
      "map_of (pm_pendingKey m2) (permissionDecisionKey req) = None" "first_handled (pm_rules m2) req = Some r"
      "re_Decision r = PermissionPending" "trim_space (re_Scope r) \<noteq> ''review''"
      "ensurePendingLocked env now req r m2 = (p, m3)"
      "Evaluate env now req m = (r\<lparr>re_RequestID := pp_ID p,
         re_Reason := (if blank (re_Reason r) then pp_Reason p else re_Reason r)\<rparr>, m3)"
  | (decided) r m2 where "consume_first now (permissionDecisionKeys req) (pruneExpiredLocked now m) = (None, m2)"
      "map_of (pm_pendingKey m2) (permissionDecisionKey req) = None" "first_handled (pm_rules m2) req = Some r"
      "re_Decision r = PermissionPending \<longrightarrow> trim_space (re_Scope r) = ''review''"
      "Evaluate env now req m =
        (if re_Decision r = NoDecision then r\<lparr>re_Decision := PermissionAbstain\<rparr> else r, m2)"
proof -
  obtain o1 m2 where c: "consume_first now (permissionDecisionKeys req) (pruneExpiredLocked now m) = (o1, m2)"
    by fastforce
  show ?thesis
  proof (cases o1)
    case (Some r)
    with c show ?thesis using override by (simp add: Evaluate_def Let_def)
  next
    case None
    show ?thesis
    proof (cases "map_of (pm_pendingKey m2) (permissionDecisionKey req)")
      case (Some pid)
      with None c show ?thesis using waiting by (simp add: Evaluate_def Let_def)
    next
      case p: None
      show ?thesis
      proof (cases "first_handled (pm_rules m2) req")
        case None
        with p \<open>o1 = None\<close> c show ?thesis using unhandled by (simp add: Evaluate_def Let_def)
      next
        case (Some r)
        obtain q m3 where e: "ensurePendingLocked env now req r m2 = (q, m3)" by fastforce
        show ?thesis
        proof (cases "re_Decision r = PermissionPending \<and> trim_space (re_Scope r) \<noteq> ''review''")
          case True
          with Some p \<open>o1 = None\<close> c e show ?thesis using asked by (simp add: Evaluate_def Let_def)
        next
          case False
          with Some p \<open>o1 = None\<close> c show ?thesis using decided by (auto simp: Evaluate_def Let_def)
        qed
      qed
    qed
  qed
qed

lemma keys_distinct_pair:
  "keys_distinct m \<Longrightarrow> consume_first now ks m = (x, m2) \<Longrightarrow> keys_distinct m2"
  "keys_distinct m \<Longrightarrow> ensurePendingLocked env now req r m = (p, m3) \<Longrightarrow> keys_distinct m3"
  using keys_distinct_consume [of m now ks] keys_distinct_ensure [of m env now req r] by auto

lemma keys_distinct_Evaluate: "keys_distinct m \<Longrightarrow> keys_distinct (snd (Evaluate env now req m))"
  by (rule Evaluate_cases [of now req m env])
    (use keys_distinct_pair keys_distinct_prune [of m now] in \<open>metis snd_conv\<close>)+

lemma keys_distinct_reset: "keys_distinct m \<Longrightarrow> keys_distinct (ResetSession sid m)"
  unfolding ResetSession_def Let_def
  by (simp, intro impI keys_distinct_drop keys_distinct_decisions) (auto simp: keys_distinct_def distinct_filter_fst)

lemma keys_distinct_drop1: "keys_distinct m \<Longrightarrow> keys_distinct (drop_pending e m)"
  using keys_distinct_drop [of m "[e]"] by simp

lemmas set_ops = AllowSession_def AllowOnce_def AllowPattern_def DenySession_def setSessionDecision_def

lemma keys_distinct_step: "keys_distinct m \<Longrightarrow> keys_distinct (perm_step env x m)"
proof (induction env x m rule: perm_step.induct)
  case (8 env now sid state m)
  then show ?case by (simp add: RestoreSession_def Let_def keys_distinct_restore keys_distinct_reset)
next
  case (9 env now sid rid scope m)
  then show ?case
    by (simp add: ApprovePending_def Let_def keys_distinct_set keys_distinct_drop1 split: sum.splits option.splits)
next
  case (10 env now sid rid reason m)
  then show ?case
    by (simp add: DenyPending_def Let_def keys_distinct_set keys_distinct_drop1 split: option.splits)
next
  case (11 env now sid rid m)
  then show ?case by (simp add: CancelPending_def Let_def keys_distinct_drop1 split: option.splits)
next
  case (13 env now req reason m)
  then show ?case by (simp add: RequestApproval_def keys_distinct_pair(2) split: prod.splits)
next
  case (14 env now policy m)
  then show ?case by (simp add: ApplyPolicy_def ReplaceRules_def setPendingTTL_def Let_def keys_distinct_def)
next
  case (15 env now rules m)
  then show ?case by (simp add: AddRules_def keys_distinct_def)
qed (simp_all add: keys_distinct_Evaluate set_ops ListPending_def ExportSession_def keys_distinct_set keys_distinct_prune
      keys_distinct_reset Let_def)

section \<open>Where a decision comes from\<close>

text \<open>A later form of an entry: the same grant with fewer uses left.\<close>

definition derived :: "permission_override \<Rightarrow> permission_override \<Rightarrow> bool" where
  "derived u v \<longleftrightarrow> v = u\<lparr>ov_remaining := ov_remaining v\<rparr>
     \<and> (ov_remaining v = ov_remaining u \<or> 1 \<le> ov_remaining v \<and> ov_remaining v < ov_remaining u)"

lemma derived_refl [simp]: "derived v v"
  by (simp add: derived_def)

lemma derived_trans: "derived u v \<Longrightarrow> derived v w \<Longrightarrow> derived u w"
  by (auto simp: derived_def) (metis permission_override.surjective permission_override.update_convs(3))+

definition inherits :: "permission_manager \<Rightarrow> permission_manager \<Rightarrow> bool" where
  "inherits m m' \<longleftrightarrow> (\<forall>k v. decision_at m' k = Some v \<longrightarrow> (\<exists>u. decision_at m k = Some u \<and> derived u v))"

lemma inherits_refl [simp]: "inherits m m"
  by (simp add: inherits_def)

lemma inherits_trans: "inherits m1 m2 \<Longrightarrow> inherits m2 m3 \<Longrightarrow> inherits m1 m3"
  unfolding inherits_def using derived_trans by blast

lemma inherits_same: "pm_decisions m' = pm_decisions m \<Longrightarrow> inherits m m'"
  by (simp add: inherits_def)

lemma decision_at_prune:
  "keys_distinct m \<Longrightarrow> decision_at (pruneExpiredLocked now m) k =
    (case decision_at m k of None \<Rightarrow> None | Some ov \<Rightarrow> if expired_at now (ov_expiresAt ov) then None else Some ov)"
  using map_of_filter_value [of "pm_decisions m" "\<lambda>ov. \<not> expired_at now (ov_expiresAt ov)" k]
  by (auto simp: pruneExpiredLocked_def keys_distinct_def split: option.splits)

lemma decision_at_reset:
  "decision_at (ResetSession sid m) k =
    (if trim_space sid \<noteq> [] \<and> has_prefix k (trim_space sid @ ''|'') then None else decision_at m k)"
  using map_of_filter_key [of "\<lambda>k. \<not> has_prefix k (trim_space sid @ ''|'')" "pm_decisions m" k]
  by (simp add: ResetSession_def Let_def)

lemma inherits_prune: "keys_distinct m \<Longrightarrow> inherits m (pruneExpiredLocked now m)"
  by (auto simp: inherits_def decision_at_prune split: option.splits if_splits)

lemma inherits_reset: "inherits m (ResetSession sid m)"
  by (auto simp: inherits_def decision_at_reset split: if_splits)

lemma inherits_consume1: "inherits m (snd (consumeOverrideLocked now k m))"
  by (auto simp: consumeOverrideLocked_def inherits_def delete_conv' update_conv' derived_def split: option.splits if_splits)

lemma inherits_consume: "inherits m (snd (consume_first now ks m))"
proof (induction ks arbitrary: m)
  case (Cons k ks)
  obtain x m1 where c: "consumeOverrideLocked now k m = (x, m1)" by fastforce
  with inherits_consume1 [of m now k] have "inherits m m1" by simp
  then show ?case using Cons.IH [of m1] c inherits_trans by (auto split: option.splits)
qed simp

lemma inherits_Evaluate:
  assumes "keys_distinct m"
  shows "inherits m (snd (Evaluate env now req m))"
proof -
  let ?m1 = "pruneExpiredLocked now m" and ?c = "consume_first now (permissionDecisionKeys req)"
  have c: "inherits m m2" if "?c ?m1 = (x, m2)" for x m2
    using inherits_trans [OF inherits_prune [OF assms] inherits_consume, of now "permissionDecisionKeys req" now] that by simp
  show ?thesis
  proof (rule Evaluate_cases [of now req m env])
    fix r m2 p m3
    assume "?c ?m1 = (None, m2)" and e: "ensurePendingLocked env now req r m2 = (p, m3)"
      and "Evaluate env now req m = (r\<lparr>re_RequestID := pp_ID p,
         re_Reason := (if blank (re_Reason r) then pp_Reason p else re_Reason r)\<rparr>, m3)"
    with c [of None m2] ensure_same(1) [of env now req r m2] show ?thesis
      by (metis inherits_same inherits_trans snd_conv)
  qed (use c in auto)
qed

lemma decision_at_set:
  "decision_at (setSessionDecisionLocked env now req r scope m) k = Some v \<Longrightarrow>
    (k, v) \<in> set (stored env now req r scope) \<or> decision_at m k = Some v"
  by (auto simp: setSessionDecisionLocked_def stored_def Let_def update_conv' split: if_splits option.splits)

lemma decision_at_restore:
  "decision_at (fold (restore_override env sid) items m) k = Some v \<Longrightarrow>
    (k, v) \<in> set (restored env sid items) \<or> decision_at m k = Some v"
proof (induction items arbitrary: m)
  case (Cons item items)
  from Cons.IH [OF Cons.prems [unfolded fold_Cons comp_apply]] show ?case
    by (auto simp: restored_def restore_override_def Let_def update_conv' split: if_splits)
qed simp

lemma decision_at_restore_pending [simp]:
  "pm_decisions (fold (restore_pending env now sid) items m) = pm_decisions m"
  by (induction items arbitrary: m) (simp_all add: restore_pending_def Let_def)

lemma step_origin:
  assumes "keys_distinct m" and "decision_at (perm_step env x m) k = Some v"
  shows "(k, v) \<in> set (writes env m x) \<or> (\<exists>u. decision_at m k = Some u \<and> derived u v)"
  using assms
proof (induction env x m rule: perm_step.induct)
  case (1 env now req m)
  then show ?case using inherits_Evaluate [of m env now req] by (auto simp: inherits_def)
next
  case (6 env now sid m)
  then show ?case using inherits_prune [of m now] by (auto simp: inherits_def ListPending_def Let_def)
next
  case (7 env now sid m)
  then show ?case using inherits_prune [of m now] derived_refl
    by (auto simp: inherits_def ExportSession_def Let_def split: if_splits)
next
  case (8 env now sid state m)
  then show ?case using derived_refl
    by (auto simp: RestoreSession_def Let_def decision_at_reset dest!: decision_at_restore split: if_splits)
next
  case (9 env now sid rid scope m)
  then show ?case using derived_refl
    by (auto simp: ApprovePending_def Let_def dest!: decision_at_set split: sum.splits option.splits if_splits)
next
  case (10 env now sid rid reason m)
  then show ?case using derived_refl
    by (auto simp: DenyPending_def Let_def dest!: decision_at_set split: option.splits if_splits)
next
  case (12 env now sid m)
  then show ?case using inherits_reset [of m sid] by (auto simp: inherits_def)
qed (use derived_refl in \<open>auto simp: set_ops or_default_def CancelPending_def ApplyPolicy_def manager_defs Let_def
      dest!: decision_at_set split: if_splits option.splits\<close>)


interpretation perm_store: recorded_store keys_distinct "perm_step env" decision_at "\<lambda>m x. set (writes env m x)" derived
  for env
  by unfold_locales (auto intro: keys_distinct_step derived_trans dest: step_origin)

section \<open>Grants with a number of uses\<close>

definition live :: "int \<Rightarrow> permission_manager \<Rightarrow> string \<Rightarrow> bool" where
  "live now m k = (case decision_at m k of None \<Rightarrow> False | Some ov \<Rightarrow> \<not> expired_at now (ov_expiresAt ov))"

text \<open>The key whose override decides a request: the first of its keys that holds a live one.\<close>

definition deciding_key :: "int \<Rightarrow> permission_request \<Rightarrow> permission_manager \<Rightarrow> string option" where
  "deciding_key now req m = find (live now m) (permissionDecisionKeys req)"

fun spends :: "permission_manager \<Rightarrow> int \<times> permission_op \<Rightarrow> string \<Rightarrow> bool" where
  "spends m (now, OpEvaluate req) k = (deciding_key now req m = Some k)"
| "spends m _ k = False"

definition uses_left :: "permission_override \<Rightarrow> nat option" where
  "uses_left ov = (if 1 \<le> ov_remaining ov then Some (nat (ov_remaining ov)) else None)"

text \<open>The override an evaluation hits and what becomes of the table.\<close>

definition hit :: "permission_override \<Rightarrow> permission_override option" where
  "hit ov = (if ov_remaining ov = 1 then None
     else if 1 < ov_remaining ov then Some (ov\<lparr>ov_remaining := ov_remaining ov - 1\<rparr>) else Some ov)"

lemma consume_live:
  assumes "decision_at m k = Some ov" and "\<not> expired_at now (ov_expiresAt ov)"
  shows "fst (consumeOverrideLocked now k m) = Some (ov_result ov)"
    and "decision_at (snd (consumeOverrideLocked now k m)) = (decision_at m)(k := hit ov)"
  using assms by (auto simp: consumeOverrideLocked_def hit_def delete_conv' update_conv' fun_eq_iff)

lemma consume_none: "decision_at m k = None \<Longrightarrow> consumeOverrideLocked now k m = (None, m)"
  by (simp add: consumeOverrideLocked_def)

lemma consume_first_pruned:
  assumes "\<And>k ov. decision_at m k = Some ov \<Longrightarrow> \<not> expired_at now (ov_expiresAt ov)"
  shows "case find (\<lambda>k. decision_at m k \<noteq> None) ks of
      None \<Rightarrow> consume_first now ks m = (None, m)
    | Some k \<Rightarrow> \<exists>ov m2. decision_at m k = Some ov \<and> consume_first now ks m = (Some (ov_result ov), m2)
        \<and> decision_at m2 = (decision_at m)(k := hit ov)"
proof (induction ks)
  case (Cons k ks)
  show ?case
  proof (cases "decision_at m k")
    case None
    then have "consume_first now (k # ks) m = consume_first now ks m"
      and "find (\<lambda>k. decision_at m k \<noteq> None) (k # ks) = find (\<lambda>k. decision_at m k \<noteq> None) ks"
      by (simp_all add: consume_none)
    with Cons.IH show ?thesis by metis
  next
    case (Some ov)
    obtain x m2 where c: "consumeOverrideLocked now k m = (x, m2)" by fastforce
    with consume_live [OF Some assms [OF Some]] Some show ?thesis by auto
  qed
qed simp

lemma pruned_live:
  "keys_distinct m \<Longrightarrow> decision_at (pruneExpiredLocked now m) k \<noteq> None \<longleftrightarrow> live now m k"
  by (auto simp: decision_at_prune live_def split: option.splits)

text \<open>What an evaluation reads and leaves: it is decided by the override of the deciding key when there is one.\<close>

lemma consume_Evaluate:
  assumes d: "keys_distinct m"
  shows "case deciding_key now req m of
      None \<Rightarrow> consume_first now (permissionDecisionKeys req) (pruneExpiredLocked now m) = (None, pruneExpiredLocked now m)
    | Some k \<Rightarrow> \<exists>ov m2. decision_at m k = Some ov \<and> live now m k
        \<and> consume_first now (permissionDecisionKeys req) (pruneExpiredLocked now m) = (Some (ov_result ov), m2)
        \<and> decision_at m2 = (decision_at (pruneExpiredLocked now m))(k := hit ov)"
proof -
  let ?m = "pruneExpiredLocked now m"
  have "(\<lambda>k. decision_at ?m k \<noteq> None) = live now m"
    using pruned_live [OF d] by (simp add: fun_eq_iff)
  then have key: "find (\<lambda>k. decision_at ?m k \<noteq> None) (permissionDecisionKeys req) = deciding_key now req m"
    by (simp add: deciding_key_def)
  have same: "decision_at ?m k = Some ov \<Longrightarrow> decision_at m k = Some ov \<and> live now m k \<and> \<not> expired_at now (ov_expiresAt ov)"
    for k ov
    by (auto simp: decision_at_prune [OF d] live_def split: option.splits if_splits)
  from consume_first_pruned [of ?m now "permissionDecisionKeys req"] same key show ?thesis
    by (cases "deciding_key now req m") fastforce+
qed

lemma deciding_key_SomeD:
  "deciding_key now req m = Some k \<Longrightarrow> k \<in> set (permissionDecisionKeys req) \<and> live now m k"
  by (auto simp: deciding_key_def find_Some_iff)

text \<open>An evaluation that an override decides returns what was granted and takes one use.\<close>

lemma Evaluate_override:
  assumes "keys_distinct m" and "deciding_key now req m = Some k"
  obtains ov m2 where "decision_at m k = Some ov" "Evaluate env now req m = (ov_result ov, m2)"
    "decision_at m2 = (decision_at (pruneExpiredLocked now m))(k := hit ov)"
  using consume_Evaluate [OF assms(1), of now req] assms(2) by (auto simp: Evaluate_def Let_def)

lemma Evaluate_spends:
  assumes "keys_distinct m" and "deciding_key now req m = Some k" and "decision_at m k = Some u"
  shows "decision_at (snd (Evaluate env now req m)) k = hit u"
  using Evaluate_override [OF assms(1,2), of env] assms(3) by (metis fun_upd_same option.sel snd_conv)

lemma uses_left_hit: "uses_left u = Some n \<Longrightarrow> 0 < n \<and> (\<forall>v. hit u = Some v \<longrightarrow> (\<exists>n' < n. uses_left v = Some n'))"
  by (auto simp: uses_left_def hit_def split: if_splits)

lemma derived_uses_left: "derived u v \<Longrightarrow> uses_left u = Some n \<Longrightarrow> \<exists>n' \<le> n. uses_left v = Some n'"
  by (auto simp: derived_def uses_left_def split: if_splits)

lemma spends_live: "spends m x k \<Longrightarrow> decision_at m k \<noteq> None"
proof -
  assume s: "spends m x k"
  obtain now o1 where x: "x = (now, o1)" by fastforce
  with s obtain req where "o1 = OpEvaluate req" by (cases o1) auto
  with s x show ?thesis by (auto dest!: deciding_key_SomeD simp: live_def split: option.splits)
qed

lemma spends_takes:
  assumes "keys_distinct m" and "decision_at m k = Some u" and "uses_left u = Some n" and "spends m x k"
  shows "0 < n \<and> (\<forall>v. decision_at (perm_step env x m) k = Some v \<longrightarrow> (\<exists>n' < n. uses_left v = Some n'))"
proof -
  obtain now o1 where x: "x = (now, o1)" by fastforce
  with assms(4) obtain req where "o1 = OpEvaluate req" by (cases o1) auto
  with x assms Evaluate_spends [of m now req k u env] uses_left_hit [OF assms(3)] show ?thesis by simp
qed

interpretation perm_meter: metered_store keys_distinct "perm_step env" decision_at "\<lambda>m x. set (writes env m x)" derived uses_left spends
  for env
  by unfold_locales (use spends_live spends_takes derived_uses_left in blast)+

end
