(* ===== verification/Permission_Index.thy ===== *)
theory Permission_Index
  imports Permission_Trace
begin

text \<open>
  The two tables of pending requests agree: \<open>pendingKey\<close> is the inverse of the keys of \<open>pending\<close>.
  The identifier of a request is a truncated hash of its key, so this needs that the hash does not
  collide on the keys in use.
\<close>

abbreviation key_of :: "pending_permission \<Rightarrow> string" where
  "key_of p \<equiv> permissionDecisionKey (pp_Request p)"

definition linked :: "permission_env \<Rightarrow> permission_manager \<Rightarrow> bool" where
  "linked env m \<longleftrightarrow>
     (\<forall>i p. map_of (pm_pending m) i = Some p \<longrightarrow>
        pp_ID p = i \<and> i = pendingPermissionID env (key_of p) \<and> map_of (pm_pendingKey m) (key_of p) = Some i)
     \<and> (\<forall>k i. map_of (pm_pendingKey m) k = Some i \<longrightarrow> (\<exists>p. map_of (pm_pending m) i = Some p \<and> key_of p = k))"

definition indexed :: "permission_env \<Rightarrow> string set \<Rightarrow> permission_manager \<Rightarrow> bool" where
  "indexed env K m \<longleftrightarrow> keys_distinct m \<and> linked env m \<and> (\<forall>i p. map_of (pm_pending m) i = Some p \<longrightarrow> key_of p \<in> K)"

text \<open>The requests an operation may add to the pending ones are among those with a key in \<open>K\<close>.\<close>

fun op_in :: "permission_env \<Rightarrow> string set \<Rightarrow> permission_op \<Rightarrow> bool" where
  "op_in env K (OpEvaluate req) = (permissionDecisionKey req \<in> K)"
| "op_in env K (OpRequestApproval req reason) = (permissionDecisionKey req \<in> K)"
| "op_in env K (OpRestoreSession sid state) =
    (\<forall>item \<in> set (ss_Pending state).
       let key = permissionDecisionKey (in_session (trim_space sid) (pp_Request item)) in
       key \<in> K \<and> (pp_ID item = [] \<or> pp_ID item = pendingPermissionID env key))"
| "op_in env K _ = True"

lemma linkedD:
  assumes "linked env m"
  shows "map_of (pm_pending m) i = Some p \<Longrightarrow> pp_ID p = i"
    and "map_of (pm_pending m) i = Some p \<Longrightarrow> i = pendingPermissionID env (key_of p)"
    and "map_of (pm_pending m) i = Some p \<Longrightarrow> map_of (pm_pendingKey m) (key_of p) = Some i"
    and "map_of (pm_pendingKey m) k = Some i \<Longrightarrow> \<exists>p. map_of (pm_pending m) i = Some p \<and> key_of p = k"
  using assms by (auto simp: linked_def)

lemma pending_after_drops:
  "map_of (pm_pending (fold drop_pending es m)) i = (if i \<in> fst ` set es then None else map_of (pm_pending m) i)"
  "map_of (pm_pendingKey (fold drop_pending es m)) k = (if k \<in> (key_of \<circ> snd) ` set es then None else map_of (pm_pendingKey m) k)"
  by (induction es arbitrary: m) (simp_all add: drop_pending_def delete_conv')

lemma linked_drops:
  assumes l: "linked env m" and es: "\<And>i p. (i, p) \<in> set es \<Longrightarrow> map_of (pm_pending m) i = Some p"
  shows "linked env (fold drop_pending es m)"
  unfolding linked_def pending_after_drops
proof (intro conjI allI impI)
  fix i p
  assume "(if i \<in> fst ` set es then None else map_of (pm_pending m) i) = Some p"
  then have i: "i \<notin> fst ` set es" and p: "map_of (pm_pending m) i = Some p" by (auto split: if_splits)
  have "key_of p \<notin> (key_of \<circ> snd) ` set es"
  proof
    assume "key_of p \<in> (key_of \<circ> snd) ` set es"
    then obtain j q where "(j, q) \<in> set es" and "key_of q = key_of p" by auto
    with es linkedD(3) [OF l, of j q] linkedD(3) [OF l p] i show False by (metis fst_conv image_eqI option.inject)
  qed
  then show "pp_ID p = i" "i = pendingPermissionID env (key_of p)"
    "(if key_of p \<in> (key_of \<circ> snd) ` set es then None else map_of (pm_pendingKey m) (key_of p)) = Some i"
    using linkedD(1-3) [OF l p] by auto
next
  fix k i
  assume "(if k \<in> (key_of \<circ> snd) ` set es then None else map_of (pm_pendingKey m) k) = Some i"
  then have k: "k \<notin> (key_of \<circ> snd) ` set es" and i: "map_of (pm_pendingKey m) k = Some i" by (auto split: if_splits)
  obtain p where p: "map_of (pm_pending m) i = Some p" "key_of p = k" using linkedD(4) [OF l i] by blast
  have "i \<notin> fst ` set es"
  proof
    assume "i \<in> fst ` set es"
    then obtain q where q: "(i, q) \<in> set es" by auto
    with es p(1) have "q = p" by fastforce
    with q p(2) k show False by force
  qed
  with p show "\<exists>p. (if i \<in> fst ` set es then None else map_of (pm_pending m) i) = Some p \<and> key_of p = k" by auto
qed

lemma indexed_drops:
  assumes "indexed env K m" and "\<And>i p. (i, p) \<in> set es \<Longrightarrow> map_of (pm_pending m) i = Some p"
  shows "indexed env K (fold drop_pending es m)"
  using assms linked_drops [of env m es]
  by (auto simp: indexed_def keys_distinct_drop pending_after_drops)

lemma indexed_drop: "indexed env K m \<Longrightarrow> map_of (pm_pending m) i = Some p \<Longrightarrow> indexed env K (drop_pending (i, p) m)"
  using indexed_drops [of env K m "[(i, p)]"] by simp

lemma indexed_decisions:
  "indexed env K m \<Longrightarrow> distinct (map fst d) \<Longrightarrow> indexed env K (m\<lparr>pm_decisions := d\<rparr>)"
  by (simp add: indexed_def linked_def keys_distinct_decisions)

lemma indexed_frame:
  "pm_decisions m' = pm_decisions m \<Longrightarrow> pm_pending m' = pm_pending m \<Longrightarrow> pm_pendingKey m' = pm_pendingKey m \<Longrightarrow>
    indexed env K m' = indexed env K m"
  by (simp add: indexed_def linked_def keys_distinct_def)

lemma indexed_entries: "indexed env K m \<Longrightarrow> (i, p) \<in> set (pm_pending m) \<Longrightarrow> map_of (pm_pending m) i = Some p"
  by (simp add: indexed_def keys_distinct_def)

lemma indexed_prune: "indexed env K m \<Longrightarrow> indexed env K (pruneExpiredLocked now m)"
  unfolding pruneExpiredLocked_def
  by (intro indexed_drops indexed_decisions)
    (auto simp: indexed_def keys_distinct_def distinct_filter_fst)

lemma indexed_reset: "indexed env K m \<Longrightarrow> indexed env K (ResetSession sid m)"
  unfolding ResetSession_def Let_def
  by (simp, intro impI indexed_drops indexed_decisions)
    (auto simp: indexed_def keys_distinct_def distinct_filter_fst)

text \<open>Adding a request under the hash of its key keeps the tables linked, when the hash does not collide.\<close>

lemma indexed_add:
  assumes m: "indexed env K m" and inj: "inj_on (pendingPermissionID env) K"
    and p: "key_of p \<in> K" "pp_ID p = pendingPermissionID env (key_of p)"
  shows "indexed env K (m\<lparr>pm_pending := AList.update (pp_ID p) p (pm_pending m),
    pm_pendingKey := AList.update (key_of p) (pp_ID p) (pm_pendingKey m)\<rparr>)" (is "indexed env K ?m")
proof -
  have l: "linked env m" using m by (simp add: indexed_def)
  have same: "key_of q = key_of p" if "map_of (pm_pending m) (pp_ID p) = Some q" for q
    using that linkedD(2) [OF l that] p m inj by (metis indexed_def inj_onD)
  have "linked env ?m"
    unfolding linked_def
  proof (intro conjI allI impI)
    fix i q
    assume "map_of (pm_pending ?m) i = Some q"
    then consider "i = pp_ID p" "q = p" | "i \<noteq> pp_ID p" "map_of (pm_pending m) i = Some q"
      by (auto simp: update_conv' split: if_splits)
    then show "pp_ID q = i" "i = pendingPermissionID env (key_of q)" "map_of (pm_pendingKey ?m) (key_of q) = Some i"
      using linkedD(1-3) [OF l, of i q] p by (cases; auto simp: update_conv')+
  next
    fix k i
    assume "map_of (pm_pendingKey ?m) k = Some i"
    then consider "k = key_of p" "i = pp_ID p" | "k \<noteq> key_of p" "map_of (pm_pendingKey m) k = Some i"
      by (auto simp: update_conv' split: if_splits)
    then show "\<exists>q. map_of (pm_pending ?m) i = Some q \<and> key_of q = k"
      using linkedD(4) [OF l, of k i] same by cases (auto simp: update_conv')
  qed
  with m p show ?thesis
    by (auto simp: indexed_def keys_distinct_def distinct_update update_conv' split: if_splits)
qed

lemma new_pending_simps [simp]:
  "pp_ID (new_pending env now ttl req reason) = pendingPermissionID env (permissionDecisionKey req)"
  "pp_Request (new_pending env now ttl req reason) = req"
  by (simp_all add: new_pending_def)

lemma indexed_ensure:
  assumes "indexed env K m" and "inj_on (pendingPermissionID env) K" and "permissionDecisionKey req \<in> K"
  shows "indexed env K (snd (ensurePendingLocked env now req r m))"
  using assms indexed_add [OF assms(1,2), of "new_pending env now (pm_pendingTTL m) req (trim_space (re_Reason r))"]
  by (simp add: ensurePendingLocked_def Let_def split: option.splits)

lemma indexed_set:
  assumes m: "indexed env K m"
  shows "indexed env K (setSessionDecisionLocked env now req r scope m)"
proof (cases "pr_SessionID req = []")
  case False
  let ?d = "AList.update (permissionOverrideKey env req scope) (new_override env now req r scope) (pm_decisions m)"
  let ?m = "m\<lparr>pm_decisions := ?d\<rparr>" and ?k = "permissionDecisionKey req"
  have i: "indexed env K ?m"
    using indexed_decisions [OF m] m by (simp add: distinct_update indexed_def keys_distinct_def)
  show ?thesis
  proof (cases "map_of (pm_pendingKey m) ?k")
    case None
    with i False show ?thesis by (simp add: setSessionDecisionLocked_def Let_def)
  next
    case (Some pid)
    with m obtain p where p: "map_of (pm_pending m) pid = Some p" "key_of p = ?k"
      by (auto simp: indexed_def dest: linkedD(4))
    with Some False indexed_drop [OF i, of pid p] show ?thesis
      by (simp add: setSessionDecisionLocked_def Let_def drop_pending_def)
  qed
qed (use m in \<open>simp add: setSessionDecisionLocked_def\<close>)

lemma indexed_restore_overrides: "indexed env K m \<Longrightarrow> indexed env K (fold (restore_override env sid) items m)"
proof (induction items arbitrary: m)
  case (Cons item items)
  have "distinct (map fst (pm_decisions m))" using Cons.prems by (simp add: indexed_def keys_distinct_def)
  with Cons.prems have "indexed env K (restore_override env sid item m)"
    unfolding restore_override_def Let_def by (simp add: indexed_decisions distinct_update)
  with Cons.IH show ?case by simp
qed simp

lemma indexed_restore_pending:
  assumes "inj_on (pendingPermissionID env) K"
    and "\<And>item. item \<in> set items \<Longrightarrow> permissionDecisionKey (in_session sid (pp_Request item)) \<in> K
      \<and> (pp_ID item = [] \<or> pp_ID item = pendingPermissionID env (permissionDecisionKey (in_session sid (pp_Request item))))"
  shows "indexed env K m \<Longrightarrow> indexed env K (fold (restore_pending env now sid) items m)"
  using assms(2)
proof (induction items arbitrary: m)
  case (Cons item items)
  let ?p = "restored_pending env now (pm_pendingTTL m) sid item"
  have "key_of ?p \<in> K" "pp_ID ?p = pendingPermissionID env (key_of ?p)"
    using Cons.prems(2) [of item] by (auto simp: restored_pending_def Let_def)
  with indexed_add [OF Cons.prems(1) assms(1)] Cons.prems(1)
  have "indexed env K (restore_pending env now sid item m)" by (simp add: restore_pending_def Let_def)
  with Cons show ?case by simp
qed simp

lemma consume_pending_same:
  "consume_first now ks m = (x, m2) \<Longrightarrow> pm_pending m2 = pm_pending m \<and> pm_pendingKey m2 = pm_pendingKey m
     \<and> pm_rules m2 = pm_rules m"
proof (induction ks arbitrary: m)
  case (Cons k ks)
  obtain y m1 where c: "consumeOverrideLocked now k m = (y, m1)" by fastforce
  then have "pm_pending m1 = pm_pending m \<and> pm_pendingKey m1 = pm_pendingKey m \<and> pm_rules m1 = pm_rules m"
    by (auto simp: consumeOverrideLocked_def split: option.splits if_splits)
  with Cons c show ?case by (auto split: option.splits)
qed simp

lemma indexed_consume: "indexed env K m \<Longrightarrow> consume_first now ks m = (x, m2) \<Longrightarrow> indexed env K m2"
  using consume_pending_same [of now ks m x m2] keys_distinct_pair(1) [of m now ks x m2]
  by (auto simp: indexed_def linked_def)

lemma indexed_Evaluate:
  assumes "indexed env K m" and "inj_on (pendingPermissionID env) K" and "permissionDecisionKey req \<in> K"
  shows "indexed env K (snd (Evaluate env now req m))"
proof -
  have c: "indexed env K m2" if "consume_first now (permissionDecisionKeys req) (pruneExpiredLocked now m) = (x, m2)" for x m2
    using indexed_consume [OF indexed_prune [OF assms(1)] that] .
  have e: "indexed env K m3" if "indexed env K m2" "ensurePendingLocked env now req r m2 = (p, m3)" for r p m2 m3
    using indexed_ensure [OF that(1) assms(2,3), of now r] that(2) by simp
  show ?thesis by (rule Evaluate_cases [of now req m env]) (use c e in \<open>metis snd_conv\<close>)+
qed

lemma indexed_step:
  assumes "indexed env K m" and "inj_on (pendingPermissionID env) K" and "op_in env K (snd x)"
  shows "indexed env K (perm_step env x m)"
  using assms
proof (induction env x m rule: perm_step.induct)
  case (8 env now sid state m)
  have *: "indexed env K (fold (restore_pending env now (trim_space sid)) (ss_Pending state) m')" if "indexed env K m'" for m'
    using indexed_restore_pending [OF "8.prems"(2) _ that] "8.prems"(3) by (auto simp: Let_def)
  show ?case
    using "8.prems"(1) by (simp add: RestoreSession_def Let_def * indexed_restore_overrides indexed_reset)
next
  case (9 env now sid rid scope m)
  then show ?case
    by (auto simp: ApprovePending_def Let_def intro: indexed_set indexed_drop split: sum.splits option.splits)
next
  case (10 env now sid rid reason m)
  then show ?case by (auto simp: DenyPending_def Let_def intro: indexed_set indexed_drop split: option.splits)
next
  case (11 env now sid rid m)
  then show ?case by (auto simp: CancelPending_def Let_def intro: indexed_drop split: option.splits)
next
  case (13 env now req reason m)
  then show ?case using indexed_ensure [of env K m req now] by (simp add: RequestApproval_def case_prod_beta)
next
  case (14 env now policy m)
  then show ?case
    using indexed_frame [of "ApplyPolicy env policy m" m env K] by (simp add: ApplyPolicy_def manager_defs Let_def)
next
  case (15 env now rules m)
  then show ?case using indexed_frame [of "AddRules rules m" m env K] by (simp add: AddRules_def)
qed (simp_all add: indexed_Evaluate set_ops ListPending_def ExportSession_def indexed_set indexed_prune indexed_reset Let_def)

lemma indexed_new: "indexed env K (NewPermissionManager rules)"
  by (simp add: indexed_def linked_def) (simp add: NewPermissionManager_def)

lemma indexed_run:
  assumes "inj_on (pendingPermissionID env) K" and "\<forall>x \<in> set xs. op_in env K (snd x)" and "indexed env K m"
  shows "indexed env K (perm_run env xs m)"
  using assms(2,3) unfolding perm_run_def
  by (induction xs arbitrary: m) (auto intro: indexed_step [OF _ assms(1)])

end
