(* ===== verification/Permission_Correct.thy ===== *)
theory Permission_Correct
  imports Permission_Index "HOL-Library.Multiset"
begin

text \<open>
  What the permission manager guarantees: where an approval comes from, how often it can be used,
  that asking and approving leads to the call being allowed, that the tables of pending requests
  agree, that an exported session is restored, and which shell calls are let through.
\<close>

section \<open>Where an approval comes from\<close>

lemma Evaluate_undecided:
  assumes "keys_distinct m" and "deciding_key now req m = None"
  shows "consume_first now (permissionDecisionKeys req) (pruneExpiredLocked now m) = (None, pruneExpiredLocked now m)"
  using consume_Evaluate [OF assms(1), of now req] assms(2) by simp

lemma prune_rules [simp]: "pm_rules (pruneExpiredLocked now m) = pm_rules m"
  by (simp add: pruneExpiredLocked_def)

lemma Evaluate_by_rules:
  assumes "keys_distinct m" and "deciding_key now req m = None"
    and "re_Decision (fst (Evaluate env now req m)) \<in> {PermissionAllow, PermissionDeny}"
  shows "\<exists>r. first_handled (pm_rules m) req = Some r \<and> re_Decision r = re_Decision (fst (Evaluate env now req m))"
  by (rule Evaluate_cases [of now req m env])
    (use assms(3) Evaluate_undecided [OF assms(1,2)] in \<open>auto split: if_splits\<close>)

text \<open>
  C30. An approval is traceable. When an evaluation in any run of the manager allows a request, then
  a rule of the policy allows it, or an earlier operation of the run (an approval, an explicit
  allow, or the restore of a saved session) stored an allow under one of the keys of the request;
  that grant has not expired and its request has the key it is found under.
\<close>
theorem allow_is_granted:
  assumes run: "m = perm_run env xs (NewPermissionManager rules)"
    and allowed: "re_Decision (fst (Evaluate env now req m)) = PermissionAllow"
  shows "(\<exists>r. first_handled (pm_rules m) req = Some r \<and> re_Decision r = PermissionAllow)
    \<or> (\<exists>xs1 x xs2 k ov. xs = xs1 @ x # xs2
        \<and> (k, ov) \<in> set (writes env (perm_run env xs1 (NewPermissionManager rules)) x)
        \<and> k \<in> set (permissionDecisionKeys req)
        \<and> re_Decision (ov_result ov) = PermissionAllow \<and> \<not> expired_at now (ov_expiresAt ov))"
proof (cases "deciding_key now req m")
  case None
  have "keys_distinct m" using run perm_store.invar_run by (simp add: perm_run_def)
  from Evaluate_by_rules [OF this None, of env] allowed show ?thesis by auto
next
  case (Some k)
  have d: "keys_distinct m" using run perm_store.invar_run by (simp add: perm_run_def)
  obtain ov m2 where ov: "decision_at m k = Some ov" "Evaluate env now req m = (ov_result ov, m2)"
    by (rule Evaluate_override [OF d Some, of env])
  from deciding_key_SomeD [OF Some] ov(1) have k: "k \<in> set (permissionDecisionKeys req)" "\<not> expired_at now (ov_expiresAt ov)"
    by (auto simp: live_def)
  have "decision_at (NewPermissionManager rules) k = None" by (simp add: NewPermissionManager_def)
  with perm_store.run_origin [of "NewPermissionManager rules" env xs k ov] ov(1) run
  obtain xs1 x xs2 u where "xs = xs1 @ x # xs2" and "(k, u) \<in> set (writes env (perm_run env xs1 (NewPermissionManager rules)) x)"
    and "derived u ov"
    by (auto simp: perm_run_def)
  moreover from \<open>derived u ov\<close> have "ov_result ov = ov_result u" "ov_expiresAt ov = ov_expiresAt u"
    unfolding derived_def by (metis permission_override.select_convs permission_override.surjective permission_override.update_convs(3))+
  ultimately show ?thesis using k ov(2) allowed by (intro disjI2) fastforce
qed

section \<open>How often an approval can be used\<close>

text \<open>
  C32. A grant with a number of uses is used at most that often: while no operation stores a new
  decision under its key, at most \<open>n\<close> evaluations are decided by a grant with \<open>n\<close> uses left,
  whatever the other operations of the run are.
\<close>
theorem grant_uses_bounded:
  assumes "m = perm_run env xs (NewPermissionManager rules)"
    and "decision_at m k = Some ov" and "1 \<le> ov_remaining ov"
    and "on_run (perm_step env) (\<lambda>m x. k \<notin> fst ` set (writes env m x)) m ys"
  shows "int (times_on (perm_step env) (\<lambda>m x. spends m x k) m ys) \<le> ov_remaining ov"
proof -
  have "keys_distinct m" using assms(1) perm_store.invar_run by (simp add: perm_run_def)
  from perm_meter.uses_bounded [OF this assms(4,2), of "nat (ov_remaining ov)"] assms(3) show ?thesis
    by (simp add: uses_left_def)
qed

section \<open>Asking, approving, running\<close>

lemma decision_at_set_new:
  "pr_SessionID req \<noteq> [] \<Longrightarrow> decision_at (setSessionDecisionLocked env now req r scope m) =
    (decision_at m)(permissionOverrideKey env req scope \<mapsto> new_override env now req r scope)"
  by (simp add: setSessionDecisionLocked_def Let_def update_conv' split: option.splits)

lemma Evaluate_no_override:
  assumes "keys_distinct m" and "deciding_key now req m = None" and "k \<in> set (permissionDecisionKeys req)"
  shows "decision_at (snd (Evaluate env now req m)) k = None"
proof -
  have "decision_at (pruneExpiredLocked now m) k = None"
    using assms pruned_live [OF assms(1), of now k] by (auto simp: deciding_key_def find_None_iff)
  then show ?thesis
    by (rule_tac Evaluate_cases [of now req m env])
      (use Evaluate_undecided [OF assms(1,2)] ensure_same(1) in \<open>auto, metis snd_conv\<close>)
qed

lemma ensure_fresh:
  assumes "ensurePendingLocked env now req r m = (p, m')" and "map_of (pm_pendingKey m) (permissionDecisionKey req) = None"
  shows "map_of (pm_pending m') (pp_ID p) = Some p \<and> pp_Request p = req \<and> pp_ExpiresAt p = now + pm_pendingTTL m"
  using assms by (auto simp: ensurePendingLocked_def Let_def new_pending_def update_conv')

lemma new_override_live:
  assumes "parsePermissionGrantScope env scope = Inr g" and "\<forall>d. g = GrantTimebox d \<longrightarrow> t3 < t2 + d"
  shows "\<not> expired_at t3 (ov_expiresAt (new_override env t2 req r scope))"
  using assms by (auto simp: new_override_def expired_at_def split: parsed_permission_grant.splits)

text \<open>
  C31. Asking and approving makes a call run. When a request that has no live decision and is not
  already waiting is answered with a pending approval, then the identifier in the answer names this
  request; approving it in its session, with any scope the code accepts and before it expires,
  succeeds and resolves this very request, and the next evaluation of it allows it.
\<close>
theorem approval_takes_effect:
  assumes run: "m = perm_run env xs (NewPermissionManager rules)"
    and asked: "Evaluate env t1 req m = (r, m1)" "re_Decision r = PermissionPending" "trim_space (re_Scope r) \<noteq> ''review''"
    and fresh: "deciding_key t1 req m = None" "map_of (pm_pendingKey (pruneExpiredLocked t1 m)) (permissionDecisionKey req) = None"
    and session: "sameSession (pr_SessionID req) sid" "pr_SessionID req \<noteq> []"
    and scope: "scope \<noteq> []" "parsePermissionGrantScope env scope = Inr g"
    and time: "t2 < t1 + pm_pendingTTL m" "\<forall>d. g = GrantTimebox d \<longrightarrow> t3 < t2 + d"
    and approved: "ApprovePending env t2 sid (re_RequestID r) scope m1 = (res, m2)"
  shows "(\<exists>z. res = Inr z \<and> rs_Request z = req \<and> rs_Decision z = PermissionAllow)
    \<and> re_Decision (fst (Evaluate env t3 req m2)) = PermissionAllow"
proof -
  have d: "keys_distinct m" using run perm_store.invar_run by (simp add: perm_run_def)
  note undecided = Evaluate_undecided [OF d fresh(1)]
  obtain r0 p m3 where e: "ensurePendingLocked env t1 req r0 (pruneExpiredLocked t1 m) = (p, m3)" "m1 = m3" "re_RequestID r = pp_ID p"
    by (rule Evaluate_cases [of t1 req m env]) (use undecided asked fresh in \<open>auto split: if_splits\<close>)
  have "pm_pendingTTL (pruneExpiredLocked t1 m) = pm_pendingTTL m" by (simp add: pruneExpiredLocked_def)
  with ensure_fresh [OF e(1) fresh(2)] e
  have p: "map_of (pm_pending m1) (re_RequestID r) = Some p" "pp_Request p = req" "pp_ExpiresAt p = t1 + pm_pendingTTL m"
    by simp_all
  let ?r = "result_of PermissionAllow [] scope" and ?k = "permissionOverrideKey env req scope"
  let ?m = "drop_pending (re_RequestID r, p) m1"
  have live_p: "\<not> pendingExpiredLocked t2 p" using p(3) time(1) by (auto simp: pendingExpiredLocked_def expired_at_def)
  have res: "res = Inr \<lparr>rs_RequestID = re_RequestID r, rs_Decision = PermissionAllow, rs_Status = StatusApproved,
      rs_Scope = scope, rs_Reason = [], rs_Request = req\<rparr>"
    and m2: "m2 = setSessionDecisionLocked env t2 req ?r scope ?m"
    using approved p scope session(1) live_p by (auto simp: ApprovePending_def Let_def)
  have d1: "keys_distinct m1" using keys_distinct_Evaluate [OF d, of env t1 req] asked(1) by simp
  have d2: "keys_distinct m2" by (simp add: m2 keys_distinct_set keys_distinct_drop1 d1)
  have at: "decision_at m2 = (decision_at m1)(?k \<mapsto> new_override env t2 req ?r scope)"
    using decision_at_set_new [OF session(2)] by (simp add: m2)
  have old: "decision_at m1 k = None" if "k \<in> set (permissionDecisionKeys req)" for k
    using Evaluate_no_override [OF d fresh(1) that, of env] asked(1) by simp
  have lv: "live t3 m2 ?k" using at new_override_live [OF scope(2) time(2), of req ?r] by (simp add: live_def)
  have only: "live t3 m2 k \<longleftrightarrow> k = ?k" if "k \<in> set (permissionDecisionKeys req)" for k
    using lv at old [OF that] by (auto simp: live_def)
  have "deciding_key t3 req m2 \<noteq> None"
    using lv override_key_looked_up [of env req scope] by (auto simp: deciding_key_def find_None_iff)
  then obtain k where k: "deciding_key t3 req m2 = Some k" by blast
  then have "k = ?k" using deciding_key_SomeD [OF k] only by blast
  obtain ov m4 where ov: "decision_at m2 k = Some ov" "Evaluate env t3 req m2 = (ov_result ov, m4)"
    by (rule Evaluate_override [OF d2 k, of env])
  with at \<open>k = ?k\<close> have "ov = new_override env t2 req ?r scope" by simp
  then have "re_Decision (ov_result ov) = PermissionAllow" by (simp add: new_override_def Let_def)
  with ov(2) have "re_Decision (fst (Evaluate env t3 req m2)) = PermissionAllow" by simp
  with res show ?thesis by simp
qed

section \<open>The tables of pending requests\<close>

text \<open>
  C33. The two tables of pending requests agree in every run: a pending request is stored under its own
  identifier, which is the hash of its key, and the key leads back to it; and every key in the
  second table leads to a pending request with this key. The hash must not collide on the keys in
  use, and a restored request must carry its own identifier or none.
\<close>
theorem pending_requests_indexed:
  assumes "inj_on (pendingPermissionID env) K" and "\<forall>x \<in> set xs. op_in env K (snd x)"
    and "m = perm_run env xs (NewPermissionManager rules)"
  shows "(\<forall>i p. map_of (pm_pending m) i = Some p \<longrightarrow>
        pp_ID p = i \<and> i = pendingPermissionID env (permissionDecisionKey (pp_Request p))
        \<and> map_of (pm_pendingKey m) (permissionDecisionKey (pp_Request p)) = Some i)
    \<and> (\<forall>k i. map_of (pm_pendingKey m) k = Some i \<longrightarrow>
        (\<exists>p. map_of (pm_pending m) i = Some p \<and> permissionDecisionKey (pp_Request p) = k))"
  using indexed_run [OF assms(1,2) indexed_new, of rules] assms(3) by (simp add: indexed_def linked_def)

section \<open>Saving and restoring a session\<close>

text \<open>
  The key of an entry is the one its own request and scope give. It holds in runs in which scopes
  are given without surrounding blanks and restored overrides carry a scope the code accepts.
\<close>

definition self_keyed :: "permission_env \<Rightarrow> permission_manager \<Rightarrow> bool" where
  "self_keyed env m \<longleftrightarrow> (\<forall>k ov. decision_at m k = Some ov \<longrightarrow>
     k = permissionOverrideKey env (ov_request ov) (storedPermissionGrantScope env ov)
     \<and> \<not> isl (parsePermissionGrantScope env (trim_space (re_Scope (ov_result ov)))))"

fun plain_scope :: "permission_env \<Rightarrow> permission_op \<Rightarrow> bool" where
  "plain_scope env (OpApprovePending sid rid scope) = (trim_space scope = scope)"
| "plain_scope env (OpRestoreSession sid state) =
    (\<forall>ov \<in> set (ss_Overrides state). \<not> isl (parsePermissionGrantScope env (trim_space (re_Scope (ov_result ov)))))"
| "plain_scope env _ = True"

lemma stored_scope_request [simp]:
  "storedPermissionGrantScope env (ov\<lparr>ov_request := q\<rparr>) = storedPermissionGrantScope env ov"
  by (simp add: storedPermissionGrantScope_def)

lemma stored_scope:
  "\<not> isl (parsePermissionGrantScope env (trim_space (re_Scope (ov_result ov)))) \<Longrightarrow>
    storedPermissionGrantScope env ov = trim_space (re_Scope (ov_result ov))"
  by (auto simp: storedPermissionGrantScope_def Let_def isl_def split: sum.splits)

lemma stored_self_keyed:
  assumes "(k, ov) \<in> set (stored env now req r scope)" and "re_Scope r = scope" and "trim_space scope = scope"
    and "\<not> isl (parsePermissionGrantScope env scope)"
  shows "k = permissionOverrideKey env (ov_request ov) (storedPermissionGrantScope env ov)
     \<and> \<not> isl (parsePermissionGrantScope env (trim_space (re_Scope (ov_result ov))))"
  using assms by (auto simp: stored_def new_override_def Let_def storedPermissionGrantScope_def isl_def split: if_splits sum.splits)

lemma fixed_scopes:
  "trim_space ''session'' = ''session''" "trim_space ''once'' = ''once''" "trim_space ''pattern'' = ''pattern''"
  "parsePermissionGrantScope env ''session'' = Inr GrantSession"
  "parsePermissionGrantScope env ''once'' = Inr GrantOnce" "parsePermissionGrantScope env ''pattern'' = Inr GrantPattern"
proof -
  have t: "trim_space ''session'' = ''session''" "trim_space ''once'' = ''once''" "trim_space ''pattern'' = ''pattern''"
    and l: "to_lower ''session'' = ''session''" "to_lower ''once'' = ''once''" "to_lower ''pattern'' = ''pattern''"
    by code_simp+
  then show "trim_space ''session'' = ''session''" "trim_space ''once'' = ''once''" "trim_space ''pattern'' = ''pattern''"
    "parsePermissionGrantScope env ''session'' = Inr GrantSession"
    "parsePermissionGrantScope env ''once'' = Inr GrantOnce" "parsePermissionGrantScope env ''pattern'' = Inr GrantPattern"
    by (simp_all add: parsePermissionGrantScope_def)
qed

lemma ApprovePending_scope:
  "fst (ApprovePending env now sid rid scope m) = Inr z \<Longrightarrow>
    \<not> isl (parsePermissionGrantScope env (if scope = [] then ''session'' else scope))"
  by (auto simp: ApprovePending_def Let_def split: sum.splits option.splits if_splits)

lemma restored_self_keyed:
  assumes "(k, ov) \<in> set (restored env sid items)"
    and "\<forall>ov \<in> set items. \<not> isl (parsePermissionGrantScope env (trim_space (re_Scope (ov_result ov))))"
  shows "k = permissionOverrideKey env (ov_request ov) (storedPermissionGrantScope env ov)
     \<and> \<not> isl (parsePermissionGrantScope env (trim_space (re_Scope (ov_result ov))))"
  using assms by (auto simp: restored_def Let_def)

lemma writes_self_keyed:
  assumes "(k, ov) \<in> set (writes env m x)" and "plain_scope env (snd x)"
  shows "k = permissionOverrideKey env (ov_request ov) (storedPermissionGrantScope env ov)
     \<and> \<not> isl (parsePermissionGrantScope env (trim_space (re_Scope (ov_result ov))))"
  using assms
proof (induction env m x rule: writes.induct)
  case (5 env m now sid state)
  then show ?case using restored_self_keyed by simp
next
  case (6 env m now sid rid scope)
  let ?scope = "if scope = [] then ''session'' else scope"
  obtain z where z: "fst (ApprovePending env now sid rid scope m) = Inr z"
    and k: "(k, ov) \<in> set (stored env now (rs_Request z) (result_of PermissionAllow [] ?scope) ?scope)"
    using "6.prems"(1) by (cases "fst (ApprovePending env now sid rid scope m)") (auto simp: Let_def)
  from "6.prems"(2) have "trim_space ?scope = ?scope" by (auto simp: fixed_scopes)
  with stored_self_keyed [OF k] ApprovePending_scope [OF z] show ?case by simp
qed (auto simp: fixed_scopes Let_def dest!: stored_self_keyed split: if_splits sum.splits)

lemma derived_fields: "derived u v \<Longrightarrow> ov_request v = ov_request u \<and> ov_result v = ov_result u"
  unfolding derived_def by (metis permission_override.select_convs(1,2) permission_override.surjective permission_override.update_convs(3))

lemma self_keyed_step:
  assumes "keys_distinct m" and "self_keyed env m" and "plain_scope env (snd x)"
  shows "self_keyed env (perm_step env x m)"
  unfolding self_keyed_def
proof (intro allI impI)
  fix k v
  assume "decision_at (perm_step env x m) k = Some v"
  from step_origin [OF assms(1) this] consider (new) "(k, v) \<in> set (writes env m x)"
    | (old) u where "decision_at m k = Some u" "derived u v" by blast
  then show "k = permissionOverrideKey env (ov_request v) (storedPermissionGrantScope env v)
     \<and> \<not> isl (parsePermissionGrantScope env (trim_space (re_Scope (ov_result v))))"
  proof cases
    case new
    then show ?thesis using writes_self_keyed assms(3) by blast
  next
    case old
    with assms(2) have "k = permissionOverrideKey env (ov_request u) (storedPermissionGrantScope env u)"
      and n: "\<not> isl (parsePermissionGrantScope env (trim_space (re_Scope (ov_result u))))"
      by (auto simp: self_keyed_def)
    with derived_fields [OF old(2)] show ?thesis
      by (auto simp: storedPermissionGrantScope_def Let_def isl_def split: sum.splits)
  qed
qed

lemma self_keyed_run:
  assumes "\<forall>x \<in> set xs. plain_scope env (snd x)"
  shows "keys_distinct m \<Longrightarrow> self_keyed env m \<Longrightarrow> self_keyed env (perm_run env xs m)"
  using assms unfolding perm_run_def
  by (induction xs arbitrary: m) (auto intro: self_keyed_step keys_distinct_step)

text \<open>Storing the values of a table again, in any order, under the keys they had gives the table back.\<close>

lemma reload:
  assumes d: "distinct (map fst D)" and h: "\<And>k v. (k, v) \<in> set D \<Longrightarrow> Q v \<Longrightarrow> h v = (k, v)"
    and items: "mset items = mset (filter Q (map snd D))"
  shows "map_of (rev (map h items)) k = (case map_of D k of None \<Rightarrow> None | Some v \<Rightarrow> if Q v then Some v else None)"
proof -
  let ?E = "filter (\<lambda>(k, v). Q v) D"
  have "map h (filter Q (map snd D)) = map (h \<circ> snd) ?E" by (simp add: filter_map comp_def case_prod_unfold)
  also have "\<dots> = ?E" by (rule map_idI) (use h in auto)
  finally have "mset (map h items) = mset ?E" using items by (metis mset_map)
  moreover have "distinct (map fst ?E)" using d by (rule distinct_filter_fst)
  ultimately have "distinct (map fst (map h items))" and "set (map h items) = set ?E"
    by (metis distinct_map mset_eq_imp_distinct_iff mset_map, metis mset_eq_setD)
  then have "map_of (rev (map h items)) = map_of ?E"
    using \<open>distinct (map fst ?E)\<close> by (subst map_of_inject_set) (simp_all only: rev_map [symmetric] set_rev distinct_rev)
  then show ?thesis using map_of_filter_value [OF d] by simp
qed

lemma fold_restore_override_pending [simp]:
  "pm_pending (fold (restore_override env sid) items m) = pm_pending m"
  by (induction items arbitrary: m) (simp_all add: restore_override_def Let_def)

lemma fold_restore_override:
  assumes "\<And>item. item \<in> set items \<Longrightarrow> trim_space (pr_SessionID (ov_request item)) = sid" and "sid \<noteq> []"
  shows "decision_at (fold (restore_override env sid) items m) = decision_at m ++
    map_of (rev (map (\<lambda>item. (permissionOverrideKey env (ov_request item) (storedPermissionGrantScope env item), item)) items))"
  using assms(1)
proof (induction items arbitrary: m)
  case (Cons item items)
  have "restore_override env sid item m = m\<lparr>pm_decisions :=
      AList.update (permissionOverrideKey env (ov_request item) (storedPermissionGrantScope env item)) item (pm_decisions m)\<rparr>"
    using Cons.prems [of item] assms(2) by (simp add: restore_override_def Let_def)
  with Cons.IH [of "restore_override env sid item m"] Cons.prems show ?case
    by (auto simp: update_conv' map_add_def fun_eq_iff split: option.splits)
qed simp

lemma pending_at_prune:
  "keys_distinct m \<Longrightarrow> map_of (pm_pending (pruneExpiredLocked now m)) i =
    (case map_of (pm_pending m) i of None \<Rightarrow> None | Some p \<Rightarrow> if pendingExpiredLocked now p then None else Some p)"
proof -
  assume "keys_distinct m"
  then have d: "distinct (map fst (pm_pending m))" by (simp add: keys_distinct_def)
  then have "i \<in> fst ` set (filter (\<lambda>(pid, p). pendingExpiredLocked now p) (pm_pending m)) \<longleftrightarrow>
      (\<exists>p. map_of (pm_pending m) i = Some p \<and> pendingExpiredLocked now p)"
    by (force simp: map_of_eq_Some_iff)
  then show ?thesis by (auto simp: pruneExpiredLocked_def pending_after_drops split: option.splits)
qed

definition dated :: "pending_permission \<Rightarrow> bool" where
  "dated p \<longleftrightarrow> pp_CreatedAt p \<noteq> 0 \<and> pp_ExpiresAt p \<noteq> 0 \<and> pp_Status p \<noteq> NoStatus"

lemma restored_pending_id:
  assumes "dated p" and "pp_ID p = pendingPermissionID env (key_of p)" and "trim_space (pr_SessionID (pp_Request p)) \<noteq> []"
  shows "restored_pending env now ttl sid p = p"
  using assms by (cases p) (simp add: restored_pending_def Let_def dated_def)

lemma fold_restore_pending:
  assumes "\<And>item. item \<in> set items \<Longrightarrow> dated item \<and> pp_ID item = pendingPermissionID env (key_of item)
      \<and> trim_space (pr_SessionID (pp_Request item)) = sid" and "sid \<noteq> []"
  shows "map_of (pm_pending (fold (restore_pending env now sid) items m)) =
    map_of (pm_pending m) ++ map_of (rev (map (\<lambda>item. (pp_ID item, item)) items))"
  using assms(1)
proof (induction items arbitrary: m)
  case (Cons item items)
  have "restored_pending env now (pm_pendingTTL m) sid item = item"
    using restored_pending_id [of item] Cons.prems [of item] assms(2) by simp
  then have "map_of (pm_pending (restore_pending env now sid item m)) = (map_of (pm_pending m))(pp_ID item \<mapsto> item)"
    using Cons.prems [of item] by (simp add: restore_pending_def Let_def update_conv')
  with Cons.IH [of "restore_pending env now sid item m"] Cons.prems show ?case
    by (auto simp: map_add_def fun_eq_iff split: option.splits)
qed simp

text \<open>What the export of a run holds: the live entries of the session, each keyed by itself.\<close>

lemma exported:
  assumes inj: "inj_on (pendingPermissionID env) K"
    and ops: "\<forall>x \<in> set xs. op_in env K (snd x) \<and> plain_scope env (snd x)"
    and run: "m = perm_run env xs (NewPermissionManager rules)"
    and sid: "sid \<noteq> []" "trim_space sid = sid"
    and dates: "\<forall>(i, p) \<in> set (pm_pending m). dated p"
    and export: "ExportSession now sid m = (state, m')"
  defines "Q \<equiv> \<lambda>ov. trim_space (pr_SessionID (ov_request ov)) = sid"
    and "P \<equiv> \<lambda>p. trim_space (pr_SessionID (pp_Request p)) = sid"
  shows "keys_distinct m'" and "m' = pruneExpiredLocked now m" and "keys_distinct m"
    and "(k, ov) \<in> set (pm_decisions m') \<Longrightarrow> k = permissionOverrideKey env (ov_request ov) (storedPermissionGrantScope env ov)"
    and "(i, p) \<in> set (pm_pending m') \<Longrightarrow> dated p \<and> pp_ID p = i \<and> i = pendingPermissionID env (key_of p) \<and> key_of p \<in> K"
    and "mset (ss_Overrides state) = mset (filter Q (map snd (pm_decisions m')))"
    and "mset (ss_Pending state) = mset (filter P (map snd (pm_pending m')))"
proof -
  show d: "keys_distinct m" using run perm_store.invar_run by (simp add: perm_run_def)
  show m': "m' = pruneExpiredLocked now m" using export sid by (auto simp: ExportSession_def Let_def)
  show d': "keys_distinct m'" using keys_distinct_prune [OF d] m' by simp
  have ix: "indexed env K m'" using indexed_run [OF inj _ indexed_new, of xs rules] ops run m' by (simp add: indexed_prune)
  have "self_keyed env (NewPermissionManager rules)" by (simp add: self_keyed_def NewPermissionManager_def)
  then have "self_keyed env m" using self_keyed_run [of xs env] ops run by simp
  then show "k = permissionOverrideKey env (ov_request ov) (storedPermissionGrantScope env ov)" if "(k, ov) \<in> set (pm_decisions m')"
    using that d' decision_at_prune [OF d, of now k]
    by (auto simp: self_keyed_def m' keys_distinct_def split: option.splits if_splits)
  show "dated p \<and> pp_ID p = i \<and> i = pendingPermissionID env (key_of p) \<and> key_of p \<in> K" if "(i, p) \<in> set (pm_pending m')"
  proof -
    have i: "map_of (pm_pending m') i = Some p" using that d' by (simp add: keys_distinct_def)
    then have "map_of (pm_pending m) i = Some p" by (auto simp: m' pending_at_prune [OF d] split: option.splits if_splits)
    then have "dated p" using dates by (auto dest: map_of_SomeD)
    with i ix show ?thesis by (auto simp: indexed_def dest: linkedD)
  qed
  show "mset (ss_Overrides state) = mset (filter Q (map snd (pm_decisions m')))"
    "mset (ss_Pending state) = mset (filter P (map snd (pm_pending m')))"
    using export sid by (auto simp: ExportSession_def Let_def Q_def P_def)
qed

text \<open>
  C34. Saving a session and restoring it into a new manager gives its state back: the new manager has
  exactly the decisions of the session that had not expired, under the same keys, with the uses
  they had left, and exactly its pending requests that had not expired, found by the same keys.
\<close>
theorem session_roundtrip:
  assumes inj: "inj_on (pendingPermissionID env) K"
    and ops: "\<forall>x \<in> set xs. op_in env K (snd x) \<and> plain_scope env (snd x)"
    and run: "m = perm_run env xs (NewPermissionManager rules)"
    and sid: "sid \<noteq> []" "trim_space sid = sid"
    and dates: "\<forall>(i, p) \<in> set (pm_pending m). dated p"
    and export: "ExportSession now sid m = (state, m')"
    and restore: "m2 = RestoreSession env now2 sid state (NewPermissionManager rules2)"
  shows "(\<forall>k. decision_at m2 k = (case decision_at m k of None \<Rightarrow> None
      | Some ov \<Rightarrow> if \<not> expired_at now (ov_expiresAt ov) \<and> trim_space (pr_SessionID (ov_request ov)) = sid then Some ov else None))
    \<and> (\<forall>i. map_of (pm_pending m2) i = (case map_of (pm_pending m) i of None \<Rightarrow> None
      | Some p \<Rightarrow> if \<not> pendingExpiredLocked now p \<and> trim_space (pr_SessionID (pp_Request p)) = sid then Some p else None))
    \<and> (\<forall>key i. map_of (pm_pendingKey m2) key = Some i \<longleftrightarrow>
      (\<exists>p. map_of (pm_pending m2) i = Some p \<and> permissionDecisionKey (pp_Request p) = key))"
proof -
  let ?Q = "\<lambda>ov. trim_space (pr_SessionID (ov_request ov)) = sid" and ?P = "\<lambda>p. trim_space (pr_SessionID (pp_Request p)) = sid"
  note ex = exported [OF inj ops run sid dates export]
  have dp: "distinct (map fst (pm_decisions m'))" "distinct (map fst (pm_pending m'))"
    using ex(1) by (auto simp: keys_distinct_def)
  have sO: "?Q ov" if "ov \<in> set (ss_Overrides state)" for ov using that mset_eq_setD [OF ex(6)] by auto
  have pend: "dated p \<and> pp_ID p = pendingPermissionID env (key_of p) \<and> ?P p" and inK: "key_of p \<in> K"
    if "p \<in> set (ss_Pending state)" for p
    using that mset_eq_setD [OF ex(7)] ex(5) by fastforce+
  let ?o = "ResetSession sid (NewPermissionManager rules2)"
  let ?n = "fold (restore_override env sid) (ss_Overrides state) ?o"
  have m2: "m2 = fold (restore_pending env now2 sid) (ss_Pending state) ?n"
    using restore sid by (simp add: RestoreSession_def)
  have new: "pm_decisions ?o = []" "pm_pending ?o = []"
    by (simp_all add: ResetSession_def NewPermissionManager_def Let_def)
  have "decision_at m2 k = (case decision_at m' k of None \<Rightarrow> None | Some v \<Rightarrow> if ?Q v then Some v else None)" for k
    using fold_restore_override [of "ss_Overrides state" sid env ?o] sO sid(1) ex(4)
      reload [OF dp(1) _ ex(6), of "\<lambda>item. (permissionOverrideKey env (ov_request item) (storedPermissionGrantScope env item), item)" k]
    by (auto simp: m2 new)
  moreover have "map_of (pm_pending m2) i = (case map_of (pm_pending m') i of None \<Rightarrow> None | Some v \<Rightarrow> if ?P v then Some v else None)" for i
    using fold_restore_pending [of "ss_Pending state" env sid now2 ?n, OF pend sid(1)] ex(5)
      reload [OF dp(2) _ ex(7), of "\<lambda>item. (pp_ID item, item)" i] by (simp add: m2 new)
  moreover have "indexed env K m2"
    unfolding restore
    by (rule indexed_step [where x = "(now2, OpRestoreSession sid state)" and m = "NewPermissionManager rules2", simplified])
      (use indexed_new inj pend inK sid in \<open>auto simp: Let_def\<close>)
  then have "map_of (pm_pendingKey m2) key = Some i \<longleftrightarrow> (\<exists>p. map_of (pm_pending m2) i = Some p \<and> key_of p = key)" for key i
    using linkedD(3,4) [of env m2] by (auto simp: indexed_def)
  ultimately show ?thesis
    by (simp add: ex(2) decision_at_prune [OF ex(3)] pending_at_prune [OF ex(3)] split: option.splits)
qed

section \<open>Which shell calls run\<close>

definition policy_mode :: "permission_policy \<Rightarrow> string" where
  "policy_mode policy = normalizeInteractiveApprovalMode (ia_Mode (po_InteractiveApproval policy))"

text \<open>A shell call that the policy wants reviewed: a high-risk line, or one with an unlisted command.\<close>

definition risky_call :: "permission_env \<Rightarrow> permission_policy \<Rightarrow> permission_request \<Rightarrow> bool" where
  "risky_call env policy req \<longleftrightarrow> tool_of req \<in> {''bash'', ''background''} \<and>
     ((\<exists>e. ClassifyShellCommandRisk (pr_Command req) = HighRisk e)
      \<or> ia_Enabled (po_InteractiveApproval policy) \<and> \<not> blank (pr_Command req)
        \<and> (\<exists>name names. DisallowedShellCommandsWithOptions (pe_shell env) (trim_space (pr_Command req))
              (no_options\<lparr>so_AllowedCommands := repairDiagnosticCommands (po_SecurityProfile policy)\<rparr>) = Inr (name # names)))"

lemma repair_normal [simp]: "repairDiagnosticCommands (normalizeSecurityProfile p) = repairDiagnosticCommands p"
  by (simp add: repairDiagnosticCommands_def)

lemma automation_denies: "newAutomationMutationRule b req = Some r \<Longrightarrow> re_Decision r = PermissionDeny"
  by (auto simp: newAutomationMutationRule_def split: if_splits)

abbreviation guarded_answer :: "string \<Rightarrow> permission_result \<Rightarrow> bool" where
  "guarded_answer mode r \<equiv> re_Decision r = PermissionDeny
     \<or> re_Decision r = PermissionPending \<and> re_Scope r = pendingScopeForApprovalMode mode
     \<or> re_Decision r = PermissionAllow \<and> mode = ''yolo''"

lemma profile_rule_guarded:
  "NewSecurityProfileRuleWithApprovalMode env p mode req = Some r \<Longrightarrow> guarded_answer (normalizeInteractiveApprovalMode mode) r"
  by (auto simp: NewSecurityProfileRuleWithApprovalMode_def Let_def split: if_splits shell_risk.splits)

lemma profile_rule_handles:
  "ClassifyShellCommandRisk (pr_Command req) = HighRisk e \<Longrightarrow> tool_of req \<in> {''bash'', ''background''} \<Longrightarrow>
    NewSecurityProfileRuleWithApprovalMode env p mode req \<noteq> None"
  by (auto simp: NewSecurityProfileRuleWithApprovalMode_def Let_def)

lemma unlisted_rule_guarded:
  "newUnlistedShellCommandApprovalRule env p mode req = Some r \<Longrightarrow> guarded_answer (normalizeInteractiveApprovalMode mode) r"
  by (auto simp: newUnlistedShellCommandApprovalRule_def Let_def split: if_splits sum.splits)

lemma risky_rules:
  assumes "risky_call env policy req"
  shows "\<exists>r. first_handled (permissionRulesForPolicy env policy) req = Some r \<and> guarded_answer (policy_mode policy) r"
proof -
  let ?p = "normalizeSecurityProfile (po_SecurityProfile policy)" and ?mode = "policy_mode policy"
  let ?auto = "if po_BlockAutomationMutations policy then [newAutomationMutationRule True] else []"
  let ?s = "NewSecurityProfileRuleWithApprovalMode env ?p ?mode" and ?u = "newUnlistedShellCommandApprovalRule env ?p ?mode"
  obtain rest where rules: "permissionRulesForPolicy env policy =
      ?auto @ [?s] @ (if ia_Enabled (po_InteractiveApproval policy) then [?u] else []) @ rest"
    by (simp add: permissionRulesForPolicy_def Let_def normalizePermissionPolicy_def normalizeInteractiveApprovalPolicy_def policy_mode_def)
  have mode [simp]: "normalizeInteractiveApprovalMode ?mode = ?mode" by (simp add: policy_mode_def)
  have u: "?u req \<noteq> None" if "?s req = None" "ia_Enabled (po_InteractiveApproval policy)"
    using assms that profile_rule_handles [of req _ env ?p ?mode]
    by (auto simp: risky_call_def newUnlistedShellCommandApprovalRule_def Let_def)
  have en: "ia_Enabled (po_InteractiveApproval policy)" if "?s req = None"
    using assms that profile_rule_handles [of req _ env ?p ?mode] by (auto simp: risky_call_def)
  show ?thesis
    using u en automation_denies [of True req] profile_rule_guarded [of env ?p ?mode req]
      unlisted_rule_guarded [of env ?p ?mode req]
    by (cases "?s req"; cases "newAutomationMutationRule True req"; cases "?u req")
      (simp_all add: rules first_handled_append)
qed

lemma fallback_pending:
  "re_Decision (fst (review_fallback env now req r reason m)) = PermissionPending"
  by (simp add: review_fallback_def RequestApproval_def Let_def case_prod_beta)

lemma reviewed_allow:
  assumes "resolveReviewedPermission env now reviewer req r m = (z, m2)" and "re_Decision z = PermissionAllow"
  shows "\<exists>review. reviewer = Some review \<and> review req = Inr z"
  using assms fallback_pending [of env now req r _ m]
  by (auto simp: resolveReviewedPermission_def split: option.splits sum.splits if_splits)
    (metis fst_conv permission_decision.distinct(17))+

text \<open>
  C29. No risky shell call runs unseen. Under the rules of any policy, when the interceptor lets through
  a shell call whose line is high-risk or uses a command outside the allowlist, then an earlier
  decision for this request is live, or the mode is \<open>yolo\<close>, or the mode is \<open>review\<close> and the reviewer
  allowed exactly this request.
\<close>
theorem risky_calls_gated:
  assumes run: "m = perm_run env xs (NewPermissionManager rules)" "pm_rules m = permissionRulesForPolicy env policy"
    and req: "req = PermissionRequestFromCall call" "risky_call env policy req"
    and proceeds: "fst (NewPermissionInterceptorWithReview env now reviewer call m) = Proceed"
  shows "(\<exists>k ov. deciding_key now req m = Some k \<and> decision_at m k = Some ov \<and> re_Decision (ov_result ov) \<noteq> PermissionDeny)
    \<or> policy_mode policy = ''yolo''
    \<or> policy_mode policy = ''review'' \<and> (\<exists>review r. reviewer = Some review \<and> review req = Inr r \<and> re_Decision r = PermissionAllow)"
proof -
  have d: "keys_distinct m" using run(1) perm_store.invar_run by (simp add: perm_run_def)
  obtain r m1 where e: "Evaluate env now req m = (r, m1)" by fastforce
  have go: "re_Decision r \<noteq> PermissionDeny \<and> (re_Decision r = PermissionPending \<longrightarrow> trim_space (re_Scope r) = ''review''
      \<and> re_Decision (fst (resolveReviewedPermission env now reviewer req r m1)) = PermissionAllow)"
    using proceeds e req(1)
    by (auto simp: NewPermissionInterceptorWithReview_def Let_def split: permission_decision.splits prod.splits if_splits)
  show ?thesis
  proof (cases "deciding_key now req m")
    case (Some k)
    with Evaluate_override [OF d Some, of env] e go show ?thesis by (metis Pair_inject)
  next
    case None
    obtain r0 where r0: "first_handled (pm_rules m) req = Some r0" "guarded_answer (policy_mode policy) r0"
      using risky_rules [OF req(2)] run(2) by auto
    note undecided = Evaluate_undecided [OF d None]
    have "trim_space ''approval'' = ''approval''" by code_simp
    then have same: "r = r0"
      using e go by (rule_tac Evaluate_cases [of now req m env])
        (use undecided r0 in \<open>auto split: if_splits\<close>)
    show ?thesis
    proof (cases "re_Decision r0")
      case PermissionPending
      with go same obtain z m2 where z: "resolveReviewedPermission env now reviewer req r0 m1 = (z, m2)"
        "re_Decision z = PermissionAllow" by (metis fst_conv surj_pair)
      have "policy_mode policy = ''review''"
        using PermissionPending go same r0(2) \<open>trim_space ''approval'' = ''approval''\<close>
        by (auto simp: pendingScopeForApprovalMode_def policy_mode_def split: if_splits)
      with reviewed_allow [OF z] z(2) show ?thesis by blast
    qed (use r0(2) go same in auto)
  qed
qed

end
