(* ===== verification/Permission_Examples.thy ===== *)
theory Permission_Examples
  imports Permission_Correct Shell_Correct
begin

text \<open>
  The theorems on the permission manager at concrete requests, and the requests that it treats
  differently from what its comments and names suggest.
\<close>

definition plain_permissions :: permission_env where
  "plain_permissions = \<lparr>pe_sha1 = (\<lambda>key. map (\<lambda>c. of_nat (of_char c)) (rev key)),
     pe_ParseDuration = (\<lambda>s. if s = ''1h'' then Some 3600000000000 else None),
     pe_error = (\<lambda>e. ''high risk''), pe_shell = plain_shell\<rparr>"

definition web_request :: "string \<Rightarrow> string list \<Rightarrow> string \<Rightarrow> permission_request" where
  "web_request tool paths command = no_request\<lparr>pr_SessionID := ''s1'', pr_TurnID := ''t1'', pr_Source := ''web'', pr_ToolName := tool,
     pr_Action := inferPermissionAction tool [], pr_Paths := paths, pr_Command := command,
     pr_Mutation := inferPermissionMutation tool []\<rparr>"

definition edit_request :: permission_request where
  "edit_request = web_request ''edit_file'' [''a.txt''] []"

abbreviation edit_id :: string where
  "edit_id \<equiv> pendingPermissionID plain_permissions (permissionDecisionKey edit_request)"

definition approved_run :: "(int \<times> permission_op) list" where
  "approved_run = [(1, OpRequestApproval edit_request []), (2, OpApprovePending ''s1'' edit_id ''count:2'')]"

abbreviation approved :: permission_manager where
  "approved \<equiv> perm_run plain_permissions approved_run (NewPermissionManager [])"

abbreviation edit_key :: string where
  "edit_key \<equiv> permissionDecisionKey edit_request"

definition edit_grant :: permission_override where
  "edit_grant = new_override plain_permissions 2 edit_request (result_of PermissionAllow [] ''count:2'') ''count:2''"

lemma approved_entry: "decision_at approved edit_key = Some edit_grant"
  by code_simp

lemma allow_is_granted_witness:
  "re_Decision (fst (Evaluate plain_permissions 3 edit_request approved)) = PermissionAllow
    \<and> (\<exists>xs1 x xs2 k ov. approved_run = xs1 @ x # xs2
        \<and> (k, ov) \<in> set (writes plain_permissions (perm_run plain_permissions xs1 (NewPermissionManager [])) x)
        \<and> k \<in> set (permissionDecisionKeys edit_request)
        \<and> re_Decision (ov_result ov) = PermissionAllow \<and> \<not> expired_at 3 (ov_expiresAt ov))"
proof -
  have allowed: "re_Decision (fst (Evaluate plain_permissions 3 edit_request approved)) = PermissionAllow" by code_simp
  have "first_handled (pm_rules approved) edit_request = None" by code_simp
  with allow_is_granted [OF refl allowed] allowed show ?thesis by simp
qed

abbreviation three_edits :: "(int \<times> permission_op) list" where
  "three_edits \<equiv> [(3, OpEvaluate edit_request), (4, OpEvaluate edit_request), (5, OpEvaluate edit_request)]"

lemma grant_uses_bounded_witness:
  "times_on (perm_step plain_permissions) (\<lambda>m x. spends m x edit_key) approved three_edits = 2
    \<and> int (times_on (perm_step plain_permissions) (\<lambda>m x. spends m x edit_key) approved three_edits) \<le> ov_remaining edit_grant"
proof -
  have "on_run (perm_step plain_permissions) (\<lambda>m x. edit_key \<notin> fst ` set (writes plain_permissions m x)) approved three_edits"
    by code_simp
  moreover have "1 \<le> ov_remaining edit_grant" by code_simp
  moreover have "times_on (perm_step plain_permissions) (\<lambda>m x. spends m x edit_key) approved three_edits = 2" by code_simp
  ultimately show ?thesis using grant_uses_bounded [OF refl approved_entry] by blast
qed

definition edit_policy :: permission_policy where
  "edit_policy = \<lparr>po_BlockAutomationMutations = True,
     po_InteractiveApproval = \<lparr>ia_Mode = [], ia_Enabled = True, ia_Sources = [''web''], ia_Tools = [''edit_file''],
       ia_TrustedPathPrefixes = [''docs''], ia_TrustedCommandPrefixes = [], ia_PendingTTLSeconds = 0\<rparr>,
     po_SecurityProfile = []\<rparr>"

definition edit_run :: "(int \<times> permission_op) list" where
  "edit_run = [(1, OpApplyPolicy edit_policy)]"

abbreviation guarded :: permission_manager where
  "guarded \<equiv> perm_run plain_permissions edit_run (NewPermissionManager [])"

abbreviation asked :: "permission_result \<times> permission_manager" where
  "asked \<equiv> Evaluate plain_permissions 2 edit_request guarded"

abbreviation answered :: "(go_error + permission_resolution) \<times> permission_manager" where
  "answered \<equiv> ApprovePending plain_permissions 3 ''s1'' (re_RequestID (fst asked)) ''timebox:1h'' (snd asked)"

lemma approval_takes_effect_witness:
  "re_Decision (fst asked) = PermissionPending
    \<and> re_Decision (fst (Evaluate plain_permissions 4 edit_request (snd answered))) = PermissionAllow"
proof -
  have p: "re_Decision (fst asked) = PermissionPending" "trim_space (re_Scope (fst asked)) \<noteq> ''review''"
    "deciding_key 2 edit_request guarded = None"
    "map_of (pm_pendingKey (pruneExpiredLocked 2 guarded)) (permissionDecisionKey edit_request) = None"
    "sameSession (pr_SessionID edit_request) ''s1''" "pr_SessionID edit_request \<noteq> []"
    "parsePermissionGrantScope plain_permissions ''timebox:1h'' = Inr (GrantTimebox 3600000000000)"
    "3 < 2 + pm_pendingTTL guarded"
    by code_simp+
  have t: "\<forall>d. GrantTimebox 3600000000000 = GrantTimebox d \<longrightarrow> 4 < 3 + d" by simp
  show ?thesis
    using approval_takes_effect [where m = guarded and r = "fst asked" and ?m1.0 = "snd asked" and res = "fst answered"
        and ?m2.0 = "snd answered", OF refl _ p(1-6) _ p(7,8) t _] p(1)
    by simp
qed

definition waiting_run :: "(int \<times> permission_op) list" where
  "waiting_run = edit_run @ [(2, OpEvaluate edit_request), (3, OpAllowSession (web_request ''browser'' [] []))]"

abbreviation waiting :: permission_manager where
  "waiting \<equiv> perm_run plain_permissions waiting_run (NewPermissionManager [])"

lemma waiting_ops: "\<forall>x \<in> set waiting_run. op_in plain_permissions {edit_key} (snd x) \<and> plain_scope plain_permissions (snd x)"
  by (simp add: waiting_run_def edit_run_def)

lemma pending_requests_indexed_witness:
  "map_of (pm_pending waiting) edit_id \<noteq> None \<and> map_of (pm_pendingKey waiting) edit_key = Some edit_id"
proof -
  have "map_of (pm_pending waiting) edit_id \<noteq> None" by code_simp
  then obtain p where p: "map_of (pm_pending waiting) edit_id = Some p" by blast
  have "pp_Request (the (map_of (pm_pending waiting) edit_id)) = edit_request" by code_simp
  with p have "pp_Request p = edit_request" by simp
  moreover have "inj_on (pendingPermissionID plain_permissions) {edit_key}" by simp
  ultimately show ?thesis
    using pending_requests_indexed [OF _ _ refl, of plain_permissions "{edit_key}" waiting_run "[]"] waiting_ops p by (metis option.distinct(1))
qed

lemma session_roundtrip_witness:
  "decision_at (RestoreSession plain_permissions 9 ''s1'' (fst (ExportSession 5 ''s1'' waiting)) (NewPermissionManager [])) =
      decision_at waiting
    \<and> map_of (pm_pending (RestoreSession plain_permissions 9 ''s1'' (fst (ExportSession 5 ''s1'' waiting)) (NewPermissionManager []))) =
      map_of (pm_pending waiting)
    \<and> length (pm_decisions waiting) = 1 \<and> length (pm_pending waiting) = 1"
proof -
  have t: "''s1'' \<noteq> []" "trim_space ''s1'' = ''s1''" by code_simp+
  have dates: "\<forall>(i, p) \<in> set (pm_pending waiting). dated p" by code_simp
  have inj: "inj_on (pendingPermissionID plain_permissions) {edit_key}" by simp
  have one: "list_all (\<lambda>(k, ov). \<not> expired_at 5 (ov_expiresAt ov) \<and> trim_space (pr_SessionID (ov_request ov)) = ''s1'') (pm_decisions waiting)"
    "list_all (\<lambda>(i, p). \<not> pendingExpiredLocked 5 p \<and> trim_space (pr_SessionID (pp_Request p)) = ''s1'') (pm_pending waiting)"
    "length (pm_decisions waiting) = 1" "length (pm_pending waiting) = 1"
    by code_simp+
  from session_roundtrip [OF inj waiting_ops refl t dates prod.collapse [symmetric, of "ExportSession 5 ''s1'' waiting"] refl, of 9 "[]"] one
  show ?thesis by (auto simp: fun_eq_iff list_all_iff split: option.splits dest!: map_of_SomeD)
qed

definition shell_call :: "string \<Rightarrow> tool_call" where
  "shell_call command = \<lparr>tc_Name = ''bash'', tc_NormalizedInput = [(''command'', JStr command)], tc_SessionID = ''s1'', tc_TurnID = ''t1'',
     tc_Source = ''web'', tc_Sender = ''user''\<rparr>"

definition review_policy :: permission_policy where
  "review_policy = edit_policy\<lparr>po_InteractiveApproval := (po_InteractiveApproval edit_policy)\<lparr>ia_Mode := ''review''\<rparr>\<rparr>"

definition review_run :: "(int \<times> permission_op) list" where
  "review_run = [(1, OpApplyPolicy review_policy)]"

abbreviation reviewing :: permission_manager where
  "reviewing \<equiv> perm_run plain_permissions review_run (NewPermissionManager [])"

abbreviation agree :: permission_reviewer where
  "agree \<equiv> \<lambda>req. Inr (result_of PermissionAllow ''fine'' [])"

lemma risky_calls_gated_witness:
  "fst (NewPermissionInterceptorWithReview plain_permissions 2 (Some agree) (shell_call ''nmap host'') reviewing) = Proceed
    \<and> policy_mode review_policy = ''review''"
proof -
  let ?req = "PermissionRequestFromCall (shell_call ''nmap host'')"
  have go: "fst (NewPermissionInterceptorWithReview plain_permissions 2 (Some agree) (shell_call ''nmap host'') reviewing) = Proceed"
    "deciding_key 2 ?req reviewing = None" "policy_mode review_policy \<noteq> ''yolo''" "tool_of ?req = ''bash''"
    "DisallowedShellCommandsWithOptions (pe_shell plain_permissions) (trim_space (pr_Command ?req))
      (no_options\<lparr>so_AllowedCommands := repairDiagnosticCommands (po_SecurityProfile review_policy)\<rparr>) = Inr [''nmap'']"
    "ia_Enabled (po_InteractiveApproval review_policy)" "\<not> blank (pr_Command ?req)"
    by code_simp+
  have "normalizePermissionPolicy (normalizePermissionPolicy review_policy) = normalizePermissionPolicy review_policy" by code_simp
  then have "pm_rules reviewing = permissionRulesForPolicy plain_permissions review_policy"
    by (simp add: perm_run_def review_run_def ApplyPolicy_def manager_defs Let_def permissionRulesForPolicy_def)
  moreover have "risky_call plain_permissions review_policy ?req" using go by (simp add: risky_call_def)
  ultimately show ?thesis
    using risky_calls_gated [OF refl _ refl _ go(1), of review_policy] go by auto
qed

section \<open>Gaps\<close>

text \<open>A value in normal form stays in a normalized list.\<close>

lemma normal_stays:
  "x \<in> set xs \<Longrightarrow> to_lower (trim_space x) = x \<Longrightarrow> x \<noteq> [] \<Longrightarrow> x \<in> set (normalizeStringList xs)"
  "x \<in> set xs \<Longrightarrow> to_lower (trim_space x) = x \<Longrightarrow> x \<noteq> [] \<Longrightarrow> x \<in> set (name_set xs)"
  "x \<in> set xs \<Longrightarrow> trim_space x = x \<Longrightarrow> x \<noteq> [] \<Longrightarrow> x \<in> set (normalizeCommandPrefixes xs)"
  by (force simp: normalizeStringList_def normalizeCommandPrefixes_def name_set_def normalize_list_set image_iff)+

definition chained :: permission_request where
  "chained = web_request ''bash'' [] ''git status && rm -r src''"

lemma chained_facts:
  "to_lower (trim_space (pr_Source chained)) = ''web''" "tool_of chained = ''bash''" "requiresInteractiveApproval chained"
  "pr_ToolName chained = ''bash''" "pr_Paths chained = []" "trim_space (pr_Command chained) = ''git status && rm -r src''"
  "has_prefix ''git status && rm -r src'' ''git status''"
  by code_simp+

lemma chained_trusted:
  assumes "''web'' \<in> set (ia_Sources ia)" and "''bash'' \<in> set (ia_Tools ia)" and "''git status'' \<in> set (ia_TrustedCommandPrefixes ia)"
    and "ia_Enabled ia"
  shows "\<exists>rule r. newInteractiveApprovalRule (normalizeInteractiveApprovalPolicy (normalizeInteractiveApprovalPolicy ia)) = Some rule
    \<and> rule chained = Some r \<and> re_Decision r = PermissionAllow"
proof -
  have f: "to_lower (trim_space ''web'') = ''web''" "to_lower (trim_space ''bash'') = ''bash''" "trim_space ''git status'' = ''git status''"
    by code_simp+
  let ?i = "\<lambda>f. f (f (f (ia :: interactive_approval_policy)))"
  let ?n = "?i normalizeInteractiveApprovalPolicy"
  have "''web'' \<in> set (name_set (ia_Sources ?n))" "''bash'' \<in> set (name_set (ia_Tools ?n))"
    "''git status'' \<in> set (ia_TrustedCommandPrefixes ?n)"
    using assms f by (auto simp: normalizeInteractiveApprovalPolicy_def intro!: normal_stays)
  moreover from this(3) have "list_ex (has_prefix ''git status && rm -r src'') (ia_TrustedCommandPrefixes ?n)"
    "ia_TrustedCommandPrefixes ?n \<noteq> []"
    using chained_facts(7) by (auto simp: list_ex_iff)
  moreover have "ia_Enabled ?n" using assms(4) by (simp add: normalizeInteractiveApprovalPolicy_def)
  ultimately show ?thesis
    by (simp add: newInteractiveApprovalRule_def Let_def f chained_facts matchesTrustedInteractiveApproval_def commandMatchesTrustedPrefix_def)
qed

lemma rule_of_empty:
  assumes "pm_decisions m = []" "pm_pending m = []" "pm_pendingKey m = []"
    and "first_handled (pm_rules m) req = Some r" and "re_Decision r = PermissionAllow"
  shows "re_Decision (fst (Evaluate env now req m)) = PermissionAllow"
proof -
  have p: "pruneExpiredLocked now m = m" using assms by (simp add: pruneExpiredLocked_def)
  have "consume_first now ks m = (None, m)" for ks
    using assms(1) by (induction ks) (simp_all add: consume_none)
  with p assms show ?thesis by (simp add: Evaluate_def Let_def)
qed

lemma chained_other_rules:
  "newAutomationMutationRule True chained = None"
  "NewSecurityProfileRuleWithApprovalMode plain_permissions ''guarded-local'' ''manual'' chained = None"
  "newUnlistedShellCommandApprovalRule plain_permissions ''guarded-local'' ''manual'' chained = None"
  by code_simp+

lemma chained_allowed: "re_Decision (fst (Evaluate plain_permissions 1 chained (NewDefaultPermissionManager plain_permissions))) = PermissionAllow"
proof -
  let ?ia = "po_InteractiveApproval DefaultPermissionPolicy"
  have "''web'' \<in> set (ia_Sources ?ia)" "''bash'' \<in> set (ia_Tools ?ia)" "''git status'' \<in> set (ia_TrustedCommandPrefixes ?ia)" "ia_Enabled ?ia"
    by code_simp+
  from chained_trusted [OF this] obtain rule r where
    rule: "newInteractiveApprovalRule (normalizeInteractiveApprovalPolicy (normalizeInteractiveApprovalPolicy ?ia)) = Some rule"
      "rule chained = Some r" "re_Decision r = PermissionAllow" by blast
  have n: "normalizeSecurityProfile (normalizeSecurityProfile (po_SecurityProfile DefaultPermissionPolicy)) = ''guarded-local''"
    "normalizeInteractiveApprovalMode (normalizeInteractiveApprovalMode (ia_Mode ?ia)) = ''manual''" "ia_Enabled ?ia"
    "po_BlockAutomationMutations DefaultPermissionPolicy"
    by code_simp+
  have "first_handled (pm_rules (NewDefaultPermissionManager plain_permissions)) chained = Some r"
    using n rule chained_other_rules
    by (simp add: NewDefaultPermissionManager_def NewPermissionManagerForPolicy_def ApplyPolicy_def manager_defs Let_def
        permissionRulesForPolicy_def normalizePermissionPolicy_def)
      (simp add: normalizeInteractiveApprovalPolicy_def)
  moreover have "pm_decisions (NewDefaultPermissionManager plain_permissions) = []" "pm_pending (NewDefaultPermissionManager plain_permissions) = []"
    "pm_pendingKey (NewDefaultPermissionManager plain_permissions) = []"
    by (simp_all add: NewDefaultPermissionManager_def NewPermissionManagerForPolicy_def ApplyPolicy_def manager_defs Let_def NewPermissionManager_def)
  ultimately show ?thesis using rule(3) rule_of_empty by metis
qed

definition unnamed_edit :: permission_request where
  "unnamed_edit = edit_request\<lparr>pr_SessionID := []\<rparr>"

abbreviation unnamed_asked :: "permission_result \<times> permission_manager" where
  "unnamed_asked \<equiv> Evaluate plain_permissions 2 unnamed_edit guarded"

abbreviation unnamed_approved :: "(go_error + permission_resolution) \<times> permission_manager" where
  "unnamed_approved \<equiv> ApprovePending plain_permissions 3 [] (re_RequestID (fst unnamed_asked)) ''session'' (snd unnamed_asked)"

lemma unnamed_session:
  "\<not> isl (fst unnamed_approved)" "re_Decision (fst (Evaluate plain_permissions 4 unnamed_edit (snd unnamed_approved))) = PermissionPending"
  by code_simp+

lemma pattern_admits_chain:
  "re_Decision (fst (Evaluate plain_permissions 2 chained
     (AllowPattern plain_permissions 1 (web_request ''bash'' [] ''git status'') [] (NewPermissionManager [])))) = PermissionAllow"
  by code_simp

lemma reset_clears_other:
  "pm_decisions (ResetSession ''s1'' (AllowSession plain_permissions 1 (edit_request\<lparr>pr_SessionID := ''s1|x''\<rparr>) (NewPermissionManager []))) = []"
  by code_simp

lemma joined_keys_collide:
  "permissionDecisionKey (web_request ''bash'' [''git log''] ''sh'') = permissionDecisionKey (web_request ''bash'' [] ''git log|sh'')"
  by code_simp

lemma count_wraps: "parsePermissionGrantScope plain_permissions ''count:18446744073709551617'' = Inr (GrantCount 1)"
  by code_simp

definition click :: permission_request where
  "click = (web_request ''browser'' [] [])\<lparr>pr_Action := ''click''\<rparr>"

lemma padded_scope_widens:
  "permissionOverrideKey plain_permissions click '' session'' = permissionDecisionKey click"
  "permissionOverrideKey plain_permissions click (storedPermissionGrantScope plain_permissions
     (new_override plain_permissions 1 click (result_of PermissionAllow [] '' session'') '' session'')) = permissionSessionToolKey click"
  "permissionDecisionKey click \<noteq> permissionSessionToolKey click"
  by code_simp+

text \<open>
  Seven places where the manager does more or less than it says. The default policy lets
  \<open>git status && rm -r src\<close> from a remote source run without approval, since only the beginning of
  the line is compared with the trusted prefixes; an approval of the pattern \<open>git status\<close> admits the
  same line. Approving a request without a session reports success and records nothing, so the
  request is pending again. Resetting the session \<open>s1\<close> also clears the decisions of \<open>s1|x\<close>. A path
  and a command have the same key as one command with \<open>|\<close> between them. A count of
  18446744073709551617 uses grants one. The scope \<open>session\<close> with a leading blank is stored under
  the exact request, and after a restore under the whole tool and action.
\<close>
theorem permission_gaps:
  "re_Decision (fst (Evaluate plain_permissions 1 chained (NewDefaultPermissionManager plain_permissions))) = PermissionAllow
    \<and> re_Decision (fst (Evaluate plain_permissions 2 chained
        (AllowPattern plain_permissions 1 (web_request ''bash'' [] ''git status'') [] (NewPermissionManager [])))) = PermissionAllow
    \<and> \<not> isl (fst unnamed_approved) \<and> re_Decision (fst (Evaluate plain_permissions 4 unnamed_edit (snd unnamed_approved))) = PermissionPending
    \<and> pm_decisions (ResetSession ''s1'' (AllowSession plain_permissions 1 (edit_request\<lparr>pr_SessionID := ''s1|x''\<rparr>) (NewPermissionManager []))) = []
    \<and> permissionDecisionKey (web_request ''bash'' [''git log''] ''sh'') = permissionDecisionKey (web_request ''bash'' [] ''git log|sh'')
    \<and> parsePermissionGrantScope plain_permissions ''count:18446744073709551617'' = Inr (GrantCount 1)
    \<and> permissionOverrideKey plain_permissions click '' session'' = permissionDecisionKey click
    \<and> permissionOverrideKey plain_permissions click (storedPermissionGrantScope plain_permissions
        (new_override plain_permissions 1 click (result_of PermissionAllow [] '' session'') '' session'')) = permissionSessionToolKey click"
  by (intro conjI chained_allowed pattern_admits_chain unnamed_session reset_clears_other joined_keys_collide count_wraps
      padded_scope_widens(1,2))

end
