(* ===== verification/Workspace_Fs.thy ===== *)
theory Workspace_Fs
  imports Shell_Correct
begin

text \<open>
  The file boundary of a workspace (\<open>internal/platform/workspacefs\<close>): how a name becomes a path
  below the workspace directory, and the local back end with its reading and changing operations.

  The calls into the operating system are the fields of \<open>os_ops\<close>, on a disk of any type: the
  operations of \<open>os.Root\<close> take a path relative to the workspace directory, \<open>os.ReadFile\<close> and
  \<open>filepath.EvalSymlinks\<close> an absolute one. \<open>oo_OpenFile\<close> opens a file to write,
  created or truncated; \<open>oo_Write\<close> writes its content and closes it, with the first error. The root of the workspace is open.
\<close>

record 'd os_ops =
  oo_ReadFile :: "string \<Rightarrow> 'd \<Rightarrow> go_error + string"
  oo_OpenFile :: "string \<Rightarrow> 'd \<Rightarrow> go_error option \<times> 'd"
  oo_Write :: "string \<Rightarrow> string \<Rightarrow> 'd \<Rightarrow> go_error option \<times> 'd"
  oo_MkdirAll :: "string \<Rightarrow> 'd \<Rightarrow> go_error option \<times> 'd"
  oo_RemoveAll :: "string \<Rightarrow> 'd \<Rightarrow> go_error option \<times> 'd"
  oo_Rename :: "string \<Rightarrow> string \<Rightarrow> 'd \<Rightarrow> go_error option \<times> 'd"
  oo_ReadExternal :: "string \<Rightarrow> 'd \<Rightarrow> go_error + string"
  oo_EvalSymlinks :: "string \<Rightarrow> 'd \<Rightarrow> string option"
  oo_error :: "go_error \<Rightarrow> string"

record os_fs =
  of_dir :: string
  of_allowlist :: "string list"

section \<open>Names\<close>

definition isInAllowlist :: "string \<Rightarrow> string list \<Rightarrow> bool" where
  "isInAllowlist absPath allowlist \<longleftrightarrow> list_ex (\<lambda>p. absPath = p \<or> has_prefix absPath (p @ ''/'')) allowlist"

text \<open>
  One entry of an allowlist. The message of a failure prints the empty path, since the failing
  call has already overwritten the variable.
\<close>

definition allow_entry :: "shell_env \<Rightarrow> string \<Rightarrow> string list \<Rightarrow> string \<Rightarrow> go_error + string list" where
  "allow_entry env msg allow a0 =
    (let a = trim_space a0 in
     if a = [] then Inr allow
     else case abs_path env a of
       Inl e \<Rightarrow> Inl (Wrapf msg [[]] e)
     | Inr p \<Rightarrow> Inr (allow @ [Clean p]))"

definition mergeAllowlists :: "shell_env \<Rightarrow> string list \<Rightarrow> string list \<Rightarrow> go_error + string list" where
  "mergeAllowlists env defaults perCall =
    (case each_st (allow_entry env ''workspacefs: default allowlist path %q: %w'') [] defaults of
       Inl e \<Rightarrow> Inl e
     | Inr allow \<Rightarrow> each_st (allow_entry env ''workspacefs: resolve allowlist path %q: %w'') allow perCall)"

definition newOSFS :: "shell_env \<Rightarrow> (string \<Rightarrow> go_error option) \<Rightarrow> string list \<Rightarrow> string \<Rightarrow> string list \<Rightarrow> go_error + os_fs" where
  "newOSFS env openRoot defaults workspace0 allowlist =
    (let workspace = trim_space workspace0 in
     if workspace = [] then Inl (Errorf ''missing workspace'' [])
     else case abs_path env workspace of
       Inl e \<Rightarrow> Inl e
     | Inr dir \<Rightarrow>
         (case openRoot dir of
            Some e \<Rightarrow> Inl (Wrapf ''open workspace root %s: %w'' [dir] e)
          | None \<Rightarrow> map_sum id (\<lambda>allow. \<lparr>of_dir = Clean dir, of_allowlist = allow\<rparr>) (mergeAllowlists env defaults allowlist)))"

definition trimDuplicatedWorkspaceBase :: "string \<Rightarrow> string \<Rightarrow> string" where
  "trimDuplicatedWorkspaceBase dir rel =
    (let base = Base dir in
     if base \<in> set [''.'', ''/'', []] then rel
     else if rel = base then ''.''
     else trim_prefix rel (base @ ''/''))"

definition inside :: "string \<Rightarrow> string \<Rightarrow> bool" where
  "inside wsroot target =
    (let rel = Rel (Clean wsroot) (Clean target) in rel \<noteq> ''..'' \<and> \<not> has_prefix rel ''../'' \<and> \<not> IsAbs rel)"

abbreviation escapes :: "string \<Rightarrow> go_error" where
  "escapes name \<equiv> Errorf ''path escapes workspace (outside workspace): %s'' [name]"

text \<open>A resolved name: a path below the workspace, or an allowlisted path outside it (\<open>errAllowedExternal\<close>).\<close>

datatype resolved = Inside string | External string

definition named_path :: "os_fs \<Rightarrow> string \<Rightarrow> string" where
  "named_path f name = Clean (if IsAbs name then name else Join2 (of_dir f) name)"

definition resolve :: "os_fs \<Rightarrow> string \<Rightarrow> go_error + resolved" where
  "resolve f name0 =
    (let name = trim_space name0 in
     if name = [] then Inl (Errorf ''missing path'' [])
     else let path = named_path f name in
       if isInAllowlist path (of_allowlist f) then Inr (External path)
       else let rel = trimDuplicatedWorkspaceBase (of_dir f) (if IsAbs name then Rel (of_dir f) path else Clean name) in
         if rel = ''.'' then Inr (Inside rel)
         else if rel = ''..'' \<or> has_prefix rel ''../'' \<or> IsAbs rel then Inl (escapes name)
         else Inr (Inside rel))"

section \<open>The local back end\<close>

definition wrapEscape :: "'d os_ops \<Rightarrow> string \<Rightarrow> go_error \<Rightarrow> go_error" where
  "wrapEscape os name e =
    (let txt = to_lower (oo_error os e) in
     if contains txt ''escape'' \<or> contains txt ''outside'' \<or> contains txt ''invalid argument'' then escapes name else e)"

definition ReadFile :: "'d os_ops \<Rightarrow> os_fs \<Rightarrow> string \<Rightarrow> 'd \<Rightarrow> go_error + string" where
  "ReadFile os f name d =
    (case resolve f name of
       Inl e \<Rightarrow> Inl e
     | Inr (External path) \<Rightarrow> oo_ReadExternal os path d
     | Inr (Inside rel) \<Rightarrow> map_sum (wrapEscape os name) id (oo_ReadFile os rel d))"

text \<open>The changing operations refuse an allowlisted path: they return the sentinel error.\<close>

definition allowed_external :: go_error where
  "allowed_external = Errorf ''path is allowed external'' []"

definition changed_path :: "os_fs \<Rightarrow> string \<Rightarrow> go_error + string" where
  "changed_path f name =
    (case resolve f name of Inl e \<Rightarrow> Inl e | Inr (External path) \<Rightarrow> Inl allowed_external | Inr (Inside rel) \<Rightarrow> Inr rel)"

definition WriteFile :: "'d os_ops \<Rightarrow> os_fs \<Rightarrow> string \<Rightarrow> string \<Rightarrow> 'd \<Rightarrow> go_error option \<times> 'd" where
  "WriteFile os f name data d =
    (case changed_path f name of
       Inl e \<Rightarrow> (Some e, d)
     | Inr rel \<Rightarrow>
         (case (if Dir rel \<noteq> ''.'' then oo_MkdirAll os (Dir rel) d else (None, d)) of
            (Some e, d1) \<Rightarrow> (Some (wrapEscape os name e), d1)
          | (None, d1) \<Rightarrow>
              (case oo_OpenFile os rel d1 of
                 (Some e, d2) \<Rightarrow> (Some (wrapEscape os name e), d2)
               | (None, d2) \<Rightarrow> oo_Write os rel data d2)))"

definition RemoveAll :: "'d os_ops \<Rightarrow> os_fs \<Rightarrow> string \<Rightarrow> 'd \<Rightarrow> go_error option \<times> 'd" where
  "RemoveAll os f name d = (case changed_path f name of Inl e \<Rightarrow> (Some e, d) | Inr rel \<Rightarrow> oo_RemoveAll os rel d)"

definition MkdirAll :: "'d os_ops \<Rightarrow> os_fs \<Rightarrow> string \<Rightarrow> 'd \<Rightarrow> go_error option \<times> 'd" where
  "MkdirAll os f name d = (case changed_path f name of Inl e \<Rightarrow> (Some e, d) | Inr rel \<Rightarrow> oo_MkdirAll os rel d)"

definition Rename :: "'d os_ops \<Rightarrow> os_fs \<Rightarrow> string \<Rightarrow> string \<Rightarrow> 'd \<Rightarrow> go_error option \<times> 'd" where
  "Rename os f oldname newname d =
    (case changed_path f oldname of
       Inl e \<Rightarrow> (Some e, d)
     | Inr relOld \<Rightarrow>
         (case changed_path f newname of Inl e \<Rightarrow> (Some e, d) | Inr relNew \<Rightarrow> oo_Rename os relOld relNew d))"

definition Abs :: "'d os_ops \<Rightarrow> os_fs \<Rightarrow> string \<Rightarrow> 'd \<Rightarrow> go_error + string" where
  "Abs os f name d =
    (case resolve f name of
       Inl e \<Rightarrow> Inl e
     | Inr (External path) \<Rightarrow> Inr path
     | Inr (Inside rel) \<Rightarrow>
         (let path = Join2 (of_dir f) rel in
          case oo_EvalSymlinks os path d of
            None \<Rightarrow> Inr path
          | Some target \<Rightarrow>
              (let top = (case oo_EvalSymlinks os (of_dir f) d of None \<Rightarrow> of_dir f | Some r \<Rightarrow> r) in
               if inside top target then Inr path else Inl (escapes name))))"

section \<open>Cleaned paths\<close>

definition proper :: "string \<Rightarrow> bool" where
  "proper x \<longleftrightarrow> x \<noteq> [] \<and> x \<noteq> ''.'' \<and> x \<noteq> ''..'' \<and> CHR ''/'' \<notin> set x"

lemma split_no_sep: "x \<in> set (split_char c s) \<Longrightarrow> c \<notin> set x"
  by (induction s arbitrary: x) (auto split: list.splits if_splits)

lemma split_append: "split_char c (a @ c # b) = split_char c a @ split_char c b"
  by (induction a) (auto split: list.splits)

lemma split_whole: "c \<notin> set a \<Longrightarrow> split_char c a = [a]"
  by (induction a) (auto split: list.splits)

lemma split_join: "xs \<noteq> [] \<Longrightarrow> \<forall>x \<in> set xs. c \<notin> set x \<Longrightarrow> split_char c (join [c] xs) = xs"
proof (induction xs)
  case (Cons x xs)
  then show ?case by (cases xs) (simp_all add: split_whole join_Cons split_append)
qed simp

lemma path_parts_join: "\<forall>x \<in> set xs. proper x \<Longrightarrow> path_parts (join ''/'' xs) = xs"
proof (cases "xs = []")
  case False
  assume *: "\<forall>x \<in> set xs. proper x"
  then have "filter (\<lambda>x. x \<noteq> []) xs = xs" by (simp add: filter_id_conv proper_def)
  with False * split_join [of xs "CHR ''/''"] show ?thesis by (simp add: path_parts_def proper_def)
qed (simp add: path_parts_def)

lemma path_parts_rooted: "path_parts (CHR ''/'' # s) = path_parts s"
  using split_append [of "CHR ''/''" "[]" s] by (simp add: path_parts_def)

text \<open>
  What cleaning does to the parts of a path: below a stack of proper parts it never leaves \<open>..\<close>
  when the path is rooted, and only at the beginning otherwise.
\<close>

definition ups :: "nat \<Rightarrow> string list" where
  "ups k = replicate k ''..''"

lemma clean_step_unrooted:
  assumes "\<forall>x \<in> set ns. proper x" and "CHR ''/'' \<notin> set part"
  shows "\<exists>k' ns'. clean_step False (ups k @ ns) part = ups k' @ ns' \<and> (\<forall>x \<in> set ns'. proper x)
    \<and> (\<forall>S. (\<forall>x \<in> set S. proper x) \<longrightarrow> clean_step True (take (length S - k) S @ ns) part = take (length S - k') S @ ns')"
proof -
  consider (skip) "part = [] \<or> part = ''.''" | (down) "proper part" | (pop) "part = ''..''" "ns \<noteq> []" | (up) "part = ''..''" "ns = []"
    using assms(2) by (auto simp: proper_def)
  then show ?thesis
  proof cases
    case skip
    then show ?thesis using assms(1) by (intro exI [of _ k] exI [of _ ns]) simp
  next
    case down
    then show ?thesis using assms(1) by (intro exI [of _ k] exI [of _ "ns @ [part]"]) (simp add: proper_def)
  next
    case pop
    then have "last ns \<noteq> ''..''" using assms(1) last_in_set by (fastforce simp: proper_def)
    with pop assms(1) show ?thesis
      by (intro exI [of _ k] exI [of _ "butlast ns"]) (auto simp: butlast_append dest: in_set_butlastD)
  next
    case up
    have "clean_step False (ups k @ ns) part = ups (Suc k) @ []"
      using up by (auto simp: ups_def replicate_append_same last_replicate)
    moreover have "clean_step True (take (length S - k) S @ ns) part = take (length S - Suc k) S @ []"
      if S: "\<forall>x \<in> set S. proper x" for S
    proof (cases "take (length S - k) S = []")
      case False
      then have "last (take (length S - k) S) \<in> set S" by (meson in_set_takeD last_in_set)
      with S False up show ?thesis by (auto simp: proper_def butlast_take)
    qed (use up in auto)
    ultimately show ?thesis by (intro exI [of _ "Suc k"] exI [of _ "[]"]) simp
  qed
qed

lemma clean_parts_unrooted:
  assumes "\<forall>p \<in> set parts. CHR ''/'' \<notin> set p"
  shows "\<exists>k ns. foldl (clean_step False) [] parts = ups k @ ns \<and> (\<forall>x \<in> set ns. proper x)
    \<and> (\<forall>S. (\<forall>x \<in> set S. proper x) \<longrightarrow> foldl (clean_step True) S parts = take (length S - k) S @ ns)"
  using assms
proof (induction parts rule: rev_induct)
  case Nil
  then show ?case by (intro exI [of _ 0] exI [of _ "[]"]) (simp add: ups_def)
next
  case (snoc p parts)
  then obtain k ns where IH: "foldl (clean_step False) [] parts = ups k @ ns" "\<forall>x \<in> set ns. proper x"
    "\<forall>S. (\<forall>x \<in> set S. proper x) \<longrightarrow> foldl (clean_step True) S parts = take (length S - k) S @ ns"
    by (auto simp del: clean_step.simps)
  from clean_step_unrooted [OF IH(2), of p k] snoc.prems obtain k' ns' where
    "clean_step False (ups k @ ns) p = ups k' @ ns'" "\<forall>x \<in> set ns'. proper x"
    "\<forall>S. (\<forall>x \<in> set S. proper x) \<longrightarrow> clean_step True (take (length S - k) S @ ns) p = take (length S - k') S @ ns'"
    by (auto simp del: clean_step.simps)
  with IH show ?case by (intro exI [of _ k'] exI [of _ ns']) (simp del: clean_step.simps)
qed

text \<open>The parts of a cleaned path: proper ones, after some \<open>..\<close> when the path is relative.\<close>

definition shown :: "string list \<Rightarrow> string" where
  "shown parts = (if parts = [] then ''.'' else join ''/'' parts)"

lemma split_slashes: "\<forall>p \<in> set (split_char CHR ''/'' s). CHR ''/'' \<notin> set p"
  using split_no_sep by blast

lemma Clean_rooted:
  assumes "IsAbs p"
  shows "\<exists>ns. Clean p = CHR ''/'' # join ''/'' ns \<and> path_parts (Clean p) = ns \<and> (\<forall>x \<in> set ns. proper x)
    \<and> ns = foldl (clean_step True) [] (split_char CHR ''/'' p)"
proof -
  from clean_parts_unrooted [OF split_slashes [of p]] obtain ns where
    "foldl (clean_step True) [] (split_char CHR ''/'' p) = ns" "\<forall>x \<in> set ns. proper x"
    by (metis append_Nil take_Nil list.set(1) empty_iff)
  then show ?thesis
    using assms by (simp add: Clean_def Let_def IsAbs_def path_parts_rooted path_parts_join del: clean_step.simps)
qed

lemma Clean_relative:
  assumes "\<not> IsAbs p"
  shows "\<exists>k ns. Clean p = shown (ups k @ ns) \<and> (\<forall>x \<in> set ns. proper x)
    \<and> (\<forall>S. (\<forall>x \<in> set S. proper x) \<longrightarrow> foldl (clean_step True) S (split_char CHR ''/'' p) = take (length S - k) S @ ns)"
proof -
  have "Clean p = shown (foldl (clean_step False) [] (split_char CHR ''/'' p))"
    using assms by (simp add: Clean_def Let_def IsAbs_def shown_def del: clean_step.simps)
  with clean_parts_unrooted [OF split_slashes [of p]] show ?thesis by metis
qed

lemma clean_proper: "\<forall>x \<in> set ns. proper x \<Longrightarrow> foldl (clean_step r) S ns = S @ ns"
proof (induction ns arbitrary: S)
  case (Cons n ns)
  then have "clean_step r S n = S @ [n]" by (simp add: proper_def)
  with Cons show ?case by (simp del: clean_step.simps)
qed simp

lemma foldl_clean_nonempty: "foldl (clean_step r) S (filter (\<lambda>x. x \<noteq> []) ps) = foldl (clean_step r) S ps"
  by (induction ps arbitrary: S) auto

lemma foldl_clean_parts: "foldl (clean_step r) S (split_char CHR ''/'' p) = foldl (clean_step r) S (path_parts p)"
  by (simp add: path_parts_def foldl_clean_nonempty del: clean_step.simps)

lemma path_parts_append: "path_parts (a @ CHR ''/'' # b) = path_parts a @ path_parts b"
  by (simp add: path_parts_def split_append)

lemma Clean_idem:
  assumes "IsAbs p"
  shows "Clean (Clean p) = Clean p"
proof -
  obtain ns where ns: "Clean p = CHR ''/'' # join ''/'' ns" "path_parts (Clean p) = ns" "\<forall>x \<in> set ns. proper x"
    using Clean_rooted [OF assms] by blast
  have "IsAbs (Clean p)" by (simp add: ns(1) IsAbs_def has_prefix_def)
  from Clean_rooted [OF this] have "Clean (Clean p) = CHR ''/'' # join ''/'' (foldl (clean_step True) [] (path_parts (Clean p)))"
    unfolding foldl_clean_parts by (elim exE conjE) (simp del: clean_step.simps)
  then show ?thesis using ns(1,2) clean_proper [OF ns(3), of True "[]"] by (simp del: clean_step.simps)
qed

text \<open>The path a name stands for, and the relative path the code forms from it, in parts.\<close>

definition first_rel :: "os_fs \<Rightarrow> string \<Rightarrow> string" where
  "first_rel f name = (if IsAbs name then Rel (of_dir f) (named_path f name) else Clean name)"

lemma rel_parts_ups: "\<exists>k rest. rel_parts bs ts = ups k @ rest \<and> ts = take (length bs - k) bs @ rest \<and> k \<le> length bs"
proof (induction bs ts rule: rel_parts.induct)
  case (1 b bs t ts)
  show ?case
  proof (cases "b = t")
    case True
    with 1 obtain k rest where "rel_parts bs ts = ups k @ rest" "ts = take (length bs - k) bs @ rest" "k \<le> length bs" by blast
    with True show ?thesis by (intro exI [of _ k] exI [of _ rest]) (simp add: Suc_diff_le)
  next
    case False
    then show ?thesis by (intro exI [of _ "Suc (length bs)"] exI [of _ "t # ts"]) (simp add: ups_def)
  qed
qed (auto simp: ups_def intro: exI [of _ 0])

lemma clean_dir:
  assumes "IsAbs d" and "Clean d = d"
  shows "\<forall>x \<in> set (path_parts d). proper x" and "d = CHR ''/'' # join ''/'' (path_parts d)"
  using Clean_rooted [OF assms(1)] assms(2) by auto

lemma first_rel_parts:
  assumes d: "IsAbs (of_dir f)" "Clean (of_dir f) = of_dir f" and n: "name \<noteq> []"
  shows "\<exists>k ns. first_rel f name = shown (ups k @ ns) \<and> (\<forall>x \<in> set ns. proper x)
    \<and> path_parts (named_path f name) = take (length (path_parts (of_dir f)) - k) (path_parts (of_dir f)) @ ns"
proof (cases "IsAbs name")
  case True
  let ?p = "named_path f name"
  obtain ts where ts: "?p = CHR ''/'' # join ''/'' ts" "path_parts ?p = ts" "\<forall>x \<in> set ts. proper x"
    using Clean_rooted [OF True] True by (auto simp: named_path_def)
  obtain k rest where k: "rel_parts (path_parts (of_dir f)) ts = ups k @ rest"
    "ts = take (length (path_parts (of_dir f)) - k) (path_parts (of_dir f)) @ rest" "k \<le> length (path_parts (of_dir f))"
    using rel_parts_ups by blast
  have same: "?p = of_dir f \<longleftrightarrow> ups k @ rest = []"
  proof
    assume "?p = of_dir f"
    then have "rel_parts ts ts = ups k @ rest" using k(1) ts(2) by simp
    moreover have "rel_parts ts ts = []" by (induction ts) simp_all
    ultimately show "ups k @ rest = []" by simp
  next
    assume "ups k @ rest = []"
    then have "ts = path_parts (of_dir f)" using k(2) by (auto simp: ups_def)
    then show "?p = of_dir f" using clean_dir(2) [OF d] ts(1) by simp
  qed
  have "first_rel f name = shown (ups k @ rest)"
    using True same k(1) ts(2) by (auto simp: first_rel_def Rel_def shown_def)
  with k(2) ts show ?thesis by (intro exI [of _ k] exI [of _ rest]) auto
next
  case False
  from Clean_relative [OF False] obtain k ns where ns: "Clean name = shown (ups k @ ns)" "\<forall>x \<in> set ns. proper x"
    "foldl (clean_step True) (path_parts (of_dir f)) (split_char CHR ''/'' name) =
      take (length (path_parts (of_dir f)) - k) (path_parts (of_dir f)) @ ns"
    using clean_dir(1) [OF d] by blast
  let ?q = "of_dir f @ ''/'' @ name"
  have a: "IsAbs ?q" using d(1) by (cases "of_dir f") (auto simp: IsAbs_def has_prefix_def)
  have "named_path f name = Clean ?q"
    using False n d(1) Clean_idem [OF a] by (auto simp: named_path_def Join2_def IsAbs_def has_prefix_def)
  moreover have "path_parts (Clean ?q) = foldl (clean_step True) [] (path_parts ?q)"
    using Clean_rooted [OF a] by (auto simp: foldl_clean_parts simp del: clean_step.simps)
  moreover have "\<dots> = foldl (clean_step True) (path_parts (of_dir f)) (path_parts name)"
    using path_parts_append [of "of_dir f" name] clean_proper [OF clean_dir(1) [OF d], of True "[]"] by (simp del: clean_step.simps)
  ultimately show ?thesis
    using ns False by (intro exI [of _ k] exI [of _ ns]) (simp add: first_rel_def foldl_clean_parts del: clean_step.simps)
qed

lemma join_last: "xs \<noteq> [] \<Longrightarrow> \<exists>pre. CHR ''/'' # join ''/'' xs = pre @ CHR ''/'' # last xs"
proof (induction xs)
  case (Cons x xs)
  show ?case
  proof (cases "xs = []")
    case False
    with Cons obtain pre where "CHR ''/'' # join ''/'' xs = pre @ CHR ''/'' # last xs" by blast
    then have "CHR ''/'' # join ''/'' (x # xs) = (CHR ''/'' # x @ pre) @ CHR ''/'' # last (x # xs)"
      using False by (simp add: join_Cons)
    then show ?thesis by blast
  qed simp
qed simp

lemma Base_proper:
  assumes "IsAbs d" and "Clean d = d"
  shows "Base d = ''/'' \<or> proper (Base d)"
proof (cases "path_parts d = []")
  case True
  then have "d = ''/''" using clean_dir(2) [OF assms] by simp
  then show ?thesis by (simp add: Base_def trim_right_set_def)
next
  case False
  define x where "x = last (path_parts d)"
  have x: "proper x" using clean_dir(1) [OF assms] False by (simp add: x_def)
  obtain pre where d: "d = pre @ CHR ''/'' # x" using join_last [OF False] clean_dir(2) [OF assms] x_def by metis
  have r: "rev x \<noteq> []" "CHR ''/'' \<notin> set (rev x)" using x by (auto simp: proper_def)
  have "dropWhile (\<lambda>c. c \<in> set ''/'') (rev x @ CHR ''/'' # rev pre) = rev x @ CHR ''/'' # rev pre"
    using r by (cases "rev x") auto
  then have "trim_right_set ''/'' d = d" by (simp add: trim_right_set_def d)
  moreover have "takeWhile (\<lambda>c. c \<noteq> CHR ''/'') (rev d) = rev x"
    unfolding d rev_append rev.simps append_assoc append_Cons append_Nil using r(2) by (subst takeWhile_append2) auto
  ultimately have "Base d = x" by (simp add: Base_def Let_def d)
  with x show ?thesis by simp
qed

text \<open>The parts of a relative path, none for the workspace itself.\<close>

definition below :: "string \<Rightarrow> string list" where
  "below rel = (if rel = ''.'' then [] else path_parts rel)"

lemma below_shown:
  assumes "\<forall>x \<in> set ps. x \<noteq> [] \<and> x \<noteq> ''.'' \<and> CHR ''/'' \<notin> set x"
  shows "below (shown ps) = ps"
proof (cases "ps = []")
  case False
  then have "split_char CHR ''/'' (join ''/'' ps) = ps" using split_join [of ps "CHR ''/''"] assms by blast
  moreover have "filter (\<lambda>x. x \<noteq> []) ps = ps" using assms by (intro filter_True) blast
  ultimately have p: "path_parts (join ''/'' ps) = ps" by (simp only: path_parts_def)
  have "path_parts ''.'' = [''.'']" by code_simp
  then have "join ''/'' ps \<noteq> ''.''" using p assms by (metis list.set_intros(1))
  with False p show ?thesis by (simp add: below_def shown_def)
qed (simp add: below_def shown_def)

lemma shown_parts:
  assumes "\<forall>x \<in> set ns. proper x"
  shows "below (shown (ups k @ ns)) = ups k @ ns"
proof (intro below_shown ballI)
  fix x assume "x \<in> set (ups k @ ns)"
  then have "x = ''..'' \<or> proper x" using assms unfolding ups_def set_append by (metis Un_iff in_set_replicate)
  then show "x \<noteq> [] \<and> x \<noteq> ''.'' \<and> CHR ''/'' \<notin> set x"
  proof
    assume "x = ''..''"
    then show ?thesis by simp
  next
    assume "proper x"
    then show ?thesis unfolding proper_def by blast
  qed
qed

lemma shown_up:
  assumes "0 < k"
  shows "shown (ups k @ ns) = ''..'' \<or> has_prefix (shown (ups k @ ns)) ''../''"
proof -
  obtain n where "k = Suc n" using assms by (cases k) auto
  then have "shown (ups k @ ns) = join ''/'' (''..'' # ups n @ ns)" by (simp add: shown_def ups_def)
  with join_up show ?thesis by metis
qed

lemma path_parts_prefix: "CHR ''/'' \<notin> set b \<Longrightarrow> b \<noteq> [] \<Longrightarrow> path_parts (b @ ''/'' @ rest) = b # path_parts rest"
  using path_parts_append [of b rest] by (simp add: path_parts_def split_whole)

lemma trim_base_cases:
  assumes base: "Base d = ''/'' \<or> proper (Base d)" and rel: "rel = shown (ups k @ ns)" and ns: "\<forall>x \<in> set ns. proper x"
  obtains (kept) "trimDuplicatedWorkspaceBase d rel = rel"
  | (cut) "k = 0" "ns = Base d # below (trimDuplicatedWorkspaceBase d rel)"
proof (cases "trimDuplicatedWorkspaceBase d rel = rel")
  case False
  let ?b = "Base d" and ?t = "trimDuplicatedWorkspaceBase d rel"
  from False base have b: "proper ?b" by (auto simp: trimDuplicatedWorkspaceBase_def Let_def)
  have other: "(?b \<in> set [''.'', ''/'', []]) = False" using b by (auto simp: proper_def)
  have parts: "below rel = ups k @ ns" using rel shown_parts [OF ns] by simp
  have head: "k = 0 \<and> ns = ?b # ps" if "ups k @ ns = ?b # ps" for ps
    using that b by (cases k) (auto simp: ups_def proper_def)
  show ?thesis
  proof (cases "rel = ?b")
    case True
    then have "?t = ''.''" unfolding trimDuplicatedWorkspaceBase_def Let_def other by (simp only: if_False if_True refl)
    then have "below ?t = []" unfolding below_def by (simp only: if_True refl)
    moreover have "below ?b = [?b]" using b by (simp add: below_def path_parts_def split_whole proper_def)
    ultimately show ?thesis using cut head [of "[]"] parts unfolding True by metis
  next
    case no: False
    have tp: "?t = trim_prefix rel (?b @ ''/'')"
      using no unfolding trimDuplicatedWorkspaceBase_def Let_def other by (simp only: if_False)
    then have pre: "has_prefix rel (?b @ ''/'')" using False unfolding trim_prefix_def by (metis (full_types))
    then obtain t where l: "rel = (?b @ ''/'') @ t" unfolding has_prefix_iff by blast
    have "?t = drop (length (?b @ ''/'')) rel" using tp pre unfolding trim_prefix_def by (simp only: if_True)
    then have "?t = t" unfolding l by (metis append_eq_conv_conj)
    then have t: "rel = ?b @ ''/'' @ t" "?t = t" using l by (simp_all only: append_assoc)
    have "path_parts rel = ?b # path_parts t" using path_parts_prefix [of ?b t] t(1) b by (simp add: proper_def)
    moreover have "rel \<noteq> ''.''" using t(1) b by (cases ?b) (auto simp: proper_def)
    ultimately have n: "k = 0" "ns = ?b # path_parts t" using head [of "path_parts t"] parts unfolding below_def by (simp_all add: ups_def)
    have "path_parts ''.'' = [''.'']" by code_simp
    moreover have "\<not> proper ''.''" by (simp add: proper_def)
    ultimately have "t \<noteq> ''.''" using n(2) ns by (metis list.set_intros(1,2))
    then have "below ?t = path_parts t" unfolding t(2) below_def by (simp only: if_False)
    with n cut show ?thesis by metis
  qed
qed (use kept in blast)

text \<open>
  C35. A name is resolved to a path below the workspace. When the workspace file system accepts a name
  that is not allowlisted, the relative path it uses has no \<open>.\<close>, \<open>..\<close> or empty part, whatever the
  name looked like; and it stands for the path that was named, or for the path that was named
  without a first part below the workspace that has the name of the workspace directory: a file
  in such a subdirectory cannot be reached, not even by its absolute path.
\<close>
theorem names_resolved_below:
  assumes "IsAbs (of_dir f)" and "Clean (of_dir f) = of_dir f" and "resolve f name = Inr (Inside rel)"
  shows "(\<forall>x \<in> set (below rel). proper x) \<and>
    (path_parts (named_path f (trim_space name)) = path_parts (of_dir f) @ below rel
     \<or> path_parts (named_path f (trim_space name)) = path_parts (of_dir f) @ Base (of_dir f) # below rel)"
proof -
  let ?n = "trim_space name"
  have n: "?n \<noteq> []" using assms(3) by (auto simp: resolve_def Let_def split: if_splits)
  obtain k ns where ns: "first_rel f ?n = shown (ups k @ ns)" "\<forall>x \<in> set ns. proper x"
    "path_parts (named_path f ?n) = take (length (path_parts (of_dir f)) - k) (path_parts (of_dir f)) @ ns"
    using first_rel_parts [OF assms(1,2) n] by blast
  let ?t = "trimDuplicatedWorkspaceBase (of_dir f) (shown (ups k @ ns))"
  have t: "rel = ?t" "?t = ''.'' \<or> \<not> (?t = ''..'' \<or> has_prefix ?t ''../'')"
    using assms(3) ns(1) by (auto simp: resolve_def first_rel_def Let_def split: if_splits)
  show ?thesis
  proof (rule trim_base_cases [OF Base_proper [OF assms(1,2)] refl ns(2), of k])
    assume kept: "?t = shown (ups k @ ns)"
    have "has_prefix ''.'' ''../'' = False" by (simp add: has_prefix_def)
    then have "k = 0" using shown_up [of k ns] t(2) kept by (cases "k = 0") auto
    then show ?thesis using shown_parts [OF ns(2), of 0] ns(2,3) t(1) kept by (simp add: ups_def)
  next
    assume "k = 0" and "ns = Base (of_dir f) # below ?t"
    then have cut: "k = 0" "ns = Base (of_dir f) # below rel" using t(1) by simp_all
    have "path_parts (named_path f ?n) = path_parts (of_dir f) @ ns" using ns(3) unfolding cut(1) by simp
    with ns(2) show ?thesis unfolding cut(2) by simp
  qed
qed

definition proj :: os_fs where
  "proj = \<lparr>of_dir = ''/home/proj'', of_allowlist = [''/home/.godex'']\<rparr>"

theorem names_resolved_below_witness:
  "resolve proj ''/home/proj/proj/../proj/x.go'' = Inr (Inside ''x.go'')
    \<and> path_parts (named_path proj ''/home/proj/proj/../proj/x.go'') = path_parts ''/home/proj'' @ ''proj'' # below ''x.go''"
proof -
  have r: "IsAbs (of_dir proj)" "Clean (of_dir proj) = of_dir proj" "resolve proj ''/home/proj/proj/../proj/x.go'' = Inr (Inside ''x.go'')"
    "trim_space ''/home/proj/proj/../proj/x.go'' = ''/home/proj/proj/../proj/x.go''" "of_dir proj = ''/home/proj''" "Base ''/home/proj'' = ''proj''"
    "path_parts (named_path proj ''/home/proj/proj/../proj/x.go'') \<noteq> path_parts ''/home/proj'' @ below ''x.go''"
    by code_simp+
  from names_resolved_below [OF r(1-3)] r show ?thesis by simp
qed

text \<open>What a changing operation does: nothing when the name is refused, and otherwise one call at the resolved path.\<close>

lemma changes_below:
  assumes "changed_path f name = Inl e"
  shows "WriteFile os f name data d = (Some e, d)" "RemoveAll os f name d = (Some e, d)" "MkdirAll os f name d = (Some e, d)"
  using assms by (simp_all add: WriteFile_def RemoveAll_def MkdirAll_def)

end
