(* ===== verification/File_Edits.thy ===== *)
theory File_Edits
  imports Workspace_Fs "HOL-Library.Multiset" "HOL-Library.AList"
begin

text \<open>
  The edit operations of the workspace tools (\<open>internal/platform/tooling/tooling.go\<close>): one edit in
  one file, several edits in one file, and several files in one call, with the validation that
  precedes every write and the messages that help to correct a text that was not found.

  A workspace file system is what the tools are given, the interface \<open>workspacefs.FS\<close>: here the two
  methods the edits call, on a disk of any type. \<open>osFS\<close> is the local back end of
  \<^const>\<open>resolve\<close>. A run-time panic of the source is the error \<^const>\<open>Panic\<close>. A ratio of two counts
  is exact: as \<open>float64\<close> it is on the same side of one half. The parameter \<open>quote\<close> is
  \<open>strconv.Quote\<close>, inside a message.
\<close>

record 'd workspace_fs =
  fs_ReadFile :: "string \<Rightarrow> 'd \<Rightarrow> go_error + string"
  fs_WriteFile :: "string \<Rightarrow> string \<Rightarrow> 'd \<Rightarrow> go_error option \<times> 'd"

definition osFS :: "'d os_ops \<Rightarrow> os_fs \<Rightarrow> 'd workspace_fs" where
  "osFS os f = \<lparr>fs_ReadFile = ReadFile os f, fs_WriteFile = WriteFile os f\<rparr>"

record file_edit =
  fe_OldText :: string
  fe_NewText :: string

record file_edit_batch =
  fb_Path :: string
  fb_Edits :: "file_edit list"

record edit_range =
  er_start :: int
  er_end :: int
  er_index :: nat

definition maxEditsPerFile :: nat where "maxEditsPerFile = 50"

definition maxFilesPerBatch :: nat where "maxFilesPerBatch = 20"

section \<open>Searching in strings\<close>

text \<open>\<open>strings.Index\<close>, and \<open>strings.Count\<close> and \<open>strings.Replace\<close> (once) for a non-empty text.\<close>

fun find_at :: "string \<Rightarrow> string \<Rightarrow> nat option" where
  "find_at [] t = (if t = [] then Some 0 else None)"
| "find_at (c # s) t = (if has_prefix (c # s) t then Some 0 else map_option Suc (find_at s t))"

definition index_str :: "string \<Rightarrow> string \<Rightarrow> int" where
  "index_str s t = (case find_at s t of None \<Rightarrow> - 1 | Some k \<Rightarrow> int k)"

fun count_from :: "nat \<Rightarrow> string \<Rightarrow> string \<Rightarrow> nat" where
  "count_from k [] t = 0"
| "count_from (Suc k) (c # s) t = count_from k s t"
| "count_from 0 (c # s) t = (if has_prefix (c # s) t then Suc (count_from (length t - 1) s t) else count_from 0 s t)"

definition count_str :: "string \<Rightarrow> string \<Rightarrow> nat" where
  "count_str s t = count_from 0 s t"

definition replace_first :: "string \<Rightarrow> string \<Rightarrow> string \<Rightarrow> string" where
  "replace_first s old new =
    (case find_at s old of None \<Rightarrow> s | Some k \<Rightarrow> take k s @ new @ drop (k + length old) s)"

text \<open>\<open>s[a:b]\<close>, which panics when the bounds are not in order and in range.\<close>

definition slice :: "string \<Rightarrow> int \<Rightarrow> int \<Rightarrow> go_error + string" where
  "slice s a b = (if 0 \<le> a \<and> a \<le> b \<and> b \<le> int (length s) then Inr (take (nat (b - a)) (drop (nat a) s)) else Inl Panic)"

text \<open>
  The code points of a string, each by its encoding: a byte that starts no valid encoding is the
  code point U+FFFD.
\<close>

abbreviation cont :: "char \<Rightarrow> bool" where "cont \<equiv> char_in CHR 0x80 CHR 0xBF"

definition rune_len :: "string \<Rightarrow> nat option" where
  "rune_len s =
    (case s of
       [] \<Rightarrow> None
     | c # r \<Rightarrow>
        (if char_in CHR 0x00 CHR 0x7F c then Some 1
         else case r of
           [] \<Rightarrow> None
         | c1 # r1 \<Rightarrow>
            (if char_in CHR 0xC2 CHR 0xDF c then (if cont c1 then Some 2 else None)
             else case r1 of
               [] \<Rightarrow> None
             | c2 # r2 \<Rightarrow>
                (if char_in CHR 0xE0 CHR 0xEF c then
                   (if (if c = CHR 0xE0 then char_in CHR 0xA0 CHR 0xBF c1
                        else if c = CHR 0xED then char_in CHR 0x80 CHR 0x9F c1 else cont c1) \<and> cont c2
                    then Some 3 else None)
                 else if char_in CHR 0xF0 CHR 0xF4 c then
                   (case r2 of
                      [] \<Rightarrow> None
                    | c3 # _ \<Rightarrow>
                       (if (if c = CHR 0xF0 then char_in CHR 0x90 CHR 0xBF c1
                            else if c = CHR 0xF4 then char_in CHR 0x80 CHR 0x8F c1 else cont c1) \<and> cont c2 \<and> cont c3
                        then Some 4 else None))
                 else None))))"

function range_runes :: "string \<Rightarrow> string list" where
  "range_runes [] = []"
| "range_runes (c # s) =
    (case rune_len (c # s) of
       None \<Rightarrow> [CHR 0xEF, CHR 0xBF, CHR 0xBD] # range_runes s
     | Some k \<Rightarrow> take k (c # s) # range_runes (drop (k - 1) s))"
  by pat_completeness auto
termination by (relation "measure length") auto

section \<open>Messages\<close>

definition stringSimilarity :: "string \<Rightarrow> string \<Rightarrow> rat" where
  "stringSimilarity a b =
    (if a = [] \<or> b = [] then 0
     else let setA = remdups (range_runes a);
              intersection = length (filter (\<lambda>r. r \<in> set setA) (range_runes b));
              union_size = int (length setA) + int (length b) - int intersection
          in if union_size = 0 then 0 else of_nat intersection / of_int union_size)"

definition truncateLine :: "string \<Rightarrow> nat \<Rightarrow> string" where
  "truncateLine s limit = (if length s \<le> limit then s else take limit s @ ''...'')"

fun matched_lines :: "string list \<Rightarrow> string list \<Rightarrow> nat" where
  "matched_lines (o1 # olds) (l # ls) = (if l = o1 then Suc (matched_lines olds ls) else 0)"
| "matched_lines _ _ = 0"

text \<open>\<open>bestStart\<close> (\<^const>\<open>None\<close> for \<open>-1\<close>) and \<open>bestMatched\<close> after the loop over the lines from \<open>start\<close>.\<close>

fun best_match :: "string list \<Rightarrow> nat \<Rightarrow> nat option \<times> nat \<Rightarrow> string list \<Rightarrow> nat option \<times> nat" where
  "best_match olds start best [] = best"
| "best_match olds start best (l # ls) =
    best_match olds (Suc start)
      (let matched = matched_lines olds (l # ls) in if matched > snd best then (Some start, matched) else best) ls"

definition similar_lines :: "(string \<Rightarrow> string) \<Rightarrow> string \<Rightarrow> string list \<Rightarrow> string list" where
  "similar_lines quote oldText lines =
    concat (map (\<lambda>(i, line).
      if line \<noteq> [] \<and> oldText \<noteq> [] \<and> \<bar>int (length line) - int (length oldText)\<bar> \<le> 5 \<and> stringSimilarity line oldText > 1 / 2
      then [''line '' @ itoa (int i + 1) @ '': '' @ quote (truncateLine line 60)] else [])
      (enumerate 0 lines))"

abbreviation nl :: char where "nl \<equiv> CHR 0x0A"

definition no_text :: "(string \<Rightarrow> string) \<Rightarrow> string \<Rightarrow> string list \<Rightarrow> go_error" where
  "no_text quote oldText lines =
    (let suggestions = similar_lines quote oldText lines in
     Errorf (join [nl]
         [''old_text not found in file'', [], ''Expected:'', ''%q'', [], ''File preview (first 500 chars of first line):'', ''%s'', ''%s'',
          ''- Verify exact text matches including whitespace and indentation'', ''- Use read_file to see current file content'',
          ''- Try a smaller, unique portion of the old_text''])
       [oldText, (case lines of [] \<Rightarrow> [] | l # _ \<Rightarrow> truncateLine l 500),
        if suggestions = [] then []
        else join [nl] [[], ''Similar lines found:'', ''  '' @ join (nl # ''  '') suggestions, [], ''Suggestions:'']])"

text \<open>The line of the old text at \<open>bestMatched\<close> is looked up without a check of the bound.\<close>

definition buildEditNotFoundError :: "(string \<Rightarrow> string) \<Rightarrow> string \<Rightarrow> string \<Rightarrow> go_error" where
  "buildEditNotFoundError quote oldText content =
    (let lines = split_char nl content; oldLines = split_char nl oldText in
     case best_match oldLines 0 (None, 0) lines of
       (Some bestStart, bestMatched) \<Rightarrow>
         (if length oldLines > 1 \<and> bestMatched > 0 then
            (let mismatchLine = itoa (int bestStart + int bestMatched + 1) in
             if bestMatched < length oldLines then
               Errorf (join [nl]
                   [''old_text not found in file'', [], ''Closest match starts at line %d (%d of %d lines matched).'',
                    ''first mismatch at line %d:'', ''  expected: %q'', ''  actual:   %q'', [],
                    ''- Re-read the region around line %d (read_file offset=%d) and copy old_text verbatim''])
                 [itoa (int bestStart + 1), itoa (int bestMatched), itoa (int (length oldLines)), mismatchLine,
                  oldLines ! bestMatched,
                  if bestStart + bestMatched < length lines then lines ! (bestStart + bestMatched) else [],
                  mismatchLine, mismatchLine]
             else Panic)
          else no_text quote oldText lines)
     | (None, _) \<Rightarrow> no_text quote oldText lines)"

definition findEditLocations :: "string \<Rightarrow> string \<Rightarrow> string list" where
  "findEditLocations content oldText =
    concat (map (\<lambda>(lineNum, line).
      let idx = index_str line oldText in
      if idx \<ge> 0 then [''line '' @ itoa (int lineNum + 1) @ '' (col '' @ itoa (idx + 1) @ '')''] else [])
      (enumerate 0 (split_char nl content)))"

section \<open>Validating and applying the edits of one file\<close>

text \<open>\<open>fmt.Errorf\<close> with \<open>%w\<close>; a panic stays a panic.\<close>

definition wrap_err :: "string \<Rightarrow> string list \<Rightarrow> go_error \<Rightarrow> go_error" where
  "wrap_err fmt args e = (if e = Panic then Panic else Wrapf fmt args e)"

definition validate_edit :: "(string \<Rightarrow> string) \<Rightarrow> string \<Rightarrow> string \<Rightarrow> file_edit \<Rightarrow> go_error option" where
  "validate_edit quote content label edit =
    andthen (check (fe_OldText edit = []) (Errorf ''%s: old_text must not be empty'' [label]))
    (andthen (check (fe_OldText edit = fe_NewText edit) (Errorf ''%s: old_text and new_text must be different'' [label]))
      (let count = count_str content (fe_OldText edit) in
       andthen (check (count = 0) (wrap_err ''%s: %w'' [label] (buildEditNotFoundError quote (fe_OldText edit) content)))
         (check (count > 1)
           (Errorf (''%s: old_text found %d times in file. Provide more context to make it unique.'' @ [nl] @ ''Locations: %s'')
             [label, itoa (int count), join '', '' (findEditLocations content (fe_OldText edit))]))))"

definition validateEdits :: "(string \<Rightarrow> string) \<Rightarrow> string \<Rightarrow> file_edit list \<Rightarrow> (nat \<Rightarrow> string) \<Rightarrow> go_error option" where
  "validateEdits quote content edits label = each_i 0 (\<lambda>i edit. validate_edit quote content (label i) edit) edits"

definition rangesOverlap :: "edit_range \<Rightarrow> edit_range \<Rightarrow> bool" where
  "rangesOverlap a b \<longleftrightarrow> er_start a < er_end b \<and> er_start b < er_end a"

definition edit_range_of :: "string \<Rightarrow> nat \<times> file_edit \<Rightarrow> edit_range" where
  "edit_range_of content = (\<lambda>(i, edit).
    let idx = index_str content (fe_OldText edit) in
    \<lparr>er_start = idx, er_end = idx + int (length (fe_OldText edit)), er_index = i\<rparr>)"

definition overlap_error :: "nat \<Rightarrow> nat \<Rightarrow> go_error" where
  "overlap_error i j =
    Errorf ''edits[%d] and edits[%d] overlap in the file. Merge them into a single edit or adjust the ranges.'' [itoa (int i), itoa (int j)]"

fun check_overlaps :: "edit_range list \<Rightarrow> go_error option" where
  "check_overlaps [] = None"
| "check_overlaps (r # rs) =
    andthen (each (\<lambda>q. check (rangesOverlap r q) (overlap_error (er_index r) (er_index q))) rs) (check_overlaps rs)"

fun render :: "string \<Rightarrow> file_edit list \<Rightarrow> int \<Rightarrow> edit_range list \<Rightarrow> go_error + string" where
  "render content edits pos [] = slice content pos (int (length content))"
| "render content edits pos (r # rs) =
    (let edit = edits ! er_index r in
     case slice content pos (er_start r) of
       Inl e \<Rightarrow> Inl e
     | Inr gap \<Rightarrow>
         map_sum id (\<lambda>rest. gap @ fe_NewText edit @ rest)
           (render content edits (er_start r + int (length (fe_OldText edit))) rs))"

definition applyEdits :: "string \<Rightarrow> file_edit list \<Rightarrow> go_error + string" where
  "applyEdits content edits =
    (let ranges = map (edit_range_of content) (enumerate 0 edits) in
     case check_overlaps ranges of
       Some e \<Rightarrow> Inl e
     | None \<Rightarrow> render content edits 0 (sort_key er_start ranges))"

section \<open>The edit operations\<close>

definition unavailable :: go_error where
  "unavailable = Errorf ''workspace fs unavailable'' []"

definition missing_old_text :: string where
  "missing_old_text =
    (let q = [CHR 0x22] in
     join [nl]
      [''missing old_text argument: edit_file needs old_text to locate text to replace.'',
       ''Minimal usage: {'' @ q @ ''path'' @ q @ '':'' @ q @ ''file.go'' @ q @ '','' @ q @ ''old_text'' @ q @ '':'' @ q @ ''<exact existing text>''
         @ q @ '','' @ q @ ''new_text'' @ q @ '':'' @ q @ ''<replacement>'' @ q @ ''}'',
       ''- To APPEND to an existing file: pass the last line(s) of the current file verbatim as old_text, and set new_text to that anchor + your new content.'',
       ''- To create a NEW file: use write_file instead of edit_file.''])"

definition EditFile :: "(string \<Rightarrow> string) \<Rightarrow> 'd workspace_fs option \<Rightarrow> string \<Rightarrow> string \<Rightarrow> string \<Rightarrow> 'd \<Rightarrow> (go_error + string) \<times> 'd" where
  "EditFile quote wfs path oldText newText d =
    (case wfs of
       None \<Rightarrow> (Inl unavailable, d)
     | Some fs \<Rightarrow>
        (if oldText = [] then (Inl (Errorf missing_old_text []), d)
         else if oldText = newText then (Inl (Errorf ''old_text and new_text must be different'' []), d)
         else case fs_ReadFile fs path d of
           Inl e \<Rightarrow> (Inl e, d)
         | Inr content \<Rightarrow>
            (let count = count_str content oldText in
             if count = 0 then (Inl (buildEditNotFoundError quote oldText content), d)
             else if count > 1 then
               (Inl (Errorf (''old_text found %d times in file. Provide more context to make it unique, or use edits[] for multiple replacements.''
                      @ [nl] @ ''Locations: %s'')
                  [itoa (int count), join '', '' (findEditLocations content oldText)]), d)
             else case fs_WriteFile fs path (replace_first content oldText newText) d of
               (Some e, d1) \<Rightarrow> (Inl e, d1)
             | (None, d1) \<Rightarrow> (Inr ''OK'', d1))))"

definition EditFileMulti :: "(string \<Rightarrow> string) \<Rightarrow> 'd workspace_fs option \<Rightarrow> string \<Rightarrow> file_edit list \<Rightarrow> 'd \<Rightarrow> (go_error + string) \<times> 'd" where
  "EditFileMulti quote wfs path edits d =
    (if edits = [] then (Inl (Errorf ''edits must not be empty'' []), d)
     else if length edits > maxEditsPerFile then
       (Inl (Errorf ''too many edits (%d); maximum is %d per call'' [itoa (int (length edits)), itoa (int maxEditsPerFile)]), d)
     else case wfs of
       None \<Rightarrow> (Inl unavailable, d)
     | Some fs \<Rightarrow>
        (case fs_ReadFile fs path d of
           Inl e \<Rightarrow> (Inl e, d)
         | Inr content \<Rightarrow>
            (case validateEdits quote content edits (\<lambda>i. ''edits['' @ itoa (int i) @ '']'') of
               Some e \<Rightarrow> (Inl e, d)
             | None \<Rightarrow>
                (case applyEdits content edits of
                   Inl e \<Rightarrow> (Inl e, d)
                 | Inr newContent \<Rightarrow>
                    (case fs_WriteFile fs path newContent d of
                       (Some e, d1) \<Rightarrow> (Inl e, d1)
                     | (None, d1) \<Rightarrow> (Inr (''Applied '' @ itoa (int (length edits)) @ '' edit(s) to '' @ path), d1))))))"

fun check_batches :: "nat \<Rightarrow> string list \<Rightarrow> file_edit_batch list \<Rightarrow> go_error option" where
  "check_batches i seen [] = None"
| "check_batches i seen (b # bs) =
    andthen (check (blank (fb_Path b)) (Errorf ''files[%d]: path must not be empty'' [itoa (int i)]))
    (andthen (check (fb_Path b \<in> set seen)
        (Errorf ''files[%d]: duplicate path %q; merge its edits into a single files[] entry'' [itoa (int i), fb_Path b]))
    (andthen (check (fb_Edits b = []) (Errorf ''files[%d] (%s): edits must not be empty'' [itoa (int i), fb_Path b]))
    (andthen (check (length (fb_Edits b) > maxEditsPerFile)
        (Errorf ''files[%d] (%s): too many edits (%d); maximum is %d per file''
          [itoa (int i), fb_Path b, itoa (int (length (fb_Edits b))), itoa (int maxEditsPerFile)]))
      (check_batches (Suc i) (fb_Path b # seen) bs))))"

definition render_batch :: "(string \<Rightarrow> string) \<Rightarrow> 'd workspace_fs \<Rightarrow> 'd \<Rightarrow> nat \<Rightarrow> file_edit_batch \<Rightarrow> go_error + string \<times> string" where
  "render_batch quote fs d i b =
    (case fs_ReadFile fs (fb_Path b) d of
       Inl e \<Rightarrow> Inl (wrap_err ''files[%d] (%s): %w'' [itoa (int i), fb_Path b] e)
     | Inr content \<Rightarrow>
        (case validateEdits quote content (fb_Edits b)
            (\<lambda>j. ''files['' @ itoa (int i) @ ''] ('' @ fb_Path b @ '') edits['' @ itoa (int j) @ '']'') of
           Some e \<Rightarrow> Inl e
         | None \<Rightarrow>
            (case applyEdits content (fb_Edits b) of
               Inl e \<Rightarrow> Inl (wrap_err ''files[%d] (%s): %w'' [itoa (int i), fb_Path b] e)
             | Inr newContent \<Rightarrow> Inr (fb_Path b, newContent))))"

fun render_batches ::
  "(string \<Rightarrow> string) \<Rightarrow> 'd workspace_fs \<Rightarrow> 'd \<Rightarrow> nat \<Rightarrow> file_edit_batch list \<Rightarrow> go_error + (string \<times> string) list" where
  "render_batches quote fs d i [] = Inr []"
| "render_batches quote fs d i (b # bs) =
    (case render_batch quote fs d i b of
       Inl e \<Rightarrow> Inl e
     | Inr f \<Rightarrow> map_sum id (\<lambda>fs'. f # fs') (render_batches quote fs d (Suc i) bs))"

fun write_all :: "'d workspace_fs \<Rightarrow> (string \<times> string) list \<Rightarrow> 'd \<Rightarrow> go_error option \<times> 'd" where
  "write_all fs [] d = (None, d)"
| "write_all fs ((path, newContent) # rest) d =
    (case fs_WriteFile fs path newContent d of
       (Some e, d1) \<Rightarrow> (Some (wrap_err ''writing %s: %w'' [path] e), d1)
     | (None, d1) \<Rightarrow> write_all fs rest d1)"

definition EditFilesMulti ::
  "(string \<Rightarrow> string) \<Rightarrow> 'd workspace_fs option \<Rightarrow> file_edit_batch list \<Rightarrow> 'd \<Rightarrow> (go_error + string) \<times> 'd" where
  "EditFilesMulti quote wfs batches d =
    (if batches = [] then (Inl (Errorf ''files must not be empty'' []), d)
     else if length batches > maxFilesPerBatch then
       (Inl (Errorf ''too many files (%d); maximum is %d per call'' [itoa (int (length batches)), itoa (int maxFilesPerBatch)]), d)
     else case check_batches 0 [] batches of
       Some e \<Rightarrow> (Inl e, d)
     | None \<Rightarrow>
        (case wfs of
           None \<Rightarrow> (Inl unavailable, d)
         | Some fs \<Rightarrow>
            (case render_batches quote fs d 0 batches of
               Inl e \<Rightarrow> (Inl e, d)
             | Inr rendered \<Rightarrow>
                (case write_all fs rendered d of
                   (Some e, d1) \<Rightarrow> (Inl e, d1)
                 | (None, d1) \<Rightarrow>
                     (Inr (''Applied '' @ itoa (int (sum_list (map (length \<circ> fb_Edits) batches))) @ '' edit(s) across ''
                        @ itoa (int (length rendered)) @ '' file(s)''), d1)))))"

section \<open>Places of a text\<close>

lemma find_at_Some:
  "find_at s t = Some k \<Longrightarrow> k + length t \<le> length s \<and> take (length t) (drop k s) = t"
proof (induction s t arbitrary: k rule: find_at.induct)
  case (2 c s t)
  show ?case
  proof (cases "has_prefix (c # s) t")
    case True
    with 2 obtain l where "k = 0" "c # s = t @ l" by (auto simp: has_prefix_iff)
    then show ?thesis by simp
  qed (use 2 in auto)
qed (auto split: if_splits)

lemma count_find: "count_from 0 s t \<noteq> 0 \<Longrightarrow> \<exists>k. find_at s t = Some k"
  by (induction s) (auto split: if_splits)

lemma found_slice:
  assumes "count_str s t \<noteq> 0"
  obtains k where "index_str s t = int k" "k + length t \<le> length s" "take (length t) (drop k s) = t"
  using count_find [of s t] find_at_Some assms by (fastforce simp: count_str_def index_str_def)

lemma no_count_no_place: "count_from 0 s t = 0 \<Longrightarrow> t \<noteq> [] \<Longrightarrow> s \<noteq> a @ t @ b"
proof (induction s arbitrary: a)
  case (Cons c s)
  then have n: "\<not> has_prefix (c # s) t" "count_from 0 s t = 0" by (auto split: if_splits)
  with Cons show ?case by (cases a) (auto simp: has_prefix_iff)
qed simp

section \<open>The closest match\<close>

text \<open>All lines of the old text in a row are the old text.\<close>

lemma join_append: "xs \<noteq> [] \<Longrightarrow> ys \<noteq> [] \<Longrightarrow> join sep (xs @ ys) = join sep xs @ sep @ join sep ys"
proof (induction xs)
  case (Cons x xs)
  then show ?case by (cases "xs = []") (simp_all add: join_Cons)
qed simp

lemma matched_all: "matched_lines olds ls \<le> length olds \<and> (matched_lines olds ls = length olds \<longrightarrow> (\<exists>rest. ls = olds @ rest))"
  by (induction olds ls rule: matched_lines.induct) auto

lemma join_infix:
  assumes "ls = pre @ olds @ post" and "olds \<noteq> []"
  shows "\<exists>a b. join sep ls = a @ join sep olds @ b"
proof -
  obtain b where b: "join sep (olds @ post) = join sep olds @ b"
    using assms(2) join_append [of olds post sep] by (cases "post = []") auto
  show ?thesis
  proof (cases "pre = []")
    case True
    with b assms(1) show ?thesis by (metis append_Nil)
  next
    case False
    with b assms join_append [of pre "olds @ post" sep] show ?thesis by (metis append.assoc append_is_Nil_conv)
  qed
qed

lemma best_match_bound:
  assumes "\<forall>pre post. ls \<noteq> pre @ olds @ post" and "snd best < length olds"
  shows "snd (best_match olds start best ls) < length olds"
  using assms
proof (induction ls arbitrary: start best)
  case (Cons l ls)
  let ?m = "matched_lines olds (l # ls)"
  have "?m \<noteq> length olds" using matched_all [of olds "l # ls"] Cons.prems(1) by (metis append_Nil)
  then have "?m < length olds" using matched_all [of olds "l # ls"] by simp
  moreover have "\<forall>pre post. ls \<noteq> pre @ olds @ post" using Cons.prems(1) by (metis append_Cons)
  ultimately show ?case using Cons.prems(2) by (simp only: best_match.simps Let_def) (intro Cons.IH, auto)
qed simp

lemma not_found_no_panic:
  assumes "count_str content oldText = 0" and "oldText \<noteq> []"
  shows "buildEditNotFoundError quote oldText content \<noteq> Panic"
proof -
  let ?ls = "split_char nl content" and ?olds = "split_char nl oldText"
  have "?ls \<noteq> pre @ ?olds @ post" for pre post
  proof
    assume "?ls = pre @ ?olds @ post"
    from join_infix [OF this, of "[nl]"] obtain a b where "content = a @ oldText @ b" by auto
    with assms no_count_no_place show False by (auto simp: count_str_def)
  qed
  then have "snd (best_match ?olds 0 (None, 0) ?ls) < length ?olds" by (intro best_match_bound) auto
  then show ?thesis
    by (auto simp: buildEditNotFoundError_def no_text_def Let_def split: prod.splits option.splits)
qed

section \<open>Ranges that do not overlap\<close>

text \<open>
  \<open>weave gs xs z\<close> puts the texts \<open>xs\<close> into the gaps \<open>gs\<close>: each text after its gap, and \<open>z\<close> at the end.
\<close>

fun weave :: "string list \<Rightarrow> string list \<Rightarrow> string \<Rightarrow> string" where
  "weave (g # gs) (x # xs) z = g @ x @ weave gs xs z"
| "weave _ _ z = z"

lemma pairs_sym:
  assumes "sorted_wrt P xs" and "symp P" and "distinct xs" and "mset ys = mset xs"
  shows "sorted_wrt P ys"
proof -
  have all: "P x y" if "x \<in> set xs" "y \<in> set xs" "x \<noteq> y" for x y
    using that assms(1,2)
  proof (induction xs)
    case (Cons a xs)
    then show ?case by (auto dest: sympD)
  qed simp
  have "set ys = set xs" "distinct ys" using assms(3,4) by (metis mset_eq_setD, metis mset_eq_imp_distinct_iff)
  then have "\<forall>x \<in> set ys. \<forall>y \<in> set ys. x \<noteq> y \<longrightarrow> P x y" "distinct ys" using all by auto
  then show ?thesis by (induction ys) auto
qed

lemma check_overlaps_None: "check_overlaps rs = None \<longleftrightarrow> sorted_wrt (\<lambda>a b. \<not> rangesOverlap a b) rs"
  by (induction rs) (auto simp: noerr)

lemma check_overlaps_Some:
  "check_overlaps rs = Some e \<Longrightarrow> \<exists>i j. i < j \<and> j < length rs \<and> rangesOverlap (rs ! i) (rs ! j) \<and> e = overlap_error (er_index (rs ! i)) (er_index (rs ! j))"
proof (induction rs)
  case (Cons r rs)
  then consider "each (\<lambda>q. check (rangesOverlap r q) (overlap_error (er_index r) (er_index q))) rs = Some e" | "check_overlaps rs = Some e"
    by (auto simp: andthen_Some)
  then show ?case
  proof cases
    case 1
    from each_Some [OF this] obtain k where "k < length rs" "rangesOverlap r (rs ! k)" "e = overlap_error (er_index r) (er_index (rs ! k))"
      by (auto simp: check_Some in_set_conv_nth)
    then show ?thesis by (intro exI [of _ 0] exI [of _ "Suc k"]) simp
  next
    case 2
    from Cons.IH [OF this] obtain i j where "i < j" "j < length rs" "rangesOverlap (rs ! i) (rs ! j)"
      "e = overlap_error (er_index (rs ! i)) (er_index (rs ! j))" by blast
    then show ?thesis by (intro exI [of _ "Suc i"] exI [of _ "Suc j"]) simp
  qed
qed simp

text \<open>A range with its text: it lies in the content, and it is where the old text of its edit stands.\<close>

definition placed :: "string \<Rightarrow> file_edit list \<Rightarrow> edit_range \<Rightarrow> bool" where
  "placed content edits r \<longleftrightarrow>
    (let old = fe_OldText (edits ! er_index r) in
     er_index r < length edits \<and> old \<noteq> [] \<and> 0 \<le> er_start r \<and> er_end r = er_start r + int (length old)
     \<and> er_end r \<le> int (length content) \<and> take (length old) (drop (nat (er_start r)) content) = old)"

lemma render_weaves:
  assumes "\<forall>r \<in> set rs. placed content edits r \<and> pos \<le> er_start r" and "sorted_wrt (\<lambda>a b. er_end a \<le> er_start b) rs"
    and "0 \<le> pos" and "pos \<le> int (length content)"
  shows "\<exists>gs z. length gs = length rs
    \<and> drop (nat pos) content = weave gs (map (\<lambda>r. fe_OldText (edits ! er_index r)) rs) z
    \<and> render content edits pos rs = Inr (weave gs (map (\<lambda>r. fe_NewText (edits ! er_index r)) rs) z)"
  using assms
proof (induction rs arbitrary: pos)
  case Nil
  then show ?case by (intro exI [of _ "[]"] exI [of _ "drop (nat pos) content"]) (auto simp: slice_def)
next
  case (Cons r rs)
  let ?old = "fe_OldText (edits ! er_index r)" and ?s = "nat (er_start r)"
  have p: "placed content edits r" "pos \<le> er_start r" using Cons.prems(1) by auto
  then have r: "0 \<le> er_start r" "er_end r = er_start r + int (length ?old)" "er_end r \<le> int (length content)"
    "take (length ?old) (drop ?s content) = ?old" by (auto simp: placed_def Let_def)
  have next_pos: "\<forall>q \<in> set rs. placed content edits q \<and> er_end r \<le> er_start q" using Cons.prems(1,2) by auto
  have "0 \<le> er_end r" using r by simp
  from Cons.IH [OF next_pos _ this r(3)] Cons.prems(2) obtain gs z where ih: "length gs = length rs"
    "drop (nat (er_end r)) content = weave gs (map (\<lambda>r. fe_OldText (edits ! er_index r)) rs) z"
    "render content edits (er_end r) rs = Inr (weave gs (map (\<lambda>r. fe_NewText (edits ! er_index r)) rs) z)" by auto
  define gap where "gap = take (nat (er_start r - pos)) (drop (nat pos) content)"
  have sl: "slice content pos (er_start r) = Inr gap" using p(2) r Cons.prems(3) by (simp add: slice_def gap_def)
  have "drop (nat pos) content = gap @ drop ?s content"
    using p(2) Cons.prems(3) append_take_drop_id [of "nat (er_start r - pos)" "drop (nat pos) content"]
    by (simp add: gap_def nat_diff_distrib)
  moreover have "drop ?s content = ?old @ drop (nat (er_end r)) content"
    using r append_take_drop_id [of "length ?old" "drop ?s content"] by (simp add: nat_add_distrib add.commute)
  ultimately show ?case using ih sl r(2) by (intro exI [of _ "gap # gs"] exI [of _ z]) (simp add: Let_def)
qed

abbreviation edit_ranges :: "string \<Rightarrow> file_edit list \<Rightarrow> edit_range list" where
  "edit_ranges content edits \<equiv> map (edit_range_of content) (enumerate 0 edits)"

lemma edit_range_index [simp]: "er_index (edit_range_of content p) = fst p"
  by (simp add: edit_range_of_def Let_def split: prod.splits)

lemma edit_ranges_index: "map er_index (edit_ranges content edits) = [0 ..< length edits]"
  by (simp add: comp_def del: upt_Suc)

lemma valid_placed:
  assumes "validateEdits quote content edits label = None" and "r \<in> set (edit_ranges content edits)"
  shows "placed content edits r"
proof -
  obtain i where i: "i < length edits" "r = edit_range_of content (i, edits ! i)"
    using assms(2) by (auto simp: in_set_enumerate_eq)
  then have "fe_OldText (edits ! i) \<noteq> []" "count_str content (fe_OldText (edits ! i)) \<noteq> 0"
    using assms(1) by (simp_all add: validateEdits_def validate_edit_def Let_def noerr)
  moreover from this(2) obtain k where "index_str content (fe_OldText (edits ! i)) = int k"
    "k + length (fe_OldText (edits ! i)) \<le> length content"
    "take (length (fe_OldText (edits ! i))) (drop k content) = fe_OldText (edits ! i)" by (rule found_slice)
  ultimately show ?thesis using i by (simp add: placed_def edit_range_of_def Let_def)
qed

lemma sorted_apart:
  assumes "\<forall>r \<in> set rs. placed content edits r" and "sorted (map er_start rs)" and "sorted_wrt (\<lambda>a b. \<not> rangesOverlap a b) rs"
  shows "sorted_wrt (\<lambda>a b. er_end a \<le> er_start b) rs"
  using assms
proof (induction rs)
  case (Cons r rs)
  have "er_end r \<le> er_start q" if q: "q \<in> set rs" for q
  proof -
    have "er_start r \<le> er_start q" "\<not> rangesOverlap r q" "placed content edits q" using Cons.prems q by auto
    moreover from this(3) have "er_start q < er_end q" by (simp add: placed_def Let_def)
    ultimately show ?thesis unfolding rangesOverlap_def by linarith
  qed
  with Cons show ?case by simp
qed simp

lemma render_sorted:
  assumes "validateEdits quote content edits label = None" and "check_overlaps (edit_ranges content edits) = None"
  shows "\<exists>es gs z. mset es = mset edits \<and> length gs = length es
    \<and> content = weave gs (map fe_OldText es) z
    \<and> render content edits 0 (sort_key er_start (edit_ranges content edits)) = Inr (weave gs (map fe_NewText es) z)"
proof -
  let ?rs = "edit_ranges content edits"
  let ?ss = "sort_key er_start ?rs"
  have d: "distinct ?rs" using edit_ranges_index [of content edits] by (metis distinct_map distinct_upt)
  have pl: "\<forall>r \<in> set ?ss. placed content edits r" using valid_placed [OF assms(1)] by simp
  have "symp (\<lambda>a b. \<not> rangesOverlap a b)" unfolding symp_def rangesOverlap_def by blast
  moreover have "sorted_wrt (\<lambda>a b. \<not> rangesOverlap a b) ?rs" using assms(2) unfolding check_overlaps_None .
  ultimately have "sorted_wrt (\<lambda>a b. \<not> rangesOverlap a b) ?ss" using pairs_sym [OF _ _ d mset_sort] by blast
  then have "sorted_wrt (\<lambda>a b. er_end a \<le> er_start b) ?ss" by (rule sorted_apart [OF pl sorted_sort_key])
  moreover have "\<forall>r \<in> set ?ss. placed content edits r \<and> 0 \<le> er_start r" using pl unfolding placed_def Let_def by blast
  ultimately obtain gs z where w: "length gs = length ?ss"
    "drop (nat 0) content = weave gs (map (\<lambda>r. fe_OldText (edits ! er_index r)) ?ss) z"
    "render content edits 0 ?ss = Inr (weave gs (map (\<lambda>r. fe_NewText (edits ! er_index r)) ?ss) z)"
    using render_weaves [of ?ss content edits 0] by auto
  define es where "es = map (\<lambda>r. edits ! er_index r) ?ss"
  have "mset es = mset (map (\<lambda>r. edits ! er_index r) ?rs)" unfolding es_def by (simp only: mset_map mset_sort)
  also have "map (\<lambda>r. edits ! er_index r) ?rs = map ((!) edits) (map er_index ?rs)" unfolding map_map comp_def ..
  also have "\<dots> = edits" unfolding edit_ranges_index map_nth ..
  finally have "mset es = mset edits" .
  moreover have "length gs = length es" using w(1) by (simp add: es_def)
  moreover have "map fe_OldText es = map (\<lambda>r. fe_OldText (edits ! er_index r)) ?ss" "map fe_NewText es = map (\<lambda>r. fe_NewText (edits ! er_index r)) ?ss"
    by (simp_all add: es_def comp_def)
  ultimately show ?thesis using w(2,3) by (metis drop0 nat_zero_as_int of_nat_0)
qed

text \<open>
  C36. Validation and application of the edits of one file. Validating never panics, although the
  message of a text that was not found looks up a line without checking the bound: as the comment
  there says, the line exists. When the edits are valid, either the content is cut into gaps and the
  old texts of all edits, in some order, and the result has the same gaps with the new texts in
  their places; or two edits, named by the error, stand at overlapping places. In particular no
  slice of the content is out of range, and no edit changes what another one wrote.
\<close>
theorem edits_validated_and_applied:
  "validateEdits quote content edits label \<noteq> Some Panic
   \<and> (validateEdits quote content edits label = None \<longrightarrow>
       (case applyEdits content edits of
          Inr out \<Rightarrow> \<exists>es gs z. mset es = mset edits \<and> length gs = length es
            \<and> content = weave gs (map fe_OldText es) z \<and> out = weave gs (map fe_NewText es) z
        | Inl e \<Rightarrow> \<exists>i j. i < j \<and> j < length edits \<and> e = overlap_error i j
            \<and> rangesOverlap (edit_range_of content (i, edits ! i)) (edit_range_of content (j, edits ! j))))"
proof (intro conjI impI)
  have step: "validate_edit quote content l edit \<noteq> Some Panic" for l edit
    using not_found_no_panic [of content "fe_OldText edit" quote]
    by (auto simp: validate_edit_def andthen_Some check_Some wrap_err_def Let_def split: if_splits)
  have "each_i k (\<lambda>i edit. validate_edit quote content (label i) edit) edits \<noteq> Some Panic" for k
    using step by (induction edits arbitrary: k) (auto simp: andthen_Some)
  then show "validateEdits quote content edits label \<noteq> Some Panic" unfolding validateEdits_def .
next
  assume v: "validateEdits quote content edits label = None"
  show "case applyEdits content edits of
          Inr out \<Rightarrow> \<exists>es gs z. mset es = mset edits \<and> length gs = length es
            \<and> content = weave gs (map fe_OldText es) z \<and> out = weave gs (map fe_NewText es) z
        | Inl e \<Rightarrow> \<exists>i j. i < j \<and> j < length edits \<and> e = overlap_error i j
            \<and> rangesOverlap (edit_range_of content (i, edits ! i)) (edit_range_of content (j, edits ! j))"
  proof (cases "check_overlaps (edit_ranges content edits)")
    case None
    from render_sorted [OF v None] obtain es gs z where "mset es = mset edits" "length gs = length es"
      "content = weave gs (map fe_OldText es) z"
      "render content edits 0 (sort_key er_start (edit_ranges content edits)) = Inr (weave gs (map fe_NewText es) z)" by blast
    moreover from this(4) None have a: "applyEdits content edits = Inr (weave gs (map fe_NewText es) z)"
      unfolding applyEdits_def Let_def by simp
    ultimately show ?thesis unfolding a sum.case by blast
  next
    case (Some e)
    from check_overlaps_Some [OF Some] obtain i j where "i < j" "j < length edits"
      "rangesOverlap (edit_ranges content edits ! i) (edit_ranges content edits ! j)"
      "e = overlap_error (er_index (edit_ranges content edits ! i)) (er_index (edit_ranges content edits ! j))" by auto
    with Some show ?thesis by (auto simp: applyEdits_def Let_def nth_enumerate_eq)
  qed
qed

section \<open>Several files\<close>

lemma check_batches_distinct:
  "check_batches i seen bs = None \<Longrightarrow> distinct (map fb_Path bs) \<and> set (map fb_Path bs) \<inter> set seen = {}"
  by (induction i seen bs rule: check_batches.induct) (auto simp: noerr)

text \<open>What the first phase computed for a file: the edits applied to the content that was read.\<close>

definition rendered_from :: "(string \<Rightarrow> string) \<Rightarrow> 'd workspace_fs \<Rightarrow> 'd \<Rightarrow> file_edit_batch \<Rightarrow> string \<times> string \<Rightarrow> bool" where
  "rendered_from quote fs d b p \<longleftrightarrow> fst p = fb_Path b
    \<and> (\<exists>content label. fs_ReadFile fs (fb_Path b) d = Inr content \<and> validateEdits quote content (fb_Edits b) label = None
        \<and> applyEdits content (fb_Edits b) = Inr (snd p))"

lemma render_batches_ok:
  "render_batches quote fs d i bs = Inr out \<Longrightarrow> list_all2 (rendered_from quote fs d) bs out"
proof (induction bs arbitrary: i out)
  case (Cons b bs)
  from Cons.prems obtain p where p: "render_batch quote fs d i b = Inr p" by (cases "render_batch quote fs d i b") auto
  with Cons.prems obtain rest where "render_batches quote fs d (Suc i) bs = Inr rest" "out = p # rest"
    by (cases "render_batches quote fs d (Suc i) bs") auto
  moreover have "rendered_from quote fs d b p"
    using p by (auto simp: render_batch_def rendered_from_def split: sum.splits option.splits)
  ultimately show ?case using Cons.IH by simp
qed simp

lemma write_all_stops:
  assumes "write_all fs rendered d = (Some e, d')"
  shows "\<exists>k dk err. k < length rendered \<and> write_all fs (take k rendered) d = (None, dk)
    \<and> fs_WriteFile fs (fst (rendered ! k)) (snd (rendered ! k)) dk = (Some err, d')
    \<and> e = wrap_err ''writing %s: %w'' [fst (rendered ! k)] err"
  using assms
proof (induction fs rendered d rule: write_all.induct)
  case (2 fs path newContent rest d)
  obtain r d1 where w: "fs_WriteFile fs path newContent d = (r, d1)" by force
  show ?case
  proof (cases r)
    case None
    from "2.IH" [OF w [symmetric] None] "2.prems" w None obtain k dk err where "k < length rest"
      "write_all fs (take k rest) d1 = (None, dk)" "fs_WriteFile fs (fst (rest ! k)) (snd (rest ! k)) dk = (Some err, d')"
      "e = wrap_err ''writing %s: %w'' [fst (rest ! k)] err" by auto
    with w None show ?thesis by (intro exI [of _ "Suc k"] exI [of _ dk] exI [of _ err]) simp
  next
    case (Some err)
    with w "2.prems" show ?thesis by (intro exI [of _ 0] exI [of _ d] exI [of _ err]) simp
  qed
qed simp


section \<open>Examples\<close>

text \<open>A disk of files by their path below the workspace.\<close>

definition alist_os :: "((string \<times> string) list) os_ops" where
  "alist_os = \<lparr>
    oo_ReadFile = (\<lambda>p d. case map_of d p of None \<Rightarrow> Inl (Errorf ''no such file'' []) | Some c \<Rightarrow> Inr c),
    oo_OpenFile = (\<lambda>p d. (None, AList.update p [] d)),
    oo_Write = (\<lambda>p c d. (None, AList.update p c d)),
    oo_MkdirAll = (\<lambda>p d. (None, d)),
    oo_RemoveAll = (\<lambda>p d. (None, filter (\<lambda>(q, _). q \<noteq> p) d)),
    oo_Rename = (\<lambda>p q d. (None, d)),
    oo_ReadExternal = (\<lambda>p d. Inl (Errorf ''no such file'' [])),
    oo_EvalSymlinks = (\<lambda>p d. None),
    oo_error = (\<lambda>e. [])\<rparr>"

abbreviation edit_of :: "string \<Rightarrow> string \<Rightarrow> file_edit" where
  "edit_of old new \<equiv> \<lparr>fe_OldText = old, fe_NewText = new\<rparr>"

theorem edits_validated_and_applied_witness:
  "validateEdits id ''one two'' [edit_of ''two'' ''2'', edit_of ''one'' ''1''] (\<lambda>i. []) = None
   \<and> applyEdits ''one two'' [edit_of ''two'' ''2'', edit_of ''one'' ''1''] = Inr ''1 2''
   \<and> (\<exists>es gs z. mset es = mset [edit_of ''two'' ''2'', edit_of ''one'' ''1''] \<and> length gs = length es
        \<and> ''one two'' = weave gs (map fe_OldText es) z \<and> ''1 2'' = weave gs (map fe_NewText es) z)"
proof -
  have v: "validateEdits id ''one two'' [edit_of ''two'' ''2'', edit_of ''one'' ''1''] (\<lambda>i. []) = None" by code_simp
  have r: "applyEdits ''one two'' [edit_of ''two'' ''2'', edit_of ''one'' ''1''] = Inr ''1 2''" by code_simp
  from edits_validated_and_applied [THEN conjunct2, THEN mp, OF v] v r show ?thesis unfolding r sum.case by blast
qed

text \<open>
  The check for duplicate paths compares the names as they are given: two names of one file pass
  it, both results are computed from the old content, and the second write loses the first edit.
\<close>

lemma aliased_paths_lose_edits:
  "EditFilesMulti id (Some (osFS alist_os \<lparr>of_dir = ''/w'', of_allowlist = []\<rparr>))
     [\<lparr>fb_Path = ''a'', fb_Edits = [edit_of ''x'' ''1'']\<rparr>, \<lparr>fb_Path = ''./a'', fb_Edits = [edit_of ''y'' ''2'']\<rparr>] [(''a'', ''xy'')]
   = (Inr ''Applied 2 edit(s) across 2 file(s)'', [(''a'', ''x2'')])"
  by code_simp

text \<open>Occurrences that overlap are counted once, so a text that stands at two places is accepted as unique.\<close>

lemma overlapping_occurrences_accepted:
  "EditFile id (Some (osFS alist_os \<lparr>of_dir = ''/w'', of_allowlist = []\<rparr>)) ''a'' ''aa'' ''b'' [(''a'', ''aaa'')] = (Inr ''OK'', [(''a'', ''ba'')])"
  by code_simp

end
