(* ===== verification/Managers.thy ===== *)
theory Managers
  imports Stores
begin

text \<open>
  Two contracts of the managers of tasks and todos.

  A \<open>backed_manager\<close> keeps its state in memory and in a repository; an operation that is not cut off
  in the middle leaves the two in agreement. In an \<open>exclusive_claim\<close> an entry is claimed by an
  operation that succeeds only while nobody holds it, and it is held until an operation frees it.
\<close>

locale backed_manager =
  fixes step :: "'o \<Rightarrow> 's \<Rightarrow> 's"
    and agrees :: "'s \<Rightarrow> bool"
    and whole :: "'s \<Rightarrow> 'o \<Rightarrow> bool"
  assumes step_agrees: "agrees s \<Longrightarrow> whole s x \<Longrightarrow> agrees (step x s)"
begin

lemma run_agrees: "agrees s \<Longrightarrow> on_run step whole s xs \<Longrightarrow> agrees (fold step xs s)"
  by (induction xs arbitrary: s) (simp_all add: step_agrees)

end

locale exclusive_claim =
  fixes step :: "'o \<Rightarrow> 's \<Rightarrow> 's"
    and held :: "'k \<Rightarrow> 's \<Rightarrow> bool"
    and claims :: "'k \<Rightarrow> 's \<Rightarrow> 'o \<Rightarrow> bool"
    and frees :: "'k \<Rightarrow> 'o \<Rightarrow> bool"
  assumes claim_free: "claims k s x \<Longrightarrow> \<not> held k s"
    and claim_holds: "claims k s x \<Longrightarrow> held k (step x s)"
    and held_step: "held k s \<Longrightarrow> \<not> frees k x \<Longrightarrow> held k (step x s)"
begin

lemma held_run: "held k s \<Longrightarrow> \<forall>x \<in> set xs. \<not> frees k x \<Longrightarrow> held k (fold step xs s)"
  by (induction xs arbitrary: s) (simp_all add: held_step)

theorem claimed_once:
  assumes "claims k s x" and "claims k (fold step (x # xs) s) y"
  shows "\<exists>z \<in> set xs. frees k z"
  using held_run [OF claim_holds [OF assms(1)], of xs] claim_free [OF assms(2)] by auto

end

end
