(* ===== verification/Task_Manager.thy ===== *)
theory Task_Manager
  imports Managers Flow_Model "HOL-Library.AList"
begin

text \<open>
  The task manager (\<open>internal/domain/task/task.go\<close>): tasks with a status and the tasks that block
  them, kept in a map and in a repository.

  The repository is an interface; its methods are the fields of \<open>task_repository\<close>, on a disk of any
  type. The map is an association list. An operation reads the clock once, as \<open>now\<close>, and holds the
  lock of the manager. Pointers to tasks are copied on the way in and out (\<open>cloneTask\<close>), so a task is a value.
\<close>

record file_task =
  ft_ID :: int
  ft_Subject :: string
  ft_Description :: string
  ft_Status :: string
  ft_CreatedAt :: int
  ft_UpdatedAt :: int
  ft_BlockedBy :: "int list"

record 'd task_repository =
  tr_LoadAll :: "'d \<Rightarrow> go_error + file_task list"
  tr_Save :: "file_task \<Rightarrow> 'd \<Rightarrow> go_error option \<times> 'd"
  tr_Delete :: "int \<Rightarrow> 'd \<Rightarrow> go_error option \<times> 'd"

type_synonym tasks = "(int \<times> file_task) list"

definition Status_Valid :: "string \<Rightarrow> bool" where
  "Status_Valid s \<longleftrightarrow> s \<in> set [''pending'', ''in_progress'', ''completed'']"

definition ParseStatus :: "string \<Rightarrow> go_error + string" where
  "ParseStatus raw = (if raw = [] then Inr [] else if \<not> Status_Valid raw then Inl (Errorf ''invalid task status: %s'' [raw]) else Inr raw)"

definition loadAll :: "'d task_repository option \<Rightarrow> 'd \<Rightarrow> tasks \<Rightarrow> tasks" where
  "loadAll repo d ts =
    (case repo of
       None \<Rightarrow> ts
     | Some r \<Rightarrow> (case tr_LoadAll r d of Inl e \<Rightarrow> ts | Inr loaded \<Rightarrow> foldl (\<lambda>ts t. AList.update (ft_ID t) t ts) ts loaded))"

definition NewManager :: "'d task_repository option \<Rightarrow> 'd \<Rightarrow> tasks" where
  "NewManager repo d = loadAll repo d []"

definition save_task :: "'d task_repository option \<Rightarrow> file_task \<Rightarrow> 'd \<Rightarrow> go_error option \<times> 'd" where
  "save_task repo t d = (case repo of None \<Rightarrow> (None, d) | Some r \<Rightarrow> tr_Save r t d)"

text \<open>The search for a free id ends, because the map is finite.\<close>

function next_id :: "tasks \<Rightarrow> int \<Rightarrow> int" where
  "next_id ts i = (if i \<in> fst ` set ts then next_id ts (i + 1) else i)"
  by pat_completeness auto
termination
proof (relation "measure (\<lambda>(ts, i). card {k \<in> fst ` set ts. i \<le> k})")
  fix ts :: tasks and i
  assume "i \<in> fst ` set ts"
  then have "i \<in> {k \<in> fst ` set ts. i \<le> k}" "i \<notin> {k \<in> fst ` set ts. i + 1 \<le> k}" by simp_all
  then have "{k \<in> fst ` set ts. i + 1 \<le> k} \<subset> {k \<in> fst ` set ts. i \<le> k}" by force
  then show "((ts, i + 1), ts, i) \<in> measure (\<lambda>(ts, i). card {k \<in> fst ` set ts. i \<le> k})"
    by (simp add: psubset_card_mono)
qed simp

declare next_id.simps [simp del]

definition not_found :: "int \<Rightarrow> go_error" where
  "not_found i = Errorf ''task not found: %d'' [itoa i]"

definition Create ::
  "'d task_repository option \<Rightarrow> int \<Rightarrow> string \<Rightarrow> string \<Rightarrow> tasks \<times> 'd \<Rightarrow> (go_error + file_task) \<times> tasks \<times> 'd" where
  "Create repo now subject description s =
    (let (ts, d) = s; i = next_id ts 1;
         t = \<lparr>ft_ID = i, ft_Subject = subject, ft_Description = description, ft_Status = ''pending'',
              ft_CreatedAt = now, ft_UpdatedAt = now, ft_BlockedBy = []\<rparr>
     in case save_task repo t d of
          (Some e, d1) \<Rightarrow> (Inl e, ts, d1)
        | (None, d1) \<Rightarrow> (Inr t, AList.update i t ts, d1))"

definition Get :: "int \<Rightarrow> tasks \<Rightarrow> go_error + file_task" where
  "Get i ts = (case map_of ts i of Some t \<Rightarrow> Inr t | None \<Rightarrow> Inl (not_found i))"

definition appendBlockedID :: "int list \<Rightarrow> int list \<Rightarrow> int \<Rightarrow> int list" where
  "appendBlockedID removeSet combined i = (if i \<in> set removeSet \<or> i \<in> set combined then combined else combined @ [i])"

definition blocked_err :: "tasks \<Rightarrow> int \<Rightarrow> int \<Rightarrow> go_error option" where
  "blocked_err ts taskID i =
    (if i = taskID then Some (Errorf ''task cannot be blocked by itself: %d'' [itoa taskID])
     else if i \<le> 0 then Some (Errorf ''invalid blocked_by task id: %d'' [itoa i])
     else if map_of ts i = None then Some (Errorf ''blocked_by task not found: %d'' [itoa i])
     else None)"

definition normalizeBlockedBy :: "tasks \<Rightarrow> int \<Rightarrow> int list \<Rightarrow> int list \<Rightarrow> int list \<Rightarrow> go_error + int list" where
  "normalizeBlockedBy ts taskID current addBlockedBy removeBlockedBy =
    (let combined = foldl (appendBlockedID removeBlockedBy) (foldl (appendBlockedID removeBlockedBy) [] current) addBlockedBy in
     case each (blocked_err ts taskID) combined of Some e \<Rightarrow> Inl e | None \<Rightarrow> Inr (sort combined))"

definition Update ::
  "'d task_repository option \<Rightarrow> int \<Rightarrow> int \<Rightarrow> string \<Rightarrow> int list \<Rightarrow> int list \<Rightarrow> tasks \<times> 'd \<Rightarrow> go_error option \<times> tasks \<times> 'd" where
  "Update repo now i status addBlockedBy removeBlockedBy s =
    (let (ts, d) = s in
     case map_of ts i of
       None \<Rightarrow> (Some (not_found i), ts, d)
     | Some t \<Rightarrow>
        (if status \<noteq> [] \<and> \<not> Status_Valid status then (Some (Errorf ''invalid task status: %s'' [status]), ts, d)
         else case normalizeBlockedBy ts i (ft_BlockedBy t) addBlockedBy removeBlockedBy of
           Inl e \<Rightarrow> (Some e, ts, d)
         | Inr blocked \<Rightarrow>
            (let u = t\<lparr>ft_Status := (if status \<noteq> [] then status else ft_Status t), ft_UpdatedAt := now, ft_BlockedBy := blocked\<rparr> in
             case save_task repo u d of
               (Some e, d1) \<Rightarrow> (Some e, ts, d1)
             | (None, d1) \<Rightarrow> (None, AList.update i u ts, d1))))"

definition task_list :: "tasks \<Rightarrow> file_task list" where
  "task_list ts = sort_key ft_ID (map snd ts)"

definition ClaimPending :: "'d task_repository option \<Rightarrow> int \<Rightarrow> int \<Rightarrow> tasks \<times> 'd \<Rightarrow> (go_error + file_task) \<times> tasks \<times> 'd" where
  "ClaimPending repo now i s =
    (let (ts, d) = s in
     case map_of ts i of
       None \<Rightarrow> (Inl (not_found i), ts, d)
     | Some t \<Rightarrow>
        (if ft_Status t \<noteq> ''pending'' then (Inl (Errorf ''task is not available for claiming (status: %s)'' [ft_Status t]), ts, d)
         else if ft_BlockedBy t \<noteq> [] then (Inl (Errorf ''task is blocked by dependencies'' []), ts, d)
         else let u = t\<lparr>ft_Status := ''in_progress'', ft_UpdatedAt := now\<rparr> in
           case save_task repo u d of
             (Some e, d1) \<Rightarrow> (Inl e, ts, d1)
           | (None, d1) \<Rightarrow> (Inr u, AList.update i u ts, d1)))"

definition removeBlockedByID :: "int list \<Rightarrow> int \<Rightarrow> int list \<times> bool" where
  "removeBlockedByID blockedBy target = (filter (\<lambda>b. b \<noteq> target) blockedBy, target \<in> set blockedBy)"

text \<open>The loop of \<open>Delete\<close>: the other tasks, without the deleted one among their blockers.\<close>

fun unblock_all :: "'d task_repository option \<Rightarrow> int \<Rightarrow> int \<Rightarrow> tasks \<Rightarrow> 'd \<Rightarrow> (go_error + tasks) \<times> 'd" where
  "unblock_all repo now i [] d = (Inr [], d)"
| "unblock_all repo now i ((k, t) # ts) d =
    (if k = i then unblock_all repo now i ts d
     else
       let (filtered, changed) = removeBlockedByID (ft_BlockedBy t) i;
           u = (if changed then t\<lparr>ft_BlockedBy := filtered, ft_UpdatedAt := now\<rparr> else t)
       in case (if changed then save_task repo u d else (None, d)) of
            (Some e, d1) \<Rightarrow> (Inl e, d1)
          | (None, d1) \<Rightarrow>
              (case unblock_all repo now i ts d1 of (r, d2) \<Rightarrow> (map_sum id (\<lambda>us. (k, u) # us) r, d2)))"

definition Delete :: "'d task_repository option \<Rightarrow> int \<Rightarrow> int \<Rightarrow> tasks \<times> 'd \<Rightarrow> go_error option \<times> tasks \<times> 'd" where
  "Delete repo now i s =
    (let (ts, d) = s in
     if map_of ts i = None then (Some (not_found i), ts, d)
     else case unblock_all repo now i ts d of
       (Inl e, d1) \<Rightarrow> (Some e, ts, d1)
     | (Inr us, d1) \<Rightarrow>
        (case (case repo of None \<Rightarrow> (None, d1) | Some r \<Rightarrow> tr_Delete r i d1) of
           (Some e, d2) \<Rightarrow> (Some e, ts, d2)
         | (None, d2) \<Rightarrow> (None, us, d2)))"

section \<open>Operations and runs\<close>

datatype task_op =
    OpCreate string string
  | OpUpdate int string "int list" "int list"
  | OpClaim int
  | OpDelete int

text \<open>What an operation reports, \<^const>\<open>None\<close> for success, and the state after it.\<close>

fun task_result :: "'d task_repository option \<Rightarrow> int \<times> task_op \<Rightarrow> tasks \<times> 'd \<Rightarrow> go_error option \<times> tasks \<times> 'd" where
  "task_result repo (now, OpCreate subject description) s =
    (case Create repo now subject description s of (r, s') \<Rightarrow> (case r of Inl e \<Rightarrow> Some e | Inr _ \<Rightarrow> None, s'))"
| "task_result repo (now, OpUpdate i status add remove) s = Update repo now i status add remove s"
| "task_result repo (now, OpClaim i) s =
    (case ClaimPending repo now i s of (r, s') \<Rightarrow> (case r of Inl e \<Rightarrow> Some e | Inr _ \<Rightarrow> None, s'))"
| "task_result repo (now, OpDelete i) s = Delete repo now i s"

definition task_step :: "'d task_repository option \<Rightarrow> int \<times> task_op \<Rightarrow> tasks \<times> 'd \<Rightarrow> tasks \<times> 'd" where
  "task_step repo x s = snd (task_result repo x s)"

section \<open>Well-formed tasks\<close>

text \<open>
  Every task is kept under its id, has a known status, and is blocked by a sorted list of different
  tasks that exist, itself not among them.
\<close>

definition task_ok :: "tasks \<Rightarrow> int \<Rightarrow> file_task \<Rightarrow> bool" where
  "task_ok ts k t \<longleftrightarrow> ft_ID t = k \<and> 0 < k \<and> Status_Valid (ft_Status t)
    \<and> sorted (ft_BlockedBy t) \<and> distinct (ft_BlockedBy t) \<and> (\<forall>b \<in> set (ft_BlockedBy t). b \<noteq> k \<and> b \<in> fst ` set ts)"

definition tasks_ok :: "tasks \<Rightarrow> bool" where
  "tasks_ok ts \<longleftrightarrow> distinct (map fst ts) \<and> list_all (\<lambda>(k, t). task_ok ts k t) ts"

lemma tasks_ok_iff:
  "tasks_ok ts \<longleftrightarrow> distinct (map fst ts) \<and> (\<forall>k t. map_of ts k = Some t \<longrightarrow> task_ok ts k t)"
proof (cases "distinct (map fst ts)")
  case True
  then show ?thesis by (auto simp: tasks_ok_def list_all_iff)
qed (simp add: tasks_ok_def)

lemma tasks_okD: "tasks_ok ts \<Longrightarrow> map_of ts k = Some t \<Longrightarrow> task_ok ts k t"
  by (simp add: tasks_ok_iff)

lemma keys_update: "fst ` set (AList.update k v ts) = insert k (fst ` set ts)"
  using dom_update [of k v ts] by (simp add: dom_map_of_conv_image_fst)

lemma update_ok:
  assumes "tasks_ok ts" and "task_ok (AList.update k u ts) k u"
  shows "tasks_ok (AList.update k u ts)"
  unfolding tasks_ok_iff
proof (intro conjI allI impI)
  show "distinct (map fst (AList.update k u ts))" using assms(1) by (simp add: tasks_ok_def distinct_update)
  fix j t assume "map_of (AList.update k u ts) j = Some t"
  then show "task_ok (AList.update k u ts) j t"
    using assms tasks_okD [OF assms(1), of j t]
    by (cases "j = k") (auto simp: update_conv task_ok_def keys_update)
qed

lemma next_id_free: "next_id ts i \<notin> fst ` set ts \<and> i \<le> next_id ts i"
proof (induction ts i rule: next_id.induct)
  case (1 ts i)
  then show ?case by (cases "i \<in> fst ` set ts") (auto simp: next_id.simps [of ts i])
qed

lemma appended_ids:
  "set (foldl (appendBlockedID rm) cs xs) = set cs \<union> (set xs - set rm)"
  "distinct cs \<Longrightarrow> distinct (foldl (appendBlockedID rm) cs xs)"
  by (induction xs arbitrary: cs) (auto simp: appendBlockedID_def)

lemma normalizeBlockedBy_ok:
  assumes "normalizeBlockedBy ts i cur add rm = Inr bs"
  shows "sorted bs \<and> distinct bs \<and> set bs = (set cur \<union> set add) - set rm \<and> (\<forall>b \<in> set bs. b \<noteq> i \<and> b \<in> fst ` set ts)"
proof -
  let ?c = "foldl (appendBlockedID rm) (foldl (appendBlockedID rm) [] cur) add"
  from assms have bs: "bs = sort ?c" "each (blocked_err ts i) ?c = None"
    by (auto simp: normalizeBlockedBy_def Let_def split: option.splits)
  have "b \<noteq> i \<and> b \<in> fst ` set ts" if "b \<in> set ?c" for b
  proof -
    from bs(2) that have "blocked_err ts i b = None" by (simp add: each_None)
    then show ?thesis by (auto simp: blocked_err_def map_of_eq_None_iff split: if_splits)
  qed
  moreover have "set ?c = (set cur \<union> set add) - set rm" "distinct ?c" by (auto simp: appended_ids)
  ultimately show ?thesis by (simp add: bs(1))
qed

text \<open>The tasks after a deletion.\<close>

definition unblocked :: "int \<Rightarrow> int \<Rightarrow> file_task \<Rightarrow> file_task" where
  "unblocked now i t =
    (if i \<in> set (ft_BlockedBy t) then t\<lparr>ft_BlockedBy := filter (\<lambda>b. b \<noteq> i) (ft_BlockedBy t), ft_UpdatedAt := now\<rparr> else t)"

lemma unblocked_fields [simp]: "ft_Status (unblocked now i t) = ft_Status t" "ft_ID (unblocked now i t) = ft_ID t"
  by (simp_all add: unblocked_def)

lemma unblock_all_ok:
  "unblock_all repo now i ts d = (Inr us, d') \<Longrightarrow>
    us = map (\<lambda>(k, t). (k, unblocked now i t)) (filter (\<lambda>(k, t). k \<noteq> i) ts)"
proof (induction ts arbitrary: d us)
  case (Cons p ts)
  obtain k t where p: "p = (k, t)" by force
  show ?case
  proof (cases "k = i")
    case False
    let ?u = "unblocked now i t"
    obtain r d1 where w: "(if i \<in> set (ft_BlockedBy t) then save_task repo ?u d else (None, d)) = (r, d1)" by force
    obtain q d2 where rest: "unblock_all repo now i ts d1 = (q, d2)" by force
    have "r = None" "\<exists>vs. q = Inr vs \<and> us = (k, ?u) # vs" "d2 = d'"
      using Cons.prems False w rest
      by (cases r; cases q; auto simp: p removeBlockedByID_def unblocked_def split: if_splits)+
    then show ?thesis using Cons.IH rest False by (auto simp: p)
  qed (use Cons p in auto)
qed simp

lemma map_of_unblocked:
  "map_of (map (\<lambda>(k, t). (k, unblocked now i t)) (filter (\<lambda>(k, t). k \<noteq> i) ts)) k =
    (if k = i then None else map_option (unblocked now i) (map_of ts k))"
  by (induction ts) auto

lemma unblocked_ok:
  assumes "task_ok ts j t" and "fst ` set us = fst ` set ts - {i}"
  shows "task_ok us j (unblocked now i t)"
  using assms(1) unfolding task_ok_def assms(2) unblocked_def by (auto simp: sorted_filter [of "\<lambda>x. x", simplified])

lemma deleted_ok:
  assumes "tasks_ok ts"
  shows "tasks_ok (map (\<lambda>(k, t). (k, unblocked now i t)) (filter (\<lambda>(k, t). k \<noteq> i) ts))" (is "tasks_ok ?us")
  unfolding tasks_ok_iff
proof (intro conjI allI impI)
  have k: "map fst ?us = filter (\<lambda>k. k \<noteq> i) (map fst ts)" by (induction ts) auto
  show "distinct (map fst ?us)" using assms unfolding k by (simp add: tasks_ok_def)
  fix j u assume "map_of ?us j = Some u"
  then obtain t where t: "map_of ts j = Some t" "u = unblocked now i t" "j \<noteq> i"
    unfolding map_of_unblocked by (auto split: if_splits)
  have "fst ` set ?us = set (map fst ?us)" by (simp only: set_map)
  then have keys: "fst ` set ?us = fst ` set ts - {i}" unfolding k by auto
  show "task_ok ?us j u" unfolding t(2) by (rule unblocked_ok [OF tasks_okD [OF assms t(1)] keys])
qed

lemma Create_ok: "tasks_ok ts \<Longrightarrow> Create repo now a b (ts, d) = (r, ts', d') \<Longrightarrow> tasks_ok ts'"
  using next_id_free [of ts 1]
  by (auto simp: Create_def Let_def task_ok_def Status_Valid_def intro!: update_ok split: prod.splits option.splits)

lemma Update_ok:
  assumes "tasks_ok ts" and "Update repo now i status add rm (ts, d) = (r, ts', d')"
  shows "tasks_ok ts'"
proof (cases "ts' = ts")
  case False
  then obtain t bs where t: "map_of ts i = Some t" "normalizeBlockedBy ts i (ft_BlockedBy t) add rm = Inr bs"
    "status \<noteq> [] \<longrightarrow> Status_Valid status"
    "ts' = AList.update i (t\<lparr>ft_Status := (if status \<noteq> [] then status else ft_Status t), ft_UpdatedAt := now, ft_BlockedBy := bs\<rparr>) ts"
    using assms(2) by (auto simp: Update_def Let_def split: prod.splits option.splits sum.splits if_splits)
  show ?thesis
    unfolding t(4) using normalizeBlockedBy_ok [OF t(2)] tasks_okD [OF assms(1) t(1)] t(3)
    by (intro update_ok [OF assms(1)]) (auto simp: task_ok_def keys_update)
qed (use assms(1) in simp)

lemma ClaimPending_cases:
  assumes "ClaimPending repo now i (ts, d) = (r, ts', d')"
  obtains (refused) e where "r = Inl e" "ts' = ts"
  | (claimed) t where "map_of ts i = Some t" "ft_Status t = ''pending''" "ft_BlockedBy t = []"
      "r = Inr (t\<lparr>ft_Status := ''in_progress'', ft_UpdatedAt := now\<rparr>)"
      "ts' = AList.update i (t\<lparr>ft_Status := ''in_progress'', ft_UpdatedAt := now\<rparr>) ts"
  using assms by (auto simp: ClaimPending_def Let_def split: prod.splits option.splits if_splits)

lemma Delete_cases:
  assumes "Delete repo now i (ts, d) = (r, ts', d')"
  obtains (refused) e where "r = Some e" "ts' = ts"
  | (deleted) "r = None" "ts' = map (\<lambda>(k, t). (k, unblocked now i t)) (filter (\<lambda>(k, t). k \<noteq> i) ts)"
  using assms unblock_all_ok [of repo now i ts d]
  by (auto simp: Delete_def Let_def split: prod.splits option.splits sum.splits if_splits)

lemma task_step_ok:
  assumes "tasks_ok (fst s)"
  shows "tasks_ok (fst (task_step repo x s))"
proof -
  obtain ts d where s: "s = (ts, d)" by force
  obtain now op where x: "x = (now, op)" by force
  show ?thesis
  proof (cases op)
    case (OpCreate a b)
    obtain r ts' d' where c: "Create repo now a b (ts, d) = (r, ts', d')" by (metis prod_cases3)
    with Create_ok [OF _ c] assms show ?thesis by (simp add: task_step_def s x OpCreate)
  next
    case (OpUpdate i st add rm)
    obtain r ts' d' where c: "Update repo now i st add rm (ts, d) = (r, ts', d')" by (metis prod_cases3)
    with Update_ok [OF _ c] assms show ?thesis by (simp add: task_step_def s x OpUpdate)
  next
    case (OpClaim i)
    obtain r ts' d' where c: "ClaimPending repo now i (ts, d) = (r, ts', d')" by (metis prod_cases3)
    from c have "tasks_ok ts'"
    proof (cases rule: ClaimPending_cases)
      case (claimed t)
      show ?thesis unfolding claimed(5) using assms tasks_okD [OF _ claimed(1)] s
        by (intro update_ok) (auto simp: task_ok_def keys_update Status_Valid_def)
    qed (use assms s in simp)
    with c show ?thesis by (simp add: task_step_def s x OpClaim)
  next
    case (OpDelete i)
    obtain r ts' d' where c: "Delete repo now i (ts, d) = (r, ts', d')" by (metis prod_cases3)
    from c have "tasks_ok ts'" using assms deleted_ok by (cases rule: Delete_cases) (auto simp: s)
    with c show ?thesis by (simp add: task_step_def s x OpDelete)
  qed
qed

lemma task_run_ok: "tasks_ok (fst s) \<Longrightarrow> tasks_ok (fst (fold (task_step repo) xs s))"
  by (induction xs arbitrary: s) (simp_all add: task_step_ok)

section \<open>Claims\<close>

definition task_held :: "int \<Rightarrow> tasks \<times> 'd \<Rightarrow> bool" where
  "task_held i s \<longleftrightarrow> (case map_of (fst s) i of None \<Rightarrow> False | Some t \<Rightarrow> ft_Status t \<noteq> ''pending'')"

definition task_claimed :: "'d task_repository option \<Rightarrow> int \<Rightarrow> tasks \<times> 'd \<Rightarrow> int \<times> task_op \<Rightarrow> bool" where
  "task_claimed repo i s x \<longleftrightarrow> snd x = OpClaim i \<and> fst (task_result repo x s) = None"

text \<open>The operations that make a task claimable again, or another task of the same id possible.\<close>

fun task_freed :: "int \<Rightarrow> int \<times> task_op \<Rightarrow> bool" where
  "task_freed i (now, OpUpdate j status add remove) = (j = i \<and> status = ''pending'')"
| "task_freed i (now, OpDelete j) = (j = i)"
| "task_freed i (now, _) = False"

lemma claim_cases:
  assumes "task_claimed repo i s x"
  shows "\<not> task_held i s \<and> task_held i (task_step repo x s)"
proof -
  obtain ts d where s: "s = (ts, d)" by force
  obtain now where x: "x = (now, OpClaim i)" using assms by (cases x) (auto simp: task_claimed_def)
  obtain r ts' d' where c: "ClaimPending repo now i (ts, d) = (r, ts', d')" by (metis prod_cases3)
  from c show ?thesis
  proof (cases rule: ClaimPending_cases)
    case (refused e)
    with assms c show ?thesis by (simp add: task_claimed_def x s)
  next
    case (claimed t)
    with c show ?thesis by (simp add: task_held_def task_step_def x s update_conv)
  qed
qed

lemma held_kept:
  assumes "task_held i s" and "\<not> task_freed i x"
  shows "task_held i (task_step repo x s)"
proof -
  obtain ts d where s: "s = (ts, d)" by force
  obtain now op where x: "x = (now, op)" by force
  obtain t where t: "map_of ts i = Some t" "ft_Status t \<noteq> ''pending''"
    using assms(1) by (auto simp: task_held_def s split: option.splits)
  show ?thesis
  proof (cases op)
    case (OpCreate a b)
    have "next_id ts 1 \<noteq> i" using next_id_free [of ts 1] t(1) by (metis map_of_eq_None_iff option.distinct(1))
    then show ?thesis using t
      by (auto simp: task_held_def task_step_def s x OpCreate Create_def Let_def update_conv split: prod.splits option.splits)
  next
    case (OpUpdate j st add rm)
    then show ?thesis using t assms(2)
      by (auto simp: task_held_def task_step_def s x Update_def Let_def update_conv split: prod.splits option.splits sum.splits)
  next
    case (OpClaim j)
    obtain r ts' d' where c: "ClaimPending repo now j (ts, d) = (r, ts', d')" by (metis prod_cases3)
    from c have "task_held i (ts', d')" using t by (cases rule: ClaimPending_cases) (auto simp: task_held_def update_conv)
    with c show ?thesis by (simp add: task_step_def s x OpClaim)
  next
    case (OpDelete j)
    then have "j \<noteq> i" using assms(2) x by simp
    obtain r ts' d' where c: "Delete repo now j (ts, d) = (r, ts', d')" by (metis prod_cases3)
    from c have "task_held i (ts', d')"
      using t \<open>j \<noteq> i\<close> by (cases rule: Delete_cases) (simp_all add: task_held_def map_of_unblocked)
    with c show ?thesis by (simp add: task_step_def s x OpDelete)
  qed
qed

interpretation task_claims: exclusive_claim "task_step repo" task_held "task_claimed repo" task_freed for repo
  using claim_cases held_kept by unfold_locales blast+

section \<open>The repository\<close>

text \<open>
  What a repository promises: a saved task is loaded again under its id, a deleted one is not, and
  a method that fails has changed nothing.
\<close>

definition contents :: "'d task_repository \<Rightarrow> 'd \<Rightarrow> (int \<Rightarrow> file_task option) option" where
  "contents r d = (case tr_LoadAll r d of Inl e \<Rightarrow> None | Inr ts \<Rightarrow> Some (map_of (rev (map (\<lambda>t. (ft_ID t, t)) ts))))"

definition repository_ok :: "'d task_repository \<Rightarrow> bool" where
  "repository_ok r \<longleftrightarrow>
    (\<forall>t d m d' e. contents r d = Some m \<longrightarrow>
      (tr_Save r t d = (None, d') \<longrightarrow> contents r d' = Some (m(ft_ID t \<mapsto> t))) \<and> (tr_Save r t d = (Some e, d') \<longrightarrow> d' = d)) \<and>
    (\<forall>i d m d' e. contents r d = Some m \<longrightarrow>
      (tr_Delete r i d = (None, d') \<longrightarrow> contents r d' = Some (m(i := None))) \<and> (tr_Delete r i d = (Some e, d') \<longrightarrow> d' = d))"

lemma repositoryD:
  assumes "repository_ok r" and "contents r d = Some m"
  shows "tr_Save r t d = (None, d') \<Longrightarrow> contents r d' = Some (m(ft_ID t \<mapsto> t))" "tr_Save r t d = (Some e, d') \<Longrightarrow> d' = d"
    "tr_Delete r i d = (None, d') \<Longrightarrow> contents r d' = Some (m(i := None))" "tr_Delete r i d = (Some e, d') \<Longrightarrow> d' = d"
  using assms unfolding repository_ok_def by blast+

lemma map_of_loaded: "map_of (foldl (\<lambda>ts t. AList.update (ft_ID t) t ts) ts xs) = map_of ts ++ map_of (rev (map (\<lambda>t. (ft_ID t, t)) xs))"
  by (induction xs arbitrary: ts) (auto simp: update_conv' map_add_def fun_eq_iff split: option.splits)

lemma map_of_NewManager: "contents r d = Some m \<Longrightarrow> map_of (NewManager (Some r) d) = m"
  by (auto simp: contents_def NewManager_def loadAll_def map_of_loaded split: sum.splits)

lemma unblock_all_saved:
  assumes "repository_ok r" and "contents r d = Some m" and "unblock_all (Some r) now i ts d = (Inr us, d')"
    and "distinct (map fst ts)" and "\<forall>(k, t) \<in> set ts. ft_ID t = k \<and> m k = Some t"
  shows "contents r d' = Some (m ++ map_of us)"
  using assms(2-5)
proof (induction ts arbitrary: d m us)
  case (Cons p ts)
  obtain k t where p: "p = (k, t)" by force
  have kt: "ft_ID t = k" "m k = Some t" "k \<notin> fst ` set ts" using Cons.prems(3,4) by (auto simp: p)
  show ?case
  proof (cases "k = i")
    case False
    let ?u = "unblocked now i t"
    obtain w d1 where w: "(if i \<in> set (ft_BlockedBy t) then save_task (Some r) ?u d else (None, d)) = (w, d1)" by force
    obtain q d2 where rest: "unblock_all (Some r) now i ts d1 = (q, d2)" by force
    have "w = None" "\<exists>vs. q = Inr vs \<and> us = (k, ?u) # vs" "d2 = d'"
      using Cons.prems(2) False w rest
      by (cases w; cases q; auto simp: p removeBlockedByID_def unblocked_def split: if_splits)+
    then obtain vs where vs: "w = None" "unblock_all (Some r) now i ts d1 = (Inr vs, d')" "us = (k, ?u) # vs" using rest by auto
    have "contents r d1 = Some (m(k \<mapsto> ?u))"
    proof (cases "i \<in> set (ft_BlockedBy t)")
      case True
      with w vs(1) have "tr_Save r ?u d = (None, d1)" by (simp add: save_task_def)
      from repositoryD(1) [OF assms(1) Cons.prems(1) this] kt(1) show ?thesis by (simp add: unblocked_def split: if_splits)
    next
      case False
      with w have "d1 = d" "?u = t" by (auto simp: unblocked_def)
      with Cons.prems(1) kt(2) show ?thesis by (simp add: fun_upd_idem)
    qed
    moreover have "distinct (map fst ts)" using Cons.prems(3) by simp
    moreover have "\<forall>(j, v) \<in> set ts. ft_ID v = j \<and> (m(k \<mapsto> ?u)) j = Some v"
    proof (intro ballI)
      fix x assume x: "x \<in> set ts"
      obtain j v where jv: "x = (j, v)" by force
      have "j \<noteq> k" using x kt(3) unfolding jv by (metis fst_conv image_eqI)
      moreover have "ft_ID v = j \<and> m j = Some v" using Cons.prems(4) x unfolding jv by auto
      ultimately show "case x of (j, v) \<Rightarrow> ft_ID v = j \<and> (m(k \<mapsto> ?u)) j = Some v" unfolding jv by simp
    qed
    ultimately have "contents r d' = Some (m(k \<mapsto> ?u) ++ map_of vs)" using Cons.IH vs(2) by blast
    moreover have "map_of vs k = None"
      unfolding unblock_all_ok [OF vs(2)] map_of_unblocked using kt(3) False by (simp add: map_of_eq_None_iff)
    ultimately show ?thesis unfolding vs(3) by (auto simp: map_add_def fun_eq_iff split: option.splits)
  qed (use Cons p in auto)
qed simp

text \<open>A deletion that was cut off: it found the task and failed.\<close>

definition cut_off :: "'d task_repository option \<Rightarrow> tasks \<times> 'd \<Rightarrow> int \<times> task_op \<Rightarrow> bool" where
  "cut_off repo s x \<longleftrightarrow> (case snd x of OpDelete i \<Rightarrow> map_of (fst s) i \<noteq> None \<and> fst (task_result repo x s) \<noteq> None | _ \<Rightarrow> False)"

definition task_agrees :: "'d task_repository \<Rightarrow> tasks \<times> 'd \<Rightarrow> bool" where
  "task_agrees r s \<longleftrightarrow> tasks_ok (fst s) \<and> (repository_ok r \<longrightarrow> contents r (snd s) = Some (map_of (fst s)))"

lemma saved_agrees:
  assumes "repository_ok r" and "contents r d = Some (map_of ts)" and "save_task (Some r) u d = (w, d1)" and "ft_ID u = i"
  shows "contents r d1 = Some (map_of (case w of None \<Rightarrow> AList.update i u ts | Some e \<Rightarrow> ts))"
proof (cases w)
  case None
  with repositoryD(1) [OF assms(1,2), of u d1] assms(3,4) show ?thesis by (simp add: save_task_def update_conv')
next
  case (Some e)
  with repositoryD(2) [OF assms(1,2), of u e d1] assms(2,3) show ?thesis by (simp add: save_task_def)
qed

lemma delete_agrees:
  assumes r: "repository_ok r" and c: "contents r d = Some (map_of ts)" and ok: "tasks_ok ts"
    and del: "Delete (Some r) now i (ts, d) = (w, ts', d')" and "w = None \<or> map_of ts i = None"
  shows "contents r d' = Some (map_of ts')"
proof (cases "map_of ts i = None")
  case True
  with del c show ?thesis by (simp add: Delete_def)
next
  case False
  with assms(5) have "w = None" by simp
  with del False obtain us d1 where u: "unblock_all (Some r) now i ts d = (Inr us, d1)" "tr_Delete r i d1 = (None, d')" "ts' = us"
    by (auto simp: Delete_def split: prod.splits sum.splits option.splits if_splits)
  have "\<forall>(k, t) \<in> set ts. ft_ID t = k \<and> map_of ts k = Some t"
    using ok by (auto simp: tasks_ok_def list_all_iff task_ok_def)
  then have "contents r d1 = Some (map_of ts ++ map_of us)"
    using unblock_all_saved [OF r c u(1)] ok by (simp add: tasks_ok_def)
  from repositoryD(3) [OF r this u(2)] have "contents r d' = Some ((map_of ts ++ map_of us)(i := None))" .
  moreover have "(map_of ts ++ map_of us)(i := None) = map_of us"
    unfolding unblock_all_ok [OF u(1)] by (auto simp: fun_eq_iff map_add_def map_of_unblocked split: option.splits)
  ultimately show ?thesis by (simp add: u(3))
qed

lemma task_step_agrees:
  assumes "task_agrees r s" and "\<not> cut_off (Some r) s x"
  shows "task_agrees r (task_step (Some r) x s)"
  unfolding task_agrees_def
proof (intro conjI impI)
  show "tasks_ok (fst (task_step (Some r) x s))" using assms(1) by (simp add: task_step_ok task_agrees_def)
  assume r: "repository_ok r"
  obtain ts d where s: "s = (ts, d)" by force
  obtain now op where x: "x = (now, op)" by force
  have c: "contents r d = Some (map_of ts)" and ok: "tasks_ok ts" using assms(1) r by (simp_all add: task_agrees_def s)
  note saved = saved_agrees [OF r c]
  have id: "ft_ID t = i" if "map_of ts i = Some t" for t i using tasks_okD [OF ok that] by (simp add: task_ok_def)
  show "contents r (snd (task_step (Some r) x s)) = Some (map_of (fst (task_step (Some r) x s)))"
  proof (cases op)
    case (OpCreate a b)
    then show ?thesis by (auto simp: task_step_def s x Create_def Let_def dest!: saved split: prod.splits option.splits)
  next
    case (OpUpdate i st add rm)
    then show ?thesis using c
      by (auto simp: task_step_def s x Update_def Let_def id dest!: saved split: prod.splits option.splits sum.splits)
  next
    case (OpClaim i)
    then show ?thesis using c
      by (auto simp: task_step_def s x ClaimPending_def Let_def id dest!: saved split: prod.splits option.splits)
  next
    case (OpDelete i)
    obtain w ts' d' where del: "Delete (Some r) now i (ts, d) = (w, ts', d')" by (metis prod_cases3)
    with assms(2) have "w = None \<or> map_of ts i = None" by (auto simp: cut_off_def s x OpDelete)
    from delete_agrees [OF r c ok del this] del show ?thesis by (simp add: task_step_def s x OpDelete)
  qed
qed

interpretation task_backing: backed_manager "task_step (Some r)" "task_agrees r" "\<lambda>s x. \<not> cut_off (Some r) s x" for r
  using task_step_agrees by unfold_locales blast

text \<open>
  C38. A run of the task manager, from tasks loaded from its repository. Every task keeps a known
  status and a sorted list of different blockers that exist and are not the task itself, whatever
  the operations are and whatever of them fails. And the repository agrees with the memory: a manager
  that is started afterwards finds every task as it is in memory, unless a deletion was cut off in the middle.
\<close>
theorem tasks_kept_and_reloaded:
  assumes "tasks_ok (NewManager (Some r) d)" and "fold (task_step (Some r)) xs (NewManager (Some r) d, d) = (ts, d')"
  shows "tasks_ok ts \<and>
    (repository_ok r \<and> contents r d \<noteq> None \<and> on_run (task_step (Some r)) (\<lambda>s x. \<not> cut_off (Some r) s x) (NewManager (Some r) d, d) xs
      \<longrightarrow> (\<forall>i. Get i (NewManager (Some r) d') = Get i ts))"
proof (intro conjI impI)
  show "tasks_ok ts" using task_run_ok [of "(NewManager (Some r) d, d)" "Some r" xs] assms by simp
  assume h: "repository_ok r \<and> contents r d \<noteq> None
    \<and> on_run (task_step (Some r)) (\<lambda>s x. \<not> cut_off (Some r) s x) (NewManager (Some r) d, d) xs"
  then have "task_agrees r (NewManager (Some r) d, d)" using assms(1) map_of_NewManager [of r d] by (auto simp: task_agrees_def)
  from task_backing.run_agrees [OF this, of xs] h assms(2) have "contents r d' = Some (map_of ts)" by (simp add: task_agrees_def)
  then show "\<forall>i. Get i (NewManager (Some r) d') = Get i ts" by (simp add: Get_def map_of_NewManager)
qed

text \<open>
  C39. A task is claimed by one caller at a time: between two successful claims of a task, in any run
  and with any failures of the repository, it was deleted or set back to pending.
\<close>
theorem task_claimed_once:
  assumes "task_claimed repo i s x" and "task_claimed repo i (fold (task_step repo) (x # xs) s) y"
  shows "\<exists>z \<in> set xs. task_freed i z"
  using task_claims.claimed_once [OF assms] .

section \<open>Examples\<close>

text \<open>A repository that keeps a list of tasks and fails to save the tasks with a given id.\<close>

definition list_repository :: "int \<Rightarrow> file_task list task_repository" where
  "list_repository bad = \<lparr>
    tr_LoadAll = (\<lambda>d. Inr d),
    tr_Save = (\<lambda>t d. if ft_ID t = bad then (Some (Errorf ''disk full'' []), d) else (None, d @ [t])),
    tr_Delete = (\<lambda>i d. (None, filter (\<lambda>t. ft_ID t \<noteq> i) d))\<rparr>"

lemma list_repository_ok: "repository_ok (list_repository bad)"
proof -
  have "map_of (rev (map (\<lambda>t. (ft_ID t, t)) (filter (\<lambda>t. ft_ID t \<noteq> i) d))) = (map_of (rev (map (\<lambda>t. (ft_ID t, t)) d)))(i := None)" for i d
    by (induction d rule: rev_induct) (auto simp: fun_eq_iff)
  then show ?thesis by (auto simp: repository_ok_def contents_def list_repository_def split: if_splits)
qed

definition task_demo :: "(int \<times> task_op) list" where
  "task_demo = [(1, OpCreate ''a'' []), (2, OpCreate ''b'' []), (3, OpUpdate 2 [] [1] []), (4, OpClaim 1), (5, OpClaim 2),
    (6, OpDelete 1), (7, OpClaim 2)]"

theorem tasks_kept_and_reloaded_witness:
  "(case fold (task_step (Some (list_repository 0))) task_demo ([], []) of
      (ts, d) \<Rightarrow> map ft_Status (task_list ts) = [''in_progress''] \<and> tasks_ok ts \<and> (\<forall>i. Get i (NewManager (Some (list_repository 0)) d) = Get i ts))"
proof -
  let ?r = "list_repository 0"
  have n: "NewManager (Some ?r) [] = []" by (simp add: NewManager_def loadAll_def list_repository_def)
  obtain ts d where f: "fold (task_step (Some ?r)) task_demo ([], []) = (ts, d)" by force
  have "map ft_Status (task_list (fst (fold (task_step (Some ?r)) task_demo ([], [])))) = [''in_progress'']"
    "on_run (task_step (Some ?r)) (\<lambda>s x. \<not> cut_off (Some ?r) s x) ([], []) task_demo" by code_simp+
  moreover have "contents ?r [] \<noteq> None" "tasks_ok []" by (simp_all add: contents_def list_repository_def tasks_ok_def)
  ultimately show ?thesis
    using tasks_kept_and_reloaded [of ?r "[]" task_demo ts d] f list_repository_ok [of 0] unfolding n by simp
qed

theorem task_claimed_once_witness:
  "\<exists>z \<in> set [(5, OpUpdate 1 ''pending'' [] [])]. task_freed 1 z"
proof (rule task_claimed_once [of None 1 "fold (task_step None) [(1, OpCreate ''a'' [])] ([], ())" "(4, OpClaim 1)" _ "(6, OpClaim 1)"])
  show "task_claimed None 1 (fold (task_step None) [(1, OpCreate ''a'' [])] ([], ())) (4, OpClaim 1)" by code_simp
  show "task_claimed None 1 (fold (task_step None) ((4, OpClaim 1) # [(5, OpUpdate 1 ''pending'' [] [])])
    (fold (task_step None) [(1, OpCreate ''a'' [])] ([], ()))) (6, OpClaim 1)" by code_simp
qed

text \<open>
  A deletion whose second save fails leaves the repository without the blocker in the first task,
  while the memory, and the answer, say that nothing was deleted.
\<close>

lemma cut_off_deletion_diverges:
  "let r = Some (list_repository 3);
       blocked = (\<lambda>i b. \<lparr>ft_ID = i, ft_Subject = [], ft_Description = [], ft_Status = ''pending'', ft_CreatedAt = 0, ft_UpdatedAt = 0, ft_BlockedBy = b\<rparr>);
       d = [blocked 1 [], blocked 2 [1], blocked 3 [1]];
       (e, ts, d') = Delete r 9 1 (NewManager r d, d)
   in e \<noteq> None \<and> map ft_BlockedBy (task_list ts) = [[], [1], [1]] \<and> map ft_BlockedBy (task_list (NewManager r d')) = [[], [], [1]]"
  by code_simp

text \<open>Two tasks may block each other: neither can be claimed.\<close>

lemma tasks_block_each_other:
  "map (\<lambda>x. fst (task_result None x (fold (task_step None) [(1, OpCreate [] []), (2, OpCreate [] []),
      (3, OpUpdate 1 [] [2] []), (4, OpUpdate 2 [] [1] [])] ([], ())))) [(5, OpClaim 1), (5, OpClaim 2)]
   = replicate 2 (Some (Errorf ''task is blocked by dependencies'' []))"
  by code_simp

end
