(* ===== verification/Todo_Manager.thy ===== *)
theory Todo_Manager
  imports Managers Flow_Model
begin

text \<open>
  The todo manager (\<open>internal/domain/todo/todo.go\<close>): a list of items with increasing ids, saved as
  a whole in a repository before it changes in memory. The repository is an interface, on a disk
  of any type; times are numbers, 0 the zero time, and an operation reads the clock once.
\<close>

record todo_item =
  ti_ID :: int
  ti_Content :: string
  ti_Status :: string
  ti_ActiveForm :: string
  ti_CreatedAt :: int
  ti_UpdatedAt :: int

record 'd todo_repository =
  tp_Load :: "'d \<Rightarrow> go_error + todo_item list"
  tp_Save :: "todo_item list \<Rightarrow> 'd \<Rightarrow> go_error option \<times> 'd"

record todo_manager =
  tm_items :: "todo_item list"
  tm_nextID :: int

definition next_after :: "int \<Rightarrow> todo_item \<Rightarrow> int" where
  "next_after n item = (if ti_ID item \<ge> n then wrap64 (ti_ID item + 1) else n)"

definition load_todos :: "'d todo_repository option \<Rightarrow> 'd \<Rightarrow> todo_manager \<Rightarrow> todo_manager" where
  "load_todos repo d m =
    (case repo of
       None \<Rightarrow> m
     | Some r \<Rightarrow>
        (case tp_Load r d of
           Inl e \<Rightarrow> m
         | Inr items \<Rightarrow> \<lparr>tm_items = items, tm_nextID = foldl next_after (tm_nextID m) items\<rparr>))"

definition NewTodos :: "'d todo_repository option \<Rightarrow> 'd \<Rightarrow> todo_manager" where
  "NewTodos repo d = load_todos repo d \<lparr>tm_items = [], tm_nextID = 1\<rparr>"

definition persist :: "'d todo_repository option \<Rightarrow> todo_item list \<Rightarrow> 'd \<Rightarrow> go_error option \<times> 'd" where
  "persist repo items d = (case repo of None \<Rightarrow> (None, d) | Some r \<Rightarrow> tp_Save r items d)"

definition Todo_Add ::
  "'d todo_repository option \<Rightarrow> int \<Rightarrow> string \<Rightarrow> string \<Rightarrow> todo_manager \<times> 'd \<Rightarrow> (go_error + todo_item) \<times> todo_manager \<times> 'd" where
  "Todo_Add repo now content activeText s =
    (let (m, d) = s;
         item = \<lparr>ti_ID = tm_nextID m, ti_Content = content, ti_Status = ''pending'', ti_ActiveForm = activeText,
                 ti_CreatedAt = now, ti_UpdatedAt = now\<rparr>;
         updated = tm_items m @ [item]
     in case persist repo updated d of
          (Some e, d1) \<Rightarrow> (Inl e, m, d1)
        | (None, d1) \<Rightarrow> (Inr item, \<lparr>tm_items = updated, tm_nextID = wrap64 (tm_nextID m + 1)\<rparr>, d1))"

definition todo_not_found :: "int \<Rightarrow> go_error" where
  "todo_not_found i = Errorf ''todo not found: %d'' [itoa i]"

text \<open>The first item with the id gets the status; \<^const>\<open>None\<close> when there is none.\<close>

fun set_status :: "int \<Rightarrow> int \<Rightarrow> string \<Rightarrow> todo_item list \<Rightarrow> (todo_item \<times> todo_item list) option" where
  "set_status now i status [] = None"
| "set_status now i status (item # items) =
    (if ti_ID item = i
     then Some (let u = item\<lparr>ti_Status := status, ti_UpdatedAt := now\<rparr> in (u, u # items))
     else map_option (\<lambda>(u, us). (u, item # us)) (set_status now i status items))"

definition Todo_Update ::
  "'d todo_repository option \<Rightarrow> int \<Rightarrow> int \<Rightarrow> string \<Rightarrow> todo_manager \<times> 'd \<Rightarrow> (go_error + todo_item) \<times> todo_manager \<times> 'd" where
  "Todo_Update repo now i status s =
    (let (m, d) = s in
     case set_status now i status (tm_items m) of
       None \<Rightarrow> (Inl (todo_not_found i), m, d)
     | Some (u, updated) \<Rightarrow>
        (case persist repo updated d of
           (Some e, d1) \<Rightarrow> (Inl e, m, d1)
         | (None, d1) \<Rightarrow> (Inr u, m\<lparr>tm_items := updated\<rparr>, d1)))"

definition Todo_Delete :: "'d todo_repository option \<Rightarrow> int \<Rightarrow> int \<Rightarrow> todo_manager \<times> 'd \<Rightarrow> go_error option \<times> todo_manager \<times> 'd" where
  "Todo_Delete repo now i s =
    (let (m, d) = s in
     case set_status now i ''deleted'' (tm_items m) of
       None \<Rightarrow> (Some (todo_not_found i), m, d)
     | Some (u, updated) \<Rightarrow>
        (case persist repo updated d of
           (Some e, d1) \<Rightarrow> (Some e, m, d1)
         | (None, d1) \<Rightarrow> (None, m\<lparr>tm_items := updated\<rparr>, d1)))"

definition renumber :: "int \<Rightarrow> nat \<times> todo_item \<Rightarrow> todo_item" where
  "renumber now = (\<lambda>(i, item). item\<lparr>ti_ID := int i + 1,
     ti_CreatedAt := (if ti_CreatedAt item = 0 then now else ti_CreatedAt item),
     ti_UpdatedAt := (if ti_UpdatedAt item = 0 then now else ti_UpdatedAt item)\<rparr>)"

definition Todo_Replace ::
  "'d todo_repository option \<Rightarrow> int \<Rightarrow> todo_item list \<Rightarrow> todo_manager \<times> 'd \<Rightarrow> (go_error + todo_item list) \<times> todo_manager \<times> 'd" where
  "Todo_Replace repo now items s =
    (let (m, d) = s; replaced = map (renumber now) (enumerate 0 items) in
     case persist repo replaced d of
       (Some e, d1) \<Rightarrow> (Inl e, m, d1)
     | (None, d1) \<Rightarrow> (Inr replaced, \<lparr>tm_items = replaced, tm_nextID = int (length replaced) + 1\<rparr>, d1))"

definition Todo_Reset :: "'d todo_repository option \<Rightarrow> todo_manager \<times> 'd \<Rightarrow> go_error option \<times> todo_manager \<times> 'd" where
  "Todo_Reset repo s =
    (let (m, d) = s in
     case persist repo [] d of
       (Some e, d1) \<Rightarrow> (Some (Wrapf ''reset todos: %w'' [] e), m, d1)
     | (None, d1) \<Rightarrow> (None, \<lparr>tm_items = [], tm_nextID = 1\<rparr>, d1))"

definition Todo_Get :: "int \<Rightarrow> todo_manager \<Rightarrow> go_error + todo_item" where
  "Todo_Get i m = (case find (\<lambda>item. ti_ID item = i) (tm_items m) of Some item \<Rightarrow> Inr item | None \<Rightarrow> Inl (todo_not_found i))"

definition todo_line :: "todo_item \<Rightarrow> string" where
  "todo_line item =
    (if ti_Status item = ''completed'' then ''[x]'' else if ti_Status item = ''in_progress'' then ''[>]''
     else if ti_Status item = ''pending'' then ''[ ]'' else ''[?]'')
    @ '' '' @ ti_Content item @ (if ti_Status item = ''in_progress'' then '' <- '' @ ti_ActiveForm item else [])"

definition renderItems :: "todo_item list \<Rightarrow> string" where
  "renderItems items =
    (if items = [] then ''No todos.''
     else join [CHR 0x0A] (map todo_line items @
       [CHR 0x0A # ''('' @ itoa (int (length (filter (\<lambda>item. ti_Status item = ''completed'') items))) @ ''/'' @ itoa (int (length items)) @ '' completed)'']))"

section \<open>Runs\<close>

datatype todo_op =
    TodoAdd string string
  | TodoUpdate int string
  | TodoDelete int
  | TodoReplace "todo_item list"
  | TodoReset

fun todo_step :: "'d todo_repository option \<Rightarrow> int \<times> todo_op \<Rightarrow> todo_manager \<times> 'd \<Rightarrow> todo_manager \<times> 'd" where
  "todo_step repo (now, TodoAdd content active) s = snd (Todo_Add repo now content active s)"
| "todo_step repo (now, TodoUpdate i status) s = snd (Todo_Update repo now i status s)"
| "todo_step repo (now, TodoDelete i) s = snd (Todo_Delete repo now i s)"
| "todo_step repo (now, TodoReplace items) s = snd (Todo_Replace repo now items s)"
| "todo_step repo (now, TodoReset) s = snd (Todo_Reset repo s)"

text \<open>The promise of a repository: what was saved is loaded, and a failing save changes nothing.\<close>

definition todo_repository_ok :: "'d todo_repository \<Rightarrow> bool" where
  "todo_repository_ok r \<longleftrightarrow> (\<forall>items d d' e.
    (tp_Save r items d = (None, d') \<longrightarrow> tp_Load r d' = Inr items) \<and> (tp_Save r items d = (Some e, d') \<longrightarrow> d' = d))"

text \<open>Ids are different and below the next id, which is the one a reload would compute.\<close>

definition todos_ok :: "todo_manager \<Rightarrow> bool" where
  "todos_ok m \<longleftrightarrow> distinct (map ti_ID (tm_items m)) \<and> list_all (\<lambda>item. ti_ID item < tm_nextID m) (tm_items m)
    \<and> 1 \<le> tm_nextID m \<and> tm_nextID m = foldl next_after 1 (tm_items m)"

definition todo_agrees :: "'d todo_repository \<Rightarrow> todo_manager \<times> 'd \<Rightarrow> bool" where
  "todo_agrees r s \<longleftrightarrow> todos_ok (fst s) \<and> (todo_repository_ok r \<longrightarrow> tp_Load r (snd s) = Inr (tm_items (fst s)))"

definition ids_left :: "todo_manager \<times> 'd \<Rightarrow> int \<times> todo_op \<Rightarrow> bool" where
  "ids_left s x \<longleftrightarrow> tm_nextID (fst s) < max_int64 \<and> (case snd x of TodoReplace items \<Rightarrow> int (length items) < max_int64 | _ \<Rightarrow> True)"

lemma set_status_ids: "set_status now i status items = Some (u, us) \<Longrightarrow> map ti_ID us = map ti_ID items"
  by (induction items arbitrary: us) (auto simp: Let_def split: if_splits)

lemma next_after_ids: "map ti_ID us = map ti_ID items \<Longrightarrow> foldl next_after n us = foldl next_after n items"
proof (induction us arbitrary: items n)
  case (Cons u us)
  then obtain item rest where "items = item # rest" "ti_ID u = ti_ID item" "map ti_ID us = map ti_ID rest"
    by (auto simp: map_eq_Cons_conv Cons_eq_map_conv)
  with Cons.IH show ?case by (simp add: next_after_def)
qed simp

lemma list_all_ids: "list_all (\<lambda>item. P (ti_ID item)) items \<longleftrightarrow> list_all P (map ti_ID items)"
  by (simp add: list_all_iff)

lemma same_ids_ok:
  assumes "todos_ok m" and "map ti_ID us = map ti_ID (tm_items m)"
  shows "todos_ok (m\<lparr>tm_items := us\<rparr>)"
proof -
  have "list_all (\<lambda>item. ti_ID item < tm_nextID m) us \<longleftrightarrow> list_all (\<lambda>item. ti_ID item < tm_nextID m) (tm_items m)"
    unfolding list_all_ids [of "\<lambda>i. i < tm_nextID m"] assms(2) ..
  then show ?thesis using assms next_after_ids [OF assms(2), of 1] by (auto simp: todos_ok_def)
qed

lemma added_ok:
  assumes "todos_ok m" and "tm_nextID m < max_int64" and "ti_ID item = tm_nextID m"
  shows "todos_ok \<lparr>tm_items = tm_items m @ [item], tm_nextID = wrap64 (tm_nextID m + 1)\<rparr>"
proof -
  have "wrap64 (tm_nextID m + 1) = tm_nextID m + 1" using assms(1,2) by (intro wrap64_id) (auto simp: todos_ok_def)
  with assms show ?thesis by (auto simp: todos_ok_def list_all_iff next_after_def)
qed

lemma renumbered_ids: "map ti_ID (map (renumber now) (enumerate k items)) = map (\<lambda>i. int i + 1) [k ..< k + length items]"
proof -
  have "map ti_ID (map (renumber now) ps) = map (\<lambda>i. int i + 1) (map fst ps)" for ps by (induction ps) (auto simp: renumber_def)
  then show ?thesis by (simp only: map_fst_enumerate)
qed

lemma foldl_next_renumbered:
  "map ti_ID us = map (\<lambda>i. int i + 1) [k ..< k + n] \<Longrightarrow> int (k + n) < max_int64 \<Longrightarrow> foldl next_after (int k + 1) us = int (k + n) + 1"
proof (induction us arbitrary: k n)
  case (Cons u us)
  then obtain n' where n: "n = Suc n'" by (cases n) auto
  have "[k ..< k + Suc n'] = k # [Suc k ..< Suc k + n']" using upt_conv_Cons [of k "k + Suc n'"] by (simp del: upt_Suc)
  with Cons.prems(1) have "ti_ID u = int k + 1" "map ti_ID us = map (\<lambda>i. int i + 1) [Suc k ..< Suc k + n']"
    by (simp_all add: n del: upt_Suc)
  moreover from this(1) have "next_after (int k + 1) u = int (Suc k) + 1"
    using Cons.prems(2) by (simp add: next_after_def n wrap64_id)
  ultimately show ?case using Cons.IH [of "Suc k" n'] Cons.prems(2) by (simp add: n)
qed auto

lemma replaced_ok:
  assumes "int (length items) < max_int64"
  shows "todos_ok \<lparr>tm_items = map (renumber now) (enumerate 0 items), tm_nextID = int (length items) + 1\<rparr>"
proof -
  have ids: "map ti_ID (map (renumber now) (enumerate 0 items)) = map (\<lambda>i. int i + 1) [0 ..< 0 + length items]" by (rule renumbered_ids)
  have "distinct (map (\<lambda>i. int i + 1) [0 ..< 0 + length items])" by (simp add: distinct_map inj_on_def)
  moreover have "list_all (\<lambda>i. i < int (length items) + 1) (map (\<lambda>i. int i + 1) [0 ..< 0 + length items])" by (simp add: list_all_iff)
  ultimately show ?thesis
    using foldl_next_renumbered [OF ids] assms ids unfolding todos_ok_def list_all_ids [of "\<lambda>i. i < _"] by simp
qed

lemma persist_agrees:
  assumes "todo_repository_ok r" and "tp_Load r d = Inr (tm_items m)" and "persist (Some r) items d = (w, d1)"
  shows "tp_Load r d1 = Inr (case w of None \<Rightarrow> items | Some e \<Rightarrow> tm_items m)"
  using assms unfolding todo_repository_ok_def persist_def by (cases w) auto

text \<open>
  Every operation saves the new items first: either it fails and leaves the manager, or the saved items are its items.
\<close>

definition committed :: "'d todo_repository option \<Rightarrow> todo_manager \<times> 'd \<Rightarrow> todo_manager \<times> 'd \<Rightarrow> bool" where
  "committed repo s s' \<longleftrightarrow> s' = s \<or>
    (\<exists>items w. persist repo items (snd s) = (w, snd s') \<and> (case w of Some e \<Rightarrow> fst s' = fst s | None \<Rightarrow> tm_items (fst s') = items))"

lemma todo_step_committed: "committed repo s (todo_step repo x s)"
proof -
  obtain m d where s: "s = (m, d)" by force
  obtain now op where x: "x = (now, op)" by force
  have one: "committed repo (m, d) (case persist repo items d of (Some e, d1) \<Rightarrow> (m, d1) | (None, d1) \<Rightarrow> (m', d1))"
    if "tm_items m' = items" for items m'
    using that by (cases "persist repo items d") (auto simp: committed_def split: option.splits)
  have same: "committed repo (m, d) (m, d)" by (simp add: committed_def)
  have snd_case: "snd (case p of (Some e, d1) \<Rightarrow> (f e, m, d1) | (None, d1) \<Rightarrow> (g, m', d1))
      = (case p of (Some e, d1) \<Rightarrow> (m, d1) | (None, d1) \<Rightarrow> (m', d1))" for p f g m'
    by (simp split: prod.split option.split)
  show ?thesis
    by (cases op) (auto simp: s x Todo_Add_def Todo_Update_def Todo_Delete_def Todo_Replace_def Todo_Reset_def Let_def snd_case same
      intro!: one split: option.split)
qed

lemma todo_step_ok:
  assumes "todos_ok (fst s)" and "ids_left s x"
  shows "todos_ok (fst (todo_step repo x s))"
proof -
  obtain m d where s: "s = (m, d)" by force
  obtain now op where x: "x = (now, op)" by force
  have m: "todos_ok m" "tm_nextID m < max_int64" using assms by (simp_all add: s ids_left_def)
  show ?thesis
  proof (cases op)
    case (TodoAdd a b)
    then show ?thesis using m added_ok [OF m] by (auto simp: s x Todo_Add_def Let_def split: prod.splits option.splits)
  next
    case (TodoUpdate i st)
    then show ?thesis using m same_ids_ok [OF m(1)] set_status_ids
      by (auto simp: s x Todo_Update_def Let_def split: prod.splits option.splits)
  next
    case (TodoDelete i)
    then show ?thesis using m same_ids_ok [OF m(1)] set_status_ids
      by (auto simp: s x Todo_Delete_def Let_def split: prod.splits option.splits)
  next
    case (TodoReplace items)
    with assms(2) have "int (length items) < max_int64" by (simp add: ids_left_def x)
    from replaced_ok [OF this] TodoReplace m show ?thesis
      by (auto simp: s x Todo_Replace_def Let_def split: prod.splits option.splits)
  next
    case TodoReset
    then show ?thesis using m by (auto simp: s x Todo_Reset_def Let_def todos_ok_def split: prod.splits option.splits)
  qed
qed

lemma todo_step_agrees:
  assumes "todo_agrees r s" and "ids_left s x"
  shows "todo_agrees r (todo_step (Some r) x s)"
  unfolding todo_agrees_def
proof (intro conjI impI)
  show "todos_ok (fst (todo_step (Some r) x s))" using todo_step_ok [OF _ assms(2)] assms(1) by (simp add: todo_agrees_def)
  assume r: "todo_repository_ok r"
  with assms(1) have l: "tp_Load r (snd s) = Inr (tm_items (fst s))" by (simp add: todo_agrees_def)
  from todo_step_committed [of "Some r" s x] show "tp_Load r (snd (todo_step (Some r) x s)) = Inr (tm_items (fst (todo_step (Some r) x s)))"
    using l persist_agrees [OF r l] by (auto simp: committed_def split: option.splits)
qed

interpretation todo_backing: backed_manager "todo_step (Some r)" "todo_agrees r" ids_left for r
  using todo_step_agrees by unfold_locales blast

text \<open>
  C40. A run of the todo manager, from a list loaded from its repository. The ids of the items stay
  different and below the next id, also when the repository fails, and a manager that is started
  afterwards on the repository is the manager of the run, next id included. (As long as the ids fit a 64-bit integer.)
\<close>
theorem todos_kept_and_reloaded:
  assumes "todo_repository_ok r" and "tp_Load r d = Inr items" and "todos_ok (NewTodos (Some r) d)"
    and "on_run (todo_step (Some r)) ids_left (NewTodos (Some r) d, d) xs" and "fold (todo_step (Some r)) xs (NewTodos (Some r) d, d) = (m, d')"
  shows "todos_ok m \<and> NewTodos (Some r) d' = m"
proof -
  have "todo_agrees r (NewTodos (Some r) d, d)" using assms(2,3) by (simp add: todo_agrees_def NewTodos_def load_todos_def)
  from todo_backing.run_agrees [OF this assms(4)] have "todos_ok m" "tp_Load r d' = Inr (tm_items m)"
    using assms(1,5) by (simp_all add: todo_agrees_def)
  moreover from this have "NewTodos (Some r) d' = m" by (simp add: NewTodos_def load_todos_def todos_ok_def)
  ultimately show ?thesis by simp
qed

definition cell_repository :: "todo_item list todo_repository" where
  "cell_repository = \<lparr>tp_Load = Inr, tp_Save = (\<lambda>items d. if length items > 2 then (Some (Errorf ''disk full'' []), d) else (None, items))\<rparr>"

definition todo_demo :: "(int \<times> todo_op) list" where
  "todo_demo = [(1, TodoAdd ''a'' []), (2, TodoAdd ''b'' []), (3, TodoAdd ''c'' []), (4, TodoUpdate 2 ''completed''), (5, TodoDelete 1)]"

theorem todos_kept_and_reloaded_witness:
  "case fold (todo_step (Some cell_repository)) todo_demo (NewTodos (Some cell_repository) [], []) of
     (m, d) \<Rightarrow> map ti_Status (tm_items m) = [''deleted'', ''completed''] \<and> todos_ok m \<and> NewTodos (Some cell_repository) d = m"
proof -
  let ?r = "Some cell_repository"
  obtain m d where f: "fold (todo_step ?r) todo_demo (NewTodos ?r [], []) = (m, d)" by force
  have "todo_repository_ok cell_repository" by (auto simp: todo_repository_ok_def cell_repository_def split: if_splits)
  moreover have "tp_Load cell_repository [] = Inr []" "todos_ok (NewTodos ?r [])" "on_run (todo_step ?r) ids_left (NewTodos ?r [], []) todo_demo"
    "map ti_Status (tm_items (fst (fold (todo_step ?r) todo_demo (NewTodos ?r [], [])))) = [''deleted'', ''completed'']" by code_simp+
  ultimately show ?thesis using todos_kept_and_reloaded [of cell_repository "[]" "[]" todo_demo m d] f by simp
qed

end
