(* ===== verification/Spec2Isabelle.thy ===== *)
theory Spec2Isabelle
  imports Workflow_Faults Workflow_Adapter Session_Graph Shell_Correct Permission_Examples File_Edits Task_Manager Todo_Manager
begin

text \<open>
  A verification library for GoDex, a workspace for agents that run long tasks, call tools and are
  approved and audited by people. The library models the parts that decide: which flows are accepted
  and how they run, which network addresses and shell commands an agent may reach, what has to be
  approved, which files a name stands for and how they are edited, and who works on which task. Paths
  below are relative to \<open>src/internal\<close>.

  \<^bold>\<open>The program.\<close> A \<^emph>\<open>flow\<close> is a declarative definition of nodes and edges. It is validated
  (\<open>core/flow/validate.go\<close>) and compiled (\<open>core/flow/compile.go\<close>); the agent lowers the result
  to inputs of its durable \<^emph>\<open>workflow engine\<close> (\<open>agent/workflow_flow_compile.go\<close>), which stores a run,
  starts the nodes whose dependencies are completed, fires control edges that append further nodes,
  retries failures and computes the status of the run (\<open>agent/workflow*.go\<close>). A node may call a
  service over HTTP under a network policy (\<open>agent/workflow_flow_service.go\<close>, \<open>tools/netutil.go\<close>).
  The conversation an agent has is a \<^emph>\<open>session graph\<close> of branches and checkpoints
  (\<open>sessiongraph/graph.go\<close>). Every tool call passes the \<^emph>\<open>permission manager\<close>
  (\<open>toolruntime/permissions.go\<close>), which asks the \<^emph>\<open>shell guard\<close> about command lines
  (\<open>platform/tooling/shell_policy.go\<close>); file tools reach the disk through the \<^emph>\<open>workspace file
  system\<close> (\<open>platform/workspacefs\<close>) and edit files with \<open>edit_file\<close> (\<open>platform/tooling/tooling.go\<close>).
  Tasks and todos are kept by two managers (\<open>domain/task\<close>, \<open>domain/todo\<close>).

  \<^bold>\<open>The theories.\<close>

  \<^item> \<open>Prelude\<close>, \<open>Go_Std\<close>: Go's early returns, strings as byte lists, 64-bit integers, paths; the
    collections \<open>gostr\<close> and \<open>noerr\<close>. \<open>Dfs\<close>: the cycle search that validator and engine share, proved
    to decide acyclicity for every order of visits (the contract \<open>cycle_search\<close>).
  \<^item> \<open>Stores\<close>, \<open>Managers\<close>: the contracts, as locales. In a \<open>recorded_store\<close> no entry appears that no
    operation wrote, in a \<open>metered_store\<close> an entry is used as often as its budget says; the
    permission manager is interpreted as both. A \<open>backed_manager\<close> keeps memory and repository in
    agreement (interpreted by the task and the todo manager); in an \<open>exclusive_claim\<close> an entry has one
    holder at a time (interpreted by the task manager).
  \<^item> \<open>Flow_Model\<close>, \<open>Flow_Schema\<close>: \<open>core/flow/model.go\<close> and \<open>contracts.go\<close>; a value is accepted by a
    schema exactly when it conforms to it.
  \<^item> \<open>Flow_Checks\<close>, \<open>Flow_Session\<close>, \<open>Flow_Validate\<close>: \<open>validate.go\<close>, one definition per check and
    \<open>Validate\<close> composed from them; what acceptance means for ids, edges, acyclicity, references and
    session regions.
  \<^item> \<open>Flow_Compile\<close>: \<open>compile.go\<close>; the compiled graph is the static part of the definition, and the
    compiler returns for iteration bounds below the largest integer.
  \<^item> \<open>Workflow_Model\<close>, \<open>Workflow_Cond\<close>, \<open>Workflow_Nodes\<close>, \<open>Workflow_Exec\<close>, \<open>Workflow_Engine\<close>,
    \<open>Workflow_Ops\<close>: the data of the engine, conditions and retries, inputs to nodes and edges, the
    executors of each kind of node, edges and status, and the operations on a stored run.
    \<open>Workflow_Inv\<close>, \<open>Workflow_Edges\<close>, \<open>Workflow_Runs\<close>: the invariant of a run, the budget of the
    scheduler, the relation \<open>run_step\<close> and the reachable states. \<open>Workflow_Correct\<close>,
    \<open>Workflow_Faults\<close>: the properties of runs, of failures and of repetitions.
  \<^item> \<open>Net_Util\<close>, \<open>Workflow_Service\<close>: addresses and domains, and the service call with its policy,
    dialer, redirects, rendering and response.
  \<^item> \<open>Workflow_Adapter\<close>: a compiled flow as inputs of the engine; the engine accepts them and its
    dependencies are those of the flow. This composes validator, compiler and engine.
  \<^item> \<open>Session_Graph\<close>: the graph with an abstract specification on branch histories that every
    operation refines, errors included, and its runs (the contract \<open>branch_histories\<close>).
  \<^item> \<open>Shell_Syntax\<close>, \<open>Shell_Policy\<close>, \<open>Shell_Correct\<close>: reading of command lines, the checks, and what
    an accepted line can run, with the lines that get past the guard.
  \<^item> \<open>Permission_Model\<close>, \<open>Permission_Rules\<close>, \<open>Permission_Manager\<close>: requests and keys, the ordered
    rules, every operation of the manager and the interceptor. \<open>Permission_Trace\<close>,
    \<open>Permission_Index\<close>, \<open>Permission_Correct\<close>, \<open>Permission_Examples\<close>: runs of operations, the
    agreement of the tables, the properties, and concrete requests.
  \<^item> \<open>Workspace_Fs\<close>, \<open>File_Edits\<close>: from a name to a path below the workspace, the local back end, and
    the edit operations on top of any back end.
  \<^item> \<open>Task_Manager\<close>, \<open>Todo_Manager\<close>: the two managers over their repository interfaces.

  A Go struct is a \<open>record\<close> whose fields carry a prefix and the name of the source, a function or
  method is a definition of the same name (\<open>Todo_Add\<close> and the like where two managers clash), a loop
  with early returns is \<^const>\<open>each\<close>, \<^const>\<open>each_st\<close> or a recursion of its own, and an error is a value
  of \<^typ>\<open>go_error\<close> with its format string and arguments; a run-time panic is \<^const>\<open>Panic\<close>.

  \<^bold>\<open>Code outside the repository\<close> is a parameter: \<open>go_env\<close> (URLs and the order in which Go ranges over a
  map), \<open>engine_env\<close> (subagents, decisions by a model, scripts, functions, the store, the clock's
  cancellation), \<open>service_env\<close> (resolver, transport, JSON coding), \<open>shell_env\<close> (Unicode classes, URLs,
  patterns, working directory), \<open>permission_env\<close> (SHA-1, durations), \<open>os_ops\<close> (the operating
  system's files), and the two repositories. Hypotheses on them state what their documentation says: a range visits every
  key, a repository loads what was saved. Each theorem with such a hypothesis has a witness with a
  concrete parameter.

  \<^bold>\<open>Loops and bounds.\<close> All loops are total functions but two. The loop of the scheduler
  (\<open>advance_loop\<close>) and the scan of the compiler (\<open>scan_iterations\<close>) may run forever in principle, so they
  are partial functions into an option; the scheduler is proved to return from every state that
  satisfies the invariant, by a budget of free node places, unprocessed pairs of edge and node, and
  attempts left; the scan is proved to return below the largest integer, and not to return at it. The nested checks
  of the shell guard are a recursion on the length of the script. Integers that can overflow are
  reduced with \<^const>\<open>wrap64\<close> where the code computes them. No definition uses fuel.

  \<^bold>\<open>Simplifications.\<close> An operation reads the clock once. A mutex makes an operation atomic; the
  interleaving of operations is a sequence of steps. Receivers are not nil. A Go map is an association
  list with distinct keys, and an order of iteration is a parameter or the order of the list. Floating-point delays and ratios are exact
  rationals. Case folding is exact for the comparisons with ASCII words that the code makes. Paths are
  those of Unix. The identity of pointers to nodes is left out: nodes are values addressed by their
  index. Log lines and events are left out.

  \<^bold>\<open>Not modelled.\<close> The conversation loop and its subagents, providers of language models, HTTP handlers,
  channels, terminal and web interfaces, process execution, the other back ends of the workspace file
  system, plugins, configuration and the stores behind the modelled components: they are input and
  output, concurrency of the runtime, or calls of third-party packages, and what they decide is decided
  by the parts above. Of the workflow operations, waiting for a run, the event log, the assembly of prompts
  and the tool front end are left out; of the tooling package, everything that starts a process.
\<close>

end
